theory Spec2Isabelle
  imports Complex_Main "HOL-Library.Option_ord"
begin

section \<open>Sweep-line Voronoi engine of voronoi.cpp\<close>

text \<open>
  The development embeds \<^verbatim>\<open>src/voronoi.cpp\<close>. Conventions of the embedding:

  \<^item> Coordinates (\<^verbatim>\<open>float\<close> and \<^verbatim>\<open>double\<close> in the source) are real numbers; rounding is
    not modelled. A division by zero or a square root of a negative number, which in
    the source yields an infinity or a NaN, is written out: the checked operations
    below return \<open>None\<close> for a non-finite value. In \<^verbatim>\<open>getIntersection\<close>, whose closing
    asserts test the result for infinities, every operation is checked against the
    range of its type as well.
  \<^item> A \<^verbatim>\<open>const Point*\<close> is \<open>None\<close> for \<^verbatim>\<open>nullptr\<close> and \<open>Some i\<close> for the address of
    element \<open>i\<close> of the input vector (\<^verbatim>\<open>m_points->data() + i\<close>); pointer comparison is
    comparison of \<open>None < Some 0 < Some 1 < \<dots>\<close>.
  \<^item> A failed \<^verbatim>\<open>assert\<close>, a \<^verbatim>\<open>throw\<close> and an access the language leaves undefined
    (null dereference, out-of-range element) are error values.
  \<^item> A \<^verbatim>\<open>std::set\<close> is the list of its elements in iteration order; searching it
    is a scan for the first element that is not less than the key.
\<close>

subsection \<open>Errors\<close>

datatype error = AssertionFailed | Thrown | NullDereference | OutOfRange

fun ebind :: "error + 'a \<Rightarrow> ('a \<Rightarrow> error + 'b) \<Rightarrow> error + 'b" where
  "ebind (Inl e) f = Inl e"
| "ebind (Inr v) f = f v"

definition assert :: "bool \<Rightarrow> error + unit" where
  "assert b = (if b then Inr () else Inl AssertionFailed)"

subsection \<open>Points and pointers to sites\<close>

text \<open>Modelled from the spec: the point type of \<^verbatim>\<open>geometry.h\<close>, a pair of coordinates
  \<^verbatim>\<open>{ x, y }\<close>.\<close>

record Point =
  X :: real
  Y :: real

type_synonym PointPtr = "nat option"

definition deref :: "Point list \<Rightarrow> PointPtr \<Rightarrow> error + Point" where
  "deref pts p =
     (case p of
        None \<Rightarrow> Inl NullDereference
      | Some i \<Rightarrow> if i < length pts then Inr (pts ! i) else Inl OutOfRange)"

text \<open>Modelled from the spec: \<^verbatim>\<open>sizeof(Point)\<close> for a point of two 64-bit coordinates.\<close>

definition sizeof_Point :: nat where
  "sizeof_Point = 16"

text \<open>Modelled from the spec: \<^verbatim>\<open>distance2d\<close> of \<^verbatim>\<open>geometry.h\<close>, the Euclidean distance
  of two points.\<close>

definition distance2d :: "Point \<Rightarrow> Point \<Rightarrow> real" where
  "distance2d a b = sqrt ((X a - X b) * (X a - X b) + (Y a - Y b) * (Y a - Y b))"

subsection \<open>Geometry kernel\<close>

definition epsilon :: real where
  "epsilon = 1 / 10000000"

definition sqr :: "real \<Rightarrow> real" where
  "sqr v = v * v"

definition checked_div :: "real \<Rightarrow> real \<Rightarrow> real option" where
  "checked_div a b = (if b = 0 then None else Some (a / b))"

definition perp :: "Point \<Rightarrow> Point \<Rightarrow> Point \<Rightarrow> real" where
  "perp pt v0 v1 = (X pt - X v1) * (Y v0 - Y v1) - (Y pt - Y v1) * (X v0 - X v1)"

text \<open>\<^verbatim>\<open>orderPoints\<close> sorts three pointers by three conditional swaps; it is stated for
  any linear order and used at \<open>PointPtr\<close>.\<close>

definition orderPoints :: "'a::linorder \<Rightarrow> 'a \<Rightarrow> 'a \<Rightarrow> 'a \<times> 'a \<times> 'a" where
  "orderPoints ptA ptB ptC =
     (let (a1, b1) = (if ptA > ptB then (ptB, ptA) else (ptA, ptB));
          (b2, c2) = (if b1 > ptC then (ptC, b1) else (b1, ptC));
          (a3, b3) = (if a1 > b2 then (b2, a1) else (a1, b2))
      in (a3, b3, c2))"

record Circle =
  center :: Point
  radius :: real

record Intersection =
  pt_left :: PointPtr
  pt_right :: PointPtr

definition getSign :: "Point list \<Rightarrow> Intersection \<Rightarrow> error + real" where
  "getSign pts intersection =
     ebind (assert (pt_left intersection \<noteq> None \<and> pt_right intersection \<noteq> None)) (\<lambda>_.
     ebind (deref pts (pt_left intersection)) (\<lambda>left_parab.
     ebind (deref pts (pt_right intersection)) (\<lambda>right_parab.
       if Y left_parab \<le> Y right_parab then Inr 1 else Inr (- 1))))"

subsection \<open>Floating-point results\<close>

text \<open>A value is a real number and rounding is not modelled, but a result can leave the
  range of its type: it is then an infinity, and whatever is computed from it is an
  infinity or a NaN. The result of an operation is \<open>None\<close> when it is an infinity or a NaN:
  an operand that is one, a result beyond the largest finite value, a division by zero,
  the square root of a negative number. (A quotient by an infinity is zero in the source.
  In \<^verbatim>\<open>getIntersection\<close> the only divisor that can be an infinity is \<^verbatim>\<open>p.y - r.y\<close> of the
  general branch; then \<^verbatim>\<open>p.y*p.y\<close> or \<^verbatim>\<open>r.y*r.y\<close> is one too, \<^verbatim>\<open>rad\<close> is a NaN and so is
  \<^verbatim>\<open>q.x\<close>: taking \<open>None\<close> for that quotient does not change which calls fail the closing
  asserts.)\<close>

definition max_double :: real where
  "max_double = (2 - 1 / 2 ^ 52) * 2 ^ 1023"

definition max_float :: real where
  "max_float = (2 - 1 / 2 ^ 23) * 2 ^ 127"

definition double_result :: "real \<Rightarrow> real option" where
  "double_result v = (if \<bar>v\<bar> \<le> max_double then Some v else None)"

definition float_result :: "real \<Rightarrow> real option" where
  "float_result v = (if \<bar>v\<bar> \<le> max_float then Some v else None)"

text \<open>The operators on \<^verbatim>\<open>double\<close>.\<close>

definition d_add :: "real option \<Rightarrow> real option \<Rightarrow> real option" where
  "d_add a b = (case (a, b) of (Some x, Some y) \<Rightarrow> double_result (x + y) | _ \<Rightarrow> None)"

definition d_sub :: "real option \<Rightarrow> real option \<Rightarrow> real option" where
  "d_sub a b = (case (a, b) of (Some x, Some y) \<Rightarrow> double_result (x - y) | _ \<Rightarrow> None)"

definition d_mul :: "real option \<Rightarrow> real option \<Rightarrow> real option" where
  "d_mul a b = (case (a, b) of (Some x, Some y) \<Rightarrow> double_result (x * y) | _ \<Rightarrow> None)"

definition d_div :: "real option \<Rightarrow> real option \<Rightarrow> real option" where
  "d_div a b =
     (case (a, b) of
        (Some x, Some y) \<Rightarrow> if y = 0 then None else double_result (x / y)
      | _ \<Rightarrow> None)"

definition d_sqrt :: "real option \<Rightarrow> real option" where
  "d_sqrt a = (case a of Some x \<Rightarrow> if x < 0 then None else Some (sqrt x) | None \<Rightarrow> None)"

text \<open>\<^verbatim>\<open>sqr\<close> on an operand that may be an infinity.\<close>

definition d_sqr :: "real option \<Rightarrow> real option" where
  "d_sqr a = d_mul a a"

text \<open>The operators on \<^verbatim>\<open>float\<close>, and the conversion of a \<^verbatim>\<open>double\<close> to \<^verbatim>\<open>float\<close>.\<close>

definition f_add :: "real option \<Rightarrow> real option \<Rightarrow> real option" where
  "f_add a b = (case (a, b) of (Some x, Some y) \<Rightarrow> float_result (x + y) | _ \<Rightarrow> None)"

definition f_mul :: "real option \<Rightarrow> real option \<Rightarrow> real option" where
  "f_mul a b = (case (a, b) of (Some x, Some y) \<Rightarrow> float_result (x * y) | _ \<Rightarrow> None)"

definition to_float :: "real option \<Rightarrow> real option" where
  "to_float a = (case a of Some x \<Rightarrow> float_result x | None \<Rightarrow> None)"

subsection \<open>Intersection of two parabolas\<close>

text \<open>The four asserts that close \<^verbatim>\<open>getIntersection\<close>: both coordinates are finite.\<close>

definition finite_point :: "real option \<Rightarrow> real option \<Rightarrow> error + Point" where
  "finite_point qx qy =
     (case (qx, qy) of
        (Some a, Some b) \<Rightarrow> Inr \<lparr>X = a, Y = b\<rparr>
      | _ \<Rightarrow> Inl AssertionFailed)"

text \<open>\<^verbatim>\<open>getIntersection\<close> on two sites. The coordinates of the sites are finite values of
  \<^verbatim>\<open>double\<close> and the sweep position is a finite value of \<^verbatim>\<open>float\<close>; \<^verbatim>\<open>y_s\<close>,
  \<^verbatim>\<open>term1\<close>, \<^verbatim>\<open>rad\<close> and \<^verbatim>\<open>sign\<close> are of type \<^verbatim>\<open>float\<close>, so that \<^verbatim>\<open>y_s*y_s\<close> and
  \<^verbatim>\<open>term1 + sign*std::abs(rad)\<close> are computed in \<^verbatim>\<open>float\<close>; \<^verbatim>\<open>sqr\<close> takes a \<^verbatim>\<open>double\<close>.\<close>

definition getIntersection :: "real \<Rightarrow> Point \<Rightarrow> Point \<Rightarrow> real \<Rightarrow> error + Point" where
  "getIntersection sweep_y p r sign =
     (let y_s = Some sweep_y;
          px = Some (X p); py = Some (Y p); rx = Some (X r); ry = Some (Y r);
          two = Some 2; half = Some 0.5
      in
      if \<bar>Y p - sweep_y\<bar> < epsilon then
        (let qx = px in
         finite_point qx
           (d_div
              (d_mul half
                 (d_sub (d_add (d_add (d_sub (d_sqr qx) (d_mul (d_mul two qx) rx)) (d_sqr rx))
                               (d_sqr ry))
                        (d_sqr y_s)))
              (d_sub ry y_s)))
      else if \<bar>Y r - sweep_y\<bar> < epsilon then
        (let qx = rx in
         finite_point qx
           (d_div
              (d_mul half
                 (d_sub (d_add (d_sub (d_add (d_mul px px) (d_mul py py)) (d_mul (d_mul two px) qx))
                               (d_mul qx qx))
                        (f_mul y_s y_s)))
              (d_sub py y_s)))
      else if \<bar>Y p - Y r\<bar> > epsilon then
        (let term1 = to_float
               (d_div (d_add (d_sub (d_mul py rx) (d_mul px ry)) (d_mul (d_sub px rx) y_s))
                      (d_sub py ry));
             rad = to_float
               (d_div
                  (d_mul
                     (d_mul
                        (d_sqrt
                           (d_add
                              (d_sub
                                 (d_add (d_sub (d_add (d_mul px px) (d_mul py py))
                                               (d_mul (d_mul two px) rx))
                                        (d_mul rx rx))
                                 (d_mul (d_mul two py) ry))
                              (d_mul ry ry)))
                        (d_sqrt (d_sub py y_s)))
                     (d_sqrt (d_sub ry y_s)))
                  (d_sub py ry));
             qx = f_add term1 (f_mul (Some sign) (map_option abs rad))
         in
         finite_point qx
           (d_div
              (d_mul half
                 (d_sub (d_add (d_sub (d_add (d_mul px px) (d_mul py py)) (d_mul (d_mul two px) qx))
                               (d_mul qx qx))
                        (f_mul y_s y_s)))
              (d_sub py y_s)))
      else
        (let qx = d_mul (d_add px rx) half in
         finite_point qx
           (d_div
              (d_mul half
                 (d_sub (d_add (d_sub (d_add (d_sqr px) (d_sqr py)) (d_mul (d_mul two px) qx))
                               (d_sqr qx))
                        (d_sqr y_s)))
              (d_sub py y_s))))"

definition getIntersection_inter :: "Point list \<Rightarrow> real \<Rightarrow> Intersection \<Rightarrow> error + Point" where
  "getIntersection_inter pts sweep_y isect =
     ebind (assert (pt_left isect \<noteq> None)) (\<lambda>_.
     ebind (assert (pt_right isect \<noteq> None)) (\<lambda>_.
     ebind (deref pts (pt_left isect)) (\<lambda>p.
     ebind (deref pts (pt_right isect)) (\<lambda>r.
     ebind (getSign pts isect) (\<lambda>sign.
       getIntersection sweep_y p r sign)))))"

text \<open>\<^verbatim>\<open>solveCircle\<close> has no check of its own: for colinear points its denominator is
  zero and every field of the result is an infinity or a NaN, which is \<open>None\<close> here.\<close>

definition solveCircle :: "Point \<Rightarrow> Point \<Rightarrow> Point \<Rightarrow> Circle option" where
  "solveCircle p q r =
     (let den = Y p * X q - X p * Y q - (Y p - Y q) * X r + (X p - X q) * Y r in
      case (checked_div
              (0.5 * (Y p * sqr (X q) + Y p * sqr (Y q) - (Y p - Y q) * sqr (X r)
                      - (Y p - Y q) * sqr (Y r) - (sqr (X p) + sqr (Y p)) * Y q
                      + (sqr (X p) + sqr (Y p) - sqr (X q) - sqr (Y q)) * Y r)) den,
            checked_div
              (- 0.5 * (X p * sqr (X q) + X p * sqr (Y q) - (X p - X q) * sqr (X r)
                        - (X p - X q) * sqr (Y r) - (sqr (X p) + sqr (Y p)) * X q
                        + (sqr (X p) + sqr (Y p) - sqr (X q) - sqr (Y q)) * X r)) den) of
        (Some cx, Some cy) \<Rightarrow>
          Some \<lparr>center = \<lparr>X = cx, Y = cy\<rparr>,
                radius = sqrt (sqr (X p - cx) + sqr (Y p - cy))\<rparr>
      | _ \<Rightarrow> None)"

subsection \<open>Beach line\<close>

text \<open>\<^verbatim>\<open>BeachCompare::operator()\<close> at the sweep position its \<^verbatim>\<open>sweep_y\<close> cell holds.\<close>

definition BeachCompare :: "Point list \<Rightarrow> real \<Rightarrow> Intersection \<Rightarrow> Intersection \<Rightarrow> error + bool" where
  "BeachCompare pts sweep_y lhs rhs =
     (let lhs_n_infinite = (pt_left lhs = None);
          lhs_p_infinite = (pt_right lhs = None);
          rhs_n_infinite = (pt_left rhs = None);
          rhs_p_infinite = (pt_right rhs = None)
      in
      if (lhs_p_infinite \<and> rhs_n_infinite) \<or> (lhs_p_infinite \<and> rhs_p_infinite)
          \<or> (lhs_n_infinite \<and> rhs_n_infinite) then Inr False
      else if lhs_n_infinite \<or> rhs_p_infinite then Inr True
      else if lhs_p_infinite \<or> rhs_n_infinite then Inr False
      else if pt_left lhs = pt_left rhs \<and> pt_right lhs = pt_right rhs then Inr False
      else if pt_right lhs = pt_left rhs \<and> pt_left lhs = pt_right rhs then
        ebind (getSign pts lhs) (\<lambda>sl.
        ebind (getSign pts rhs) (\<lambda>sr. Inr (sl < sr)))
      else if pt_left lhs = pt_right lhs then
        ebind (assert (pt_left rhs \<noteq> pt_right rhs)) (\<lambda>_.
        ebind (getIntersection_inter pts sweep_y rhs) (\<lambda>right.
        ebind (deref pts (pt_left lhs)) (\<lambda>l. Inr (X l < X right))))
      else if pt_left rhs = pt_right rhs then
        ebind (assert (pt_left lhs \<noteq> pt_right lhs)) (\<lambda>_.
        ebind (getIntersection_inter pts sweep_y lhs) (\<lambda>left.
        ebind (deref pts (pt_left rhs)) (\<lambda>r. Inr (X left < X r))))
      else
        ebind (getIntersection_inter pts sweep_y lhs) (\<lambda>left.
        ebind (getIntersection_inter pts sweep_y rhs) (\<lambda>right.
          Inr (X left < X right))))"

text \<open>The operations of \<^verbatim>\<open>std::set<Intersection, BeachCompare>\<close> the engine uses. A
  position is an index into the list; the length of the list is \<^verbatim>\<open>end()\<close>.\<close>

fun beach_lower_bound ::
  "(Intersection \<Rightarrow> Intersection \<Rightarrow> error + bool) \<Rightarrow> Intersection list \<Rightarrow> Intersection
     \<Rightarrow> error + nat" where
  "beach_lower_bound cmp [] k = Inr 0"
| "beach_lower_bound cmp (e # es) k =
     ebind (cmp e k) (\<lambda>b.
       if b then ebind (beach_lower_bound cmp es k) (\<lambda>i. Inr (Suc i)) else Inr 0)"

definition beach_find ::
  "(Intersection \<Rightarrow> Intersection \<Rightarrow> error + bool) \<Rightarrow> Intersection list \<Rightarrow> Intersection
     \<Rightarrow> error + nat" where
  "beach_find cmp beach k =
     ebind (beach_lower_bound cmp beach k) (\<lambda>i.
       if i = length beach then Inr i
       else ebind (cmp k (beach ! i)) (\<lambda>b. Inr (if b then length beach else i)))"

definition beach_emplace ::
  "(Intersection \<Rightarrow> Intersection \<Rightarrow> error + bool) \<Rightarrow> Intersection list \<Rightarrow> Intersection
     \<Rightarrow> error + (Intersection list \<times> nat \<times> bool)" where
  "beach_emplace cmp beach k =
     ebind (beach_lower_bound cmp beach k) (\<lambda>i.
       if i = length beach then Inr (beach @ [k], i, True)
       else ebind (cmp k (beach ! i)) (\<lambda>b.
         if b then Inr (take i beach @ k # drop i beach, i, True)
         else Inr (beach, i, False)))"

definition erase_at :: "nat \<Rightarrow> 'a list \<Rightarrow> 'a list" where
  "erase_at i xs = take i xs @ drop (Suc i) xs"

subsection \<open>Circle events and their queue\<close>

record CircleEvent =
  left_int :: Intersection
  right_int :: Intersection
  circle :: Circle

definition event_key :: "CircleEvent \<Rightarrow> real" where
  "event_key e = Y (center (circle e)) - radius (circle e)"

text \<open>\<^verbatim>\<open>CircleEvent::operator<\<close>.\<close>

definition event_less :: "CircleEvent \<Rightarrow> CircleEvent \<Rightarrow> bool" where
  "event_less lhs rhs = (event_key lhs < event_key rhs)"

text \<open>\<^verbatim>\<open>std::set<CircleEvent>\<close>: the list of the events in ascending order; an element
  equivalent to one already stored is not inserted.\<close>

fun queue_lower_bound :: "CircleEvent list \<Rightarrow> real \<Rightarrow> nat" where
  "queue_lower_bound [] k = 0"
| "queue_lower_bound (e # es) k = (if event_key e < k then Suc (queue_lower_bound es k) else 0)"

definition queue_set_insert :: "CircleEvent list \<Rightarrow> CircleEvent \<Rightarrow> CircleEvent list" where
  "queue_set_insert q evt =
     (let i = queue_lower_bound q (event_key evt) in
      if i < length q \<and> \<not> event_less evt (q ! i) then q
      else take i q @ evt # drop i q)"

text \<open>\<^verbatim>\<open>CircleQueue::insert\<close>. A circle of colinear sites has a NaN or infinite key: the
  test against the sweep is false and \<^verbatim>\<open>getIntersection\<close> then fails its asserts.\<close>

definition CircleQueue_insert ::
  "Point list \<Rightarrow> real \<Rightarrow> Intersection \<Rightarrow> Intersection \<Rightarrow> CircleEvent list
     \<Rightarrow> error + CircleEvent list" where
  "CircleQueue_insert pts sweep_y li ri m_queue =
     (if pt_left li = None then Inr m_queue
      else if pt_right ri = None then Inr m_queue
      else if (pt_left li = pt_left ri \<and> pt_right li = pt_right ri)
            \<or> (pt_left li = pt_right ri \<and> pt_right li = pt_left ri) then Inr m_queue
      else
        ebind (assert (pt_left li \<noteq> None)) (\<lambda>_.
        ebind (assert (pt_right li \<noteq> None)) (\<lambda>_.
        ebind (assert (pt_left ri \<noteq> None)) (\<lambda>_.
        ebind (assert (pt_right ri \<noteq> None)) (\<lambda>_.
        ebind (deref pts (pt_left li)) (\<lambda>ptA.
        ebind (deref pts (pt_right li)) (\<lambda>ptB.
        ebind (deref pts (pt_right ri)) (\<lambda>ptC.
          case solveCircle ptA ptB ptC of
            None \<Rightarrow> Inl AssertionFailed
          | Some c \<Rightarrow>
              (let evt = \<lparr>left_int = li, right_int = ri, circle = c\<rparr> in
               if Y (center c) - radius c > sweep_y then Inr m_queue
               else
                 ebind (getIntersection_inter pts (Y (center c) - radius c) li) (\<lambda>left_int_pt.
                 ebind (getIntersection_inter pts (Y (center c) - radius c) li) (\<lambda>right_int_pt.
                   let d1 = distance2d left_int_pt (center c);
                       d2 = distance2d right_int_pt (center c)
                   in if d1 > radius c \<or> d2 > radius c then Inr m_queue
                      else Inr (queue_set_insert m_queue evt))))))))))))"

text \<open>The scan of \<^verbatim>\<open>CircleQueue::erase\<close>: from a position onwards, while the key is not
  below \<^verbatim>\<open>end_y\<close>, erase the first event whose four site references match.\<close>

fun erase_scan :: "real option \<Rightarrow> Intersection \<Rightarrow> Intersection \<Rightarrow> CircleEvent list \<Rightarrow> CircleEvent list" where
  "erase_scan end_y li ri [] = []"
| "erase_scan end_y li ri (e # es) =
     (if (case end_y of None \<Rightarrow> True | Some k \<Rightarrow> \<not> event_key e < k) then
        (if pt_left li = pt_left (left_int e) \<and> pt_right li = pt_right (left_int e)
            \<and> pt_left ri = pt_left (right_int e) \<and> pt_right ri = pt_right (right_int e)
         then es
         else e # erase_scan end_y li ri es)
      else e # es)"

text \<open>\<^verbatim>\<open>CircleQueue::erase\<close>. With a non-finite key (\<open>None\<close>) every comparison against it
  is false, so the scan starts at \<^verbatim>\<open>begin()\<close> and never stops early.\<close>

definition CircleQueue_erase ::
  "Point list \<Rightarrow> Intersection \<Rightarrow> Intersection \<Rightarrow> CircleEvent list \<Rightarrow> error + CircleEvent list" where
  "CircleQueue_erase pts li ri m_queue =
     ebind (assert (pt_right li \<noteq> None)) (\<lambda>_.
       if pt_left li = None \<or> pt_right ri = None then Inr m_queue
       else
         ebind (deref pts (pt_left li)) (\<lambda>ptA.
         ebind (deref pts (pt_right li)) (\<lambda>ptB.
         ebind (deref pts (pt_right ri)) (\<lambda>ptC.
           case solveCircle ptA ptB ptC of
             None \<Rightarrow> Inr (erase_scan None li ri m_queue)
           | Some c \<Rightarrow>
               (let end_y = Y (center c) - radius c;
                    i = queue_lower_bound m_queue end_y
                in Inr (take i m_queue @ erase_scan (Some end_y) li ri (drop i m_queue)))))))"

subsection \<open>State of the engine and the output graph\<close>

text \<open>The \<^verbatim>\<open>Node\<close> and \<^verbatim>\<open>Edge\<close> objects live behind shared pointers. A \<^verbatim>\<open>Node::Ptr\<close> is
  \<open>None\<close> for a null pointer and \<open>Some n\<close> for the \<open>n\<close>-th node created, which is stored
  at index \<open>n\<close> of \<open>node_heap\<close>; an \<^verbatim>\<open>Edge::Ptr\<close> is the index of the edge in \<^verbatim>\<open>m_edges\<close>.
  The coordinates of a node are \<open>None\<close> when the source stores a non-finite value.\<close>

record Node =
  node_x :: "real option"
  node_y :: "real option"
  node_parents :: "nat set"
  node_edges :: "nat set"
  node_neighbors :: "nat set"

record Edge =
  edge_parents :: "nat set"
  edge_nodes :: "nat \<times> nat"
  edge_neighbors :: "nat set"

type_synonym NodeKey = "PointPtr \<times> PointPtr \<times> PointPtr"

record Implementation =
  sweep_y :: real
  m_beach :: "Intersection list"
  m_events :: "CircleEvent list"
  m_min_x :: "real option"
  m_max_x :: "real option"
  m_min_y :: "real option"
  m_max_y :: "real option"
  m_nodes :: "(NodeKey \<times> nat option) list"
  node_heap :: "Node list"
  m_edges :: "Edge list"
  m_points :: "Point list"

text \<open>The constructor. The bounds start at plus or minus infinity (\<open>None\<close>); \<^verbatim>\<open>sweep_y\<close>
  is not initialised in the source and is written before it is first read.\<close>

definition Implementation_init :: Implementation where
  "Implementation_init =
     \<lparr>sweep_y = 0, m_beach = [], m_events = [],
      m_min_x = None, m_max_x = None, m_min_y = None, m_max_y = None,
      m_nodes = [], node_heap = [], m_edges = [], m_points = []\<rparr>"

definition points_match :: "NodeKey \<Rightarrow> NodeKey \<Rightarrow> bool" where
  "points_match lhs rhs =
     (case (lhs, rhs) of ((l0, l1, l2), (r0, r1, r2)) \<Rightarrow>
        (l0 = r0 \<and> l1 = r1 \<and> l2 = r2) \<or>
        (l0 = r0 \<and> l1 = r2 \<and> l2 = r1) \<or>
        (l0 = r1 \<and> l1 = r2 \<and> l2 = r0) \<or>
        (l0 = r1 \<and> l1 = r0 \<and> l2 = r2) \<or>
        (l0 = r2 \<and> l1 = r0 \<and> l2 = r1) \<or>
        (l0 = r2 \<and> l1 = r1 \<and> l2 = r0))"

subsection \<open>Topology builder\<close>

text \<open>The expression \<^verbatim>\<open>(pt - m_points->data()) / sizeof(Point)\<close>: the pointer difference
  is the element index, which is then divided by the size of a point.\<close>

definition parent_index :: "PointPtr \<Rightarrow> error + nat" where
  "parent_index pt =
     (case pt of None \<Rightarrow> Inl NullDereference | Some i \<Rightarrow> Inr (i div sizeof_Point))"

definition getNode3 ::
  "Implementation \<Rightarrow> PointPtr \<Rightarrow> PointPtr \<Rightarrow> PointPtr \<Rightarrow> error + (nat option \<times> Implementation)" where
  "getNode3 st ptA0 ptB0 ptC0 =
     (case orderPoints ptA0 ptB0 ptC0 of (ptA, ptB, ptC) \<Rightarrow>
        (case map_of (m_nodes st) (ptA, ptB, ptC) of
           Some v \<Rightarrow> ebind (assert (v \<noteq> None)) (\<lambda>_. Inr (v, st))
         | None \<Rightarrow>
             ebind (deref (m_points st) ptA) (\<lambda>a.
             ebind (deref (m_points st) ptB) (\<lambda>b.
             ebind (deref (m_points st) ptC) (\<lambda>c.
             ebind (parent_index ptA) (\<lambda>ia.
             ebind (parent_index ptB) (\<lambda>ib.
             ebind (parent_index ptC) (\<lambda>ic.
               let circ = solveCircle a b c;
                   new_node = length (node_heap st);
                   node = \<lparr>node_x = map_option (\<lambda>c. X (center c)) circ,
                           node_y = map_option (\<lambda>c. Y (center c)) circ,
                           node_parents = insert ic (insert ib (insert ia {})),
                           node_edges = {}, node_neighbors = {}\<rparr>
               in Inr (Some new_node,
                       st\<lparr>m_nodes := m_nodes st @ [((ptA, ptB, ptC), Some new_node)],
                          node_heap := node_heap st @ [node]\<rparr>)))))))))"

definition getNode2 ::
  "Implementation \<Rightarrow> PointPtr \<Rightarrow> PointPtr \<Rightarrow> error + (nat option \<times> Implementation)" where
  "getNode2 st ptA0 ptB0 =
     (case (if ptA0 > ptB0 then (ptB0, ptA0) else (ptA0, ptB0)) of (ptA, ptB) \<Rightarrow>
        (case map_of (m_nodes st) (ptA, ptB, None) of
           Some v \<Rightarrow> ebind (assert (v \<noteq> None)) (\<lambda>_. Inr (v, st))
         | None \<Rightarrow>
             ebind (parent_index ptA) (\<lambda>ia.
             ebind (parent_index ptB) (\<lambda>ib.
             ebind (deref (m_points st) ptA) (\<lambda>a.
             ebind (deref (m_points st) ptB) (\<lambda>b.
               let new_node = length (node_heap st);
                   node = \<lparr>node_x = Some ((X a + X b) * 0.5),
                           node_y = Some ((Y a + Y b) * 0.5),
                           node_parents = insert ib (insert ia {}),
                           node_edges = {}, node_neighbors = {}\<rparr>
               in Inr (Some new_node,
                       st\<lparr>m_nodes := m_nodes st @ [((ptA, ptB, None), Some new_node)],
                          node_heap := node_heap st @ [node]\<rparr>)))))))"

text \<open>\<^verbatim>\<open>addEdge\<close> and \<^verbatim>\<open>addTriplet\<close> are called with the non-null pointers that
  \<^verbatim>\<open>processEvent\<close> has asserted; they take the indices of the nodes.\<close>

definition addEdge :: "Implementation \<Rightarrow> nat \<Rightarrow> nat \<Rightarrow> nat \<times> Implementation" where
  "addEdge st nodeA nodeB =
     (let common = node_parents (node_heap st ! nodeA) \<inter> node_parents (node_heap st ! nodeB);
          out = \<lparr>edge_parents = common, edge_nodes = (nodeA, nodeB), edge_neighbors = {}\<rparr>
      in (length (m_edges st), st\<lparr>m_edges := m_edges st @ [out]\<rparr>))"

definition node_update :: "nat \<Rightarrow> (Node \<Rightarrow> Node) \<Rightarrow> Implementation \<Rightarrow> Implementation" where
  "node_update n f st = st\<lparr>node_heap := (node_heap st)[n := f (node_heap st ! n)]\<rparr>"

definition add_node_edge :: "nat \<Rightarrow> Node \<Rightarrow> Node" where
  "add_node_edge e n = n\<lparr>node_edges := insert e (node_edges n)\<rparr>"

definition add_node_neighbor :: "nat \<Rightarrow> Node \<Rightarrow> Node" where
  "add_node_neighbor m n = n\<lparr>node_neighbors := insert m (node_neighbors n)\<rparr>"

definition addTriplet :: "Implementation \<Rightarrow> nat \<Rightarrow> nat \<Rightarrow> nat \<Rightarrow> nat \<Rightarrow> Implementation" where
  "addTriplet st0 cen nodeA nodeB nodeC =
     (case addEdge st0 nodeA cen of (edgeA, st1) \<Rightarrow>
      case addEdge st1 nodeB cen of (edgeB, st2) \<Rightarrow>
      case addEdge st2 nodeC cen of (edgeC, st3) \<Rightarrow>
        (node_update cen (add_node_neighbor nodeC)
        (node_update cen (add_node_neighbor nodeB)
        (node_update cen (add_node_neighbor nodeA)
        (node_update nodeC (add_node_neighbor cen)
        (node_update nodeB (add_node_neighbor cen)
        (node_update nodeA (add_node_neighbor cen)
        (node_update cen (add_node_edge edgeC)
        (node_update cen (add_node_edge edgeB)
        (node_update cen (add_node_edge edgeA)
        (node_update nodeC (add_node_edge edgeC)
        (node_update nodeB (add_node_edge edgeB)
        (node_update nodeA (add_node_edge edgeA) st3)))))))))))))"

text \<open>The loop \<^verbatim>\<open>for(const auto& tup_node: m_nodes) assert(tup_node.second != nullptr)\<close>.\<close>

definition assert_nodes :: "Implementation \<Rightarrow> error + unit" where
  "assert_nodes st = assert (list_all (\<lambda>kv. snd kv \<noteq> None) (m_nodes st))"

subsection \<open>Circle events\<close>

text \<open>The check that opens \<^verbatim>\<open>processEvent\<close>: every beach entry is less than its
  successor, or \<^verbatim>\<open>-1\<close> is thrown.\<close>

fun beach_order_check ::
  "(Intersection \<Rightarrow> Intersection \<Rightarrow> error + bool) \<Rightarrow> Intersection list \<Rightarrow> error + unit" where
  "beach_order_check cmp (e1 # e2 # es) =
     ebind (cmp e1 e2) (\<lambda>b. if \<not> b then Inl Thrown else beach_order_check cmp (e2 # es))"
| "beach_order_check cmp es = Inr ()"

definition in_range :: "nat \<Rightarrow> 'a list \<Rightarrow> error + unit" where
  "in_range i xs = (if i < length xs then Inr () else Inl OutOfRange)"

text \<open>The end of \<^verbatim>\<open>processEvent\<close>: the signs of the circumcentre against the three
  sides of the triangle decide which vertex the three new edges meet in. The arguments
  are the interned vertices, which the source has asserted to be non-null.\<close>

definition connect_event ::
  "Implementation \<Rightarrow> CircleEvent \<Rightarrow> nat \<Rightarrow> nat \<Rightarrow> nat \<Rightarrow> nat \<Rightarrow> error + Implementation" where
  "connect_event st event nodeCenter nodeAB nodeBC nodeCA =
     (let ptA = pt_left (left_int event);
          ptB = pt_right (left_int event);
          ptC = pt_right (right_int event)
      in
      ebind (deref (m_points st) ptA) (\<lambda>a.
      ebind (deref (m_points st) ptB) (\<lambda>b.
      ebind (deref (m_points st) ptC) (\<lambda>c.
        let distAB = perp (center (circle event)) a b;
            distBC = perp (center (circle event)) b c;
            distCA = perp (center (circle event)) c a
        in
        if (distAB \<le> 0 \<and> distBC \<le> 0 \<and> distCA \<le> 0)
            \<or> (distAB \<ge> 0 \<and> distBC \<ge> 0 \<and> distCA \<ge> 0) then
          Inr (addTriplet st nodeCenter nodeAB nodeBC nodeCA)
        else if (distBC \<le> 0 \<and> (distCA \<ge> 0 \<and> distAB \<ge> 0))
            \<or> (distBC \<ge> 0 \<and> (distCA \<le> 0 \<and> distAB \<le> 0)) then
          Inr (addTriplet st nodeBC nodeCenter nodeCA nodeAB)
        else if (distCA \<le> 0 \<and> (distAB \<ge> 0 \<and> distBC \<ge> 0))
            \<or> (distCA \<ge> 0 \<and> (distAB \<le> 0 \<and> distBC \<le> 0)) then
          Inr (addTriplet st nodeCA nodeCenter nodeAB nodeBC)
        else
          Inr (addTriplet st nodeAB nodeCenter nodeBC nodeCA)))))"

text \<open>The second half of \<^verbatim>\<open>processEvent\<close>: the vertices of the event are interned and
  connected.\<close>

definition processEvent_emit ::
  "Implementation \<Rightarrow> CircleEvent \<Rightarrow> error + Implementation" where
  "processEvent_emit st0 event =
     (let ptA = pt_left (left_int event);
          ptB = pt_right (left_int event);
          ptC = pt_right (right_int event)
      in
      ebind (assert_nodes st0) (\<lambda>_.
      ebind (getNode3 st0 ptA ptB ptC) (\<lambda>(nodeCenter, st1).
      ebind (getNode2 st1 ptA ptB) (\<lambda>(nodeAB, st2).
      ebind (getNode2 st2 ptB ptC) (\<lambda>(nodeBC, st3).
      ebind (getNode2 st3 ptA ptC) (\<lambda>(nodeCA, st).
        case (nodeCenter, nodeAB, nodeBC, nodeCA) of
          (Some nCenter, Some nAB, Some nBC, Some nCA) \<Rightarrow>
            ebind (assert_nodes st) (\<lambda>_. connect_event st event nCenter nAB nBC nCA)
        | _ \<Rightarrow> Inl AssertionFailed))))))"

text \<open>The first half of \<^verbatim>\<open>processEvent\<close>: the two breakpoints of the event are looked up
  in the beach line and replaced by one; the events of the neighbours are updated.\<close>

definition processEvent_beach ::
  "Implementation \<Rightarrow> CircleEvent \<Rightarrow> error + Implementation" where
  "processEvent_beach st event =
     (let pts = m_points st;
          beach = m_beach st;
          cmp = BeachCompare pts (sweep_y st)
      in
      ebind (assert (pt_right (left_int event) = pt_left (right_int event))) (\<lambda>_.
      ebind (beach_order_check cmp beach) (\<lambda>_.
      ebind (beach_find cmp beach (left_int event)) (\<lambda>it.
      ebind (assert (it \<noteq> 0)) (\<lambda>_.
      ebind (assert (it \<noteq> length beach)) (\<lambda>_.
      ebind (deref pts (pt_left (beach ! it))) (\<lambda>_.
      ebind (deref pts (pt_right (beach ! it))) (\<lambda>_.
      let left_neighbor = beach ! (it - 1);
          left_it = it
      in
      ebind (assert (pt_right (beach ! left_it) = pt_right (left_int event))) (\<lambda>_.
      ebind (assert (pt_left (beach ! left_it) = pt_left (left_int event))) (\<lambda>_.
      let right_it = it + 1 in
      ebind (in_range right_it beach) (\<lambda>_.
      ebind (assert (pt_right (beach ! right_it) = pt_right (right_int event))) (\<lambda>_.
      ebind (assert (pt_left (beach ! right_it) = pt_left (right_int event))) (\<lambda>_.
      ebind (deref pts (pt_left (beach ! right_it))) (\<lambda>_.
      ebind (deref pts (pt_right (beach ! right_it))) (\<lambda>_.
      ebind (in_range (right_it + 1) beach) (\<lambda>_.
      let right_neighbor = beach ! (right_it + 1) in
      ebind (assert (pt_right left_neighbor = pt_left (left_int event))) (\<lambda>_.
      ebind (assert (pt_left right_neighbor = pt_right (right_int event))) (\<lambda>_.
      let ptA = pt_left (left_int event);
          ptB = pt_right (left_int event);
          ptC = pt_right (right_int event)
      in
      ebind (CircleQueue_erase pts left_neighbor (left_int event) (m_events st)) (\<lambda>q1.
      ebind (CircleQueue_erase pts (right_int event) right_neighbor q1) (\<lambda>q2.
      let beach2 = erase_at left_it (erase_at right_it beach);
          sweep = Y (center (circle event)) - radius (circle event)
      in
      ebind (beach_emplace (BeachCompare pts sweep) beach2
               \<lparr>pt_left = pt_left (left_int event), pt_right = pt_right (right_int event)\<rparr>)
        (\<lambda>(beach3, it_new, success).
      ebind (assert success) (\<lambda>_.
      let new = beach3 ! it_new in
      ebind (if pt_left left_neighbor \<noteq> None
                \<and> \<not> points_match (pt_left left_neighbor, pt_left new, pt_right new)
                      (ptA, ptB, ptC)
             then CircleQueue_insert pts sweep left_neighbor new q2 else Inr q2) (\<lambda>q3.
      ebind (if pt_right right_neighbor \<noteq> None
                \<and> \<not> points_match (pt_left new, pt_right new, pt_right right_neighbor)
                      (ptA, ptB, ptC)
             then CircleQueue_insert pts sweep new right_neighbor q3 else Inr q3) (\<lambda>q4.
        Inr (st\<lparr>sweep_y := sweep, m_beach := beach3, m_events := q4\<rparr>)
      ))))))))))))))))))))))))"

definition processEvent :: "Implementation \<Rightarrow> CircleEvent \<Rightarrow> error + Implementation" where
  "processEvent st event =
     ebind (processEvent_beach st event) (\<lambda>st1. processEvent_emit st1 event)"

subsection \<open>Site events\<close>

text \<open>\<^verbatim>\<open>processPoint\<close> for the site \<^verbatim>\<open>points[i]\<close>, whose address is \<open>Some i\<close>.\<close>

definition processPoint :: "Implementation \<Rightarrow> nat \<Rightarrow> error + Implementation" where
  "processPoint st0 i =
     (let pts = m_points st0;
          st = st0\<lparr>sweep_y := Y (pts ! i)\<rparr>;
          cmp = BeachCompare pts (sweep_y st);
          dummy = \<lparr>pt_left = Some i, pt_right = Some i\<rparr>
      in
      if m_beach st = [] then
        ebind (beach_emplace cmp (m_beach st) \<lparr>pt_left = None, pt_right = Some i\<rparr>)
          (\<lambda>(beach1, _, _).
        ebind (beach_emplace cmp beach1 \<lparr>pt_left = Some i, pt_right = None\<rparr>)
          (\<lambda>(beach2, _, _).
          Inr (st\<lparr>m_beach := beach2\<rparr>)))
      else
        ebind (beach_lower_bound cmp (m_beach st) dummy) (\<lambda>pos.
        ebind (in_range pos (m_beach st)) (\<lambda>_.
        ebind (if pt_left (m_beach st ! pos) \<noteq> None
               then deref pts (pt_left (m_beach st ! pos)) else Inr (pts ! i)) (\<lambda>_.
        ebind (if pt_right (m_beach st ! pos) \<noteq> None
               then deref pts (pt_right (m_beach st ! pos)) else Inr (pts ! i)) (\<lambda>_.
        ebind (if 0 < pos then Inr () else Inl OutOfRange) (\<lambda>_.
        let it2 = m_beach st ! pos;
            it1 = m_beach st ! (pos - 1);
            ptB = pt_right it1;
            ptD = Some i
        in
        ebind (beach_emplace cmp (m_beach st) \<lparr>pt_left = ptB, pt_right = ptD\<rparr>)
          (\<lambda>(beach1, it_new1, success1).
        ebind (assert success1) (\<lambda>_.
        ebind (if pt_left it1 \<noteq> None
               then CircleQueue_insert pts (sweep_y st) it1 (beach1 ! it_new1) (m_events st)
               else Inr (m_events st)) (\<lambda>q1.
        ebind (beach_emplace cmp beach1 \<lparr>pt_left = ptD, pt_right = ptB\<rparr>)
          (\<lambda>(beach2, it_new2, success2).
        ebind (assert success2) (\<lambda>_.
        ebind (if pt_right it2 \<noteq> None
               then CircleQueue_insert pts (sweep_y st) (beach2 ! it_new2) it2 q1
               else Inr q1) (\<lambda>q2.
        ebind (if pt_left it1 \<noteq> None \<and> pt_right it2 \<noteq> None
               then CircleQueue_erase pts it1 it2 q2 else Inr q2) (\<lambda>q3.
          Inr (st\<lparr>m_beach := beach2, m_events := q3\<rparr>))))))))))))))"

subsection \<open>Sweep driver\<close>

definition min_bound :: "real \<Rightarrow> real option \<Rightarrow> real option" where
  "min_bound v m = (case m of None \<Rightarrow> Some v | Some w \<Rightarrow> Some (min v w))"

definition max_bound :: "real \<Rightarrow> real option \<Rightarrow> real option" where
  "max_bound v m = (case m of None \<Rightarrow> Some v | Some w \<Rightarrow> Some (max v w))"

definition update_bounds :: "Implementation \<Rightarrow> Point \<Rightarrow> Implementation" where
  "update_bounds st pt =
     st\<lparr>m_min_x := min_bound (X pt) (m_min_x st), m_max_x := max_bound (X pt) (m_max_x st),
        m_min_y := min_bound (Y pt) (m_min_y st), m_max_y := max_bound (Y pt) (m_max_y st)\<rparr>"

text \<open>The indices of the sites by decreasing \<open>y\<close>. (\<^verbatim>\<open>std::sort\<close> leaves the order of
  sites of equal \<open>y\<close> open; the sort here keeps them in input order.)\<close>

definition sort_sites :: "Point list \<Rightarrow> nat list" where
  "sort_sites points = sort_key (\<lambda>ii. - Y (points ! ii)) [0..<length points]"

text \<open>Which event one iteration of the main loop processes.\<close>

datatype choice = SiteEvent | CircleEventChoice

definition next_choice :: "Implementation \<Rightarrow> nat list \<Rightarrow> nat \<Rightarrow> choice" where
  "next_choice st ordered ii =
     (if m_events st = [] then SiteEvent
      else if ii = length ordered then CircleEventChoice
      else if Y (m_points st ! (ordered ! ii)) > event_key (last (m_events st)) then SiteEvent
      else CircleEventChoice)"

text \<open>The body of the main loop.\<close>

definition compute_step ::
  "Implementation \<Rightarrow> nat list \<Rightarrow> nat \<Rightarrow> error + (Implementation \<times> nat)" where
  "compute_step st ordered ii =
     (case next_choice st ordered ii of
        SiteEvent \<Rightarrow>
          ebind (processPoint st (ordered ! ii)) (\<lambda>st'.
          ebind (assert_nodes st') (\<lambda>_. Inr (st', ii + 1)))
      | CircleEventChoice \<Rightarrow>
          (let evt = last (m_events st) in
           ebind (processEvent (st\<lparr>m_events := butlast (m_events st)\<rparr>) evt) (\<lambda>st'.
           ebind (assert_nodes st') (\<lambda>_. Inr (st', ii)))))"

partial_function (option) compute_loop ::
  "nat list \<Rightarrow> Implementation \<Rightarrow> nat \<Rightarrow> (error + Implementation) option" where
  "compute_loop ordered st ii =
     (if m_events st \<noteq> [] \<or> ii < length ordered then
        (case compute_step st ordered ii of
           Inl e \<Rightarrow> Some (Inl e)
         | Inr r \<Rightarrow> compute_loop ordered (fst r) (snd r))
      else Some (Inr st))"

text \<open>\<^verbatim>\<open>compute\<close>. The result is \<open>None\<close> if the main loop does not end. The read of
  \<^verbatim>\<open>points[ordered.back()]\<close> before the loop is outside the vector when there is no
  site.\<close>

definition compute :: "Implementation \<Rightarrow> Point list \<Rightarrow> (error + Implementation) option" where
  "compute st0 points =
     (let st = foldl update_bounds (st0\<lparr>m_points := points\<rparr>) points;
          ordered = sort_sites points
      in
      if ordered = [] then Some (Inl OutOfRange)
      else
        (let last_y = Y (points ! last ordered) in
         compute_loop ordered st 0))"

subsection \<open>Concrete inputs used below\<close>

definition isect :: "nat \<Rightarrow> nat \<Rightarrow> Intersection" where
  "isect l r = \<lparr>pt_left = Some l, pt_right = Some r\<rparr>"

text \<open>Three sites on the circle of radius 5 around the origin.\<close>

definition diverging_sites :: "Point list" where
  "diverging_sites = [\<lparr>X = 3, Y = 4\<rparr>, \<lparr>X = - 3, Y = 4\<rparr>, \<lparr>X = - 3, Y = - 4\<rparr>]"

definition right_triangle_sites :: "Point list" where
  "right_triangle_sites = [\<lparr>X = 0, Y = 0\<rparr>, \<lparr>X = 4, Y = 0\<rparr>, \<lparr>X = 0, Y = 3\<rparr>]"

text \<open>An obtuse triangle, its circumcentre \<open>(0,0)\<close> outside of it, and its circle event.\<close>

definition obtuse_sites :: "Point list" where
  "obtuse_sites = [\<lparr>X = - 3, Y = 4\<rparr>, \<lparr>X = 3, Y = 4\<rparr>, \<lparr>X = 4, Y = 3\<rparr>]"

definition obtuse_event :: CircleEvent where
  "obtuse_event = \<lparr>left_int = isect 0 1, right_int = isect 1 2,
                    circle = \<lparr>center = \<lparr>X = 0, Y = 0\<rparr>, radius = 5\<rparr>\<rparr>"

definition obtuse_state :: Implementation where
  "obtuse_state = Implementation_init\<lparr>m_points := obtuse_sites\<rparr>"

text \<open>A beach line that holds the first site only: the breakpoints of \<open>obtuse_event\<close> are
  not in it.\<close>

definition stale_state :: Implementation where
  "stale_state = Implementation_init\<lparr>m_points := obtuse_sites,
      m_beach := [\<lparr>pt_left = None, pt_right = Some 0\<rparr>, \<lparr>pt_left = Some 0, pt_right = None\<rparr>]\<rparr>"

text \<open>A pending circle event of key \<open>-5\<close> and a next site of \<open>y = -5\<close>.\<close>

definition tie_event :: CircleEvent where
  "tie_event = \<lparr>left_int = isect 0 1, right_int = isect 1 2,
                 circle = \<lparr>center = \<lparr>X = 0, Y = 0\<rparr>, radius = 5\<rparr>\<rparr>"

definition tie_state :: Implementation where
  "tie_state = Implementation_init\<lparr>m_points := diverging_sites @ [\<lparr>X = 10, Y = - 5\<rparr>],
      m_events := [tie_event]\<rparr>"

text \<open>Two triples of sites on two circles of radius 5, around \<open>(0,0)\<close> and \<open>(20,0)\<close>.\<close>

definition same_key_sites :: "Point list" where
  "same_key_sites = [\<lparr>X = 3, Y = 4\<rparr>, \<lparr>X = - 3, Y = 4\<rparr>, \<lparr>X = 3, Y = - 4\<rparr>,
                     \<lparr>X = 23, Y = 4\<rparr>, \<lparr>X = 17, Y = 4\<rparr>, \<lparr>X = 23, Y = - 4\<rparr>]"

definition first_event :: CircleEvent where
  "first_event = \<lparr>left_int = isect 0 1, right_int = isect 1 2,
                   circle = \<lparr>center = \<lparr>X = 0, Y = 0\<rparr>, radius = 5\<rparr>\<rparr>"

definition second_event :: CircleEvent where
  "second_event = \<lparr>left_int = isect 3 4, right_int = isect 4 5,
                    circle = \<lparr>center = \<lparr>X = 20, Y = 0\<rparr>, radius = 5\<rparr>\<rparr>"

definition right_triangle_state :: Implementation where
  "right_triangle_state = Implementation_init\<lparr>m_points := right_triangle_sites\<rparr>"

text \<open>Five sites, already in the order of decreasing \<open>y\<close>, for which the beach line loses
  its order.\<close>

definition adj_sites :: "Point list" where
  "adj_sites = [\<lparr>X = (- 17), Y = 25\<rparr>, \<lparr>X = 5, Y = (- 14)\<rparr>, \<lparr>X
      = 9, Y = (- 16)\<rparr>, \<lparr>X = 1, Y = (- 18)\<rparr>, \<lparr>X = 18, Y = (-
      19)\<rparr>]"

text \<open>The circles through three of these sites that the run computes.\<close>

definition c012 :: Circle where
  "c012 = \<lparr>center = \<lparr>X = (2955 / 112), Y = (1331 / 56)\<rparr>, radius = sqrt
      (23628925 / 12544)\<rparr>"

definition c013 :: Circle where
  "c013 = \<lparr>center = \<lparr>X = (- (1707 / 122)), Y = (121 / 122)\<rparr>, radius = sqrt
      (4356865 / 7442)\<rparr>"

definition c312 :: Circle where
  "c312 = \<lparr>center = \<lparr>X = (16 / 3), Y = (- (55 / 3))\<rparr>, radius = sqrt (170 /
      9)\<rparr>"

definition c124 :: Circle where
  "c124 = \<lparr>center = \<lparr>X = 29, Y = 29\<rparr>, radius = sqrt 2425\<rparr>"

definition c410 :: Circle where
  "c410 = \<lparr>center = \<lparr>X = (21561 / 794), Y = (19217 / 794)\<rparr>, radius = sqrt
      (614767085 / 315218)\<rparr>"

text \<open>The circle events that the run stores in the queue.\<close>

definition ev012 :: CircleEvent where
  "ev012 = \<lparr>left_int = isect 0 1, right_int = isect 1 2, circle = c012\<rparr>"

definition ev013 :: CircleEvent where
  "ev013 = \<lparr>left_int = isect 0 1, right_int = isect 1 3, circle = c013\<rparr>"

definition ev312 :: CircleEvent where
  "ev312 = \<lparr>left_int = isect 3 1, right_int = isect 1 2, circle = c312\<rparr>"

definition ev421 :: CircleEvent where
  "ev421 = \<lparr>left_int = isect 4 2, right_int = isect 2 1, circle = c124\<rparr>"

text \<open>The state of the engine before the main loop and after each of the five site
  events, and the beach line after the circle event that follows.\<close>

definition adj_state0 :: Implementation where
  "adj_state0 =
     \<lparr>sweep_y = 0,
      m_beach = [],
      m_events = [],
      m_min_x = Some (- 17), m_max_x = Some 18, m_min_y = Some (- 19), m_max_y = Some 25,
      m_nodes = [], node_heap = [], m_edges = [], m_points = adj_sites\<rparr>"

definition adj_state1 :: Implementation where
  "adj_state1 =
     \<lparr>sweep_y = 25,
      m_beach = [\<lparr>pt_left = None, pt_right = Some 0\<rparr>, \<lparr>pt_left = Some 0,
          pt_right = None\<rparr>],
      m_events = [],
      m_min_x = Some (- 17), m_max_x = Some 18, m_min_y = Some (- 19), m_max_y = Some 25,
      m_nodes = [], node_heap = [], m_edges = [], m_points = adj_sites\<rparr>"

definition adj_state2 :: Implementation where
  "adj_state2 =
     \<lparr>sweep_y = (- 14),
      m_beach = [\<lparr>pt_left = None, pt_right = Some 0\<rparr>, isect 0 1, isect 1 0,
          \<lparr>pt_left = Some 0, pt_right = None\<rparr>],
      m_events = [],
      m_min_x = Some (- 17), m_max_x = Some 18, m_min_y = Some (- 19), m_max_y = Some 25,
      m_nodes = [], node_heap = [], m_edges = [], m_points = adj_sites\<rparr>"

definition adj_state3 :: Implementation where
  "adj_state3 =
     \<lparr>sweep_y = (- 16),
      m_beach = [\<lparr>pt_left = None, pt_right = Some 0\<rparr>, isect 0 1, isect 1 2, isect 2
          1, isect 1 0, \<lparr>pt_left = Some 0, pt_right = None\<rparr>],
      m_events = [ev012],
      m_min_x = Some (- 17), m_max_x = Some 18, m_min_y = Some (- 19), m_max_y = Some 25,
      m_nodes = [], node_heap = [], m_edges = [], m_points = adj_sites\<rparr>"

definition adj_state4 :: Implementation where
  "adj_state4 =
     \<lparr>sweep_y = (- 18),
      m_beach = [\<lparr>pt_left = None, pt_right = Some 0\<rparr>, isect 0 1, isect 1 3, isect 3
          1, isect 1 2, isect 2 1, isect 1 0, \<lparr>pt_left = Some 0, pt_right = None\<rparr>],
      m_events = [ev013, ev312],
      m_min_x = Some (- 17), m_max_x = Some 18, m_min_y = Some (- 19), m_max_y = Some 25,
      m_nodes = [], node_heap = [], m_edges = [], m_points = adj_sites\<rparr>"

definition adj_state5 :: Implementation where
  "adj_state5 =
     \<lparr>sweep_y = (- 19),
      m_beach = [\<lparr>pt_left = None, pt_right = Some 0\<rparr>, isect 0 1, isect 1 3, isect 3
          1, isect 1 2, isect 2 4, isect 4 2, isect 2 1, isect 1 0, \<lparr>pt_left = Some 0,
          pt_right = None\<rparr>],
      m_events = [ev013, ev312, ev421],
      m_min_x = Some (- 17), m_max_x = Some 18, m_min_y = Some (- 19), m_max_y = Some 25,
      m_nodes = [], node_heap = [], m_edges = [], m_points = adj_sites\<rparr>"

definition adj_beach6 :: "Intersection list" where
  "adj_beach6 =
     [\<lparr>pt_left = None, pt_right = Some 0\<rparr>, isect 0 1, isect 1 3, isect 3 1, isect 1 2, isect 2 4,
      isect 1 0, isect 4 1, \<lparr>pt_left = Some 0, pt_right = None\<rparr>]"

subsection \<open>Notions used in the statements\<close>

text \<open>The three sites of a circle event.\<close>

definition event_sites :: "CircleEvent \<Rightarrow> NodeKey" where
  "event_sites e = (pt_left (left_int e), pt_right (left_int e), pt_right (right_int e))"

text \<open>The key under which \<^verbatim>\<open>getNode\<close> stores the vertex of a pair of sites.\<close>

definition pair_key :: "PointPtr \<Rightarrow> PointPtr \<Rightarrow> NodeKey" where
  "pair_key a b = (if a > b then (b, a, None) else (a, b, None))"

text \<open>The end points of the edges that a step has appended to \<^verbatim>\<open>m_edges\<close>.\<close>

definition emitted_edges :: "Implementation \<Rightarrow> Implementation \<Rightarrow> (nat \<times> nat) list" where
  "emitted_edges st st' = map edge_nodes (drop (length (m_edges st)) (m_edges st'))"

text \<open>The first of three signed areas has one strict sign and the other two the opposite
  one.\<close>

definition odd_one_out :: "real \<Rightarrow> real \<Rightarrow> real \<Rightarrow> bool" where
  "odd_one_out d e f = ((d < 0 \<and> 0 < e \<and> 0 < f) \<or> (0 < d \<and> e < 0 \<and> f < 0))"

text \<open>The invariant of the beach line: of two adjacent entries, the right site of the first
  is the left site of the second.\<close>

fun beach_adjacent :: "Intersection list \<Rightarrow> bool" where
  "beach_adjacent (a # b # es) = (pt_right a = pt_left b \<and> beach_adjacent (b # es))"
| "beach_adjacent es = True"

text \<open>The parts of the general branch of \<^verbatim>\<open>getIntersection\<close>: the value of \<^verbatim>\<open>term1\<close>, the
  squared distance of the two sites, and the ordinate of the parabola of a site.\<close>

definition term1 :: "Point \<Rightarrow> Point \<Rightarrow> real \<Rightarrow> real" where
  "term1 p r s = (Y p * X r - X p * Y r + (X p - X r) * s) / (Y p - Y r)"

definition dist2 :: "Point \<Rightarrow> Point \<Rightarrow> real" where
  "dist2 p r = (X p - X r)\<^sup>2 + (Y p - Y r)\<^sup>2"

definition parabola_y :: "Point \<Rightarrow> real \<Rightarrow> real \<Rightarrow> real" where
  "parabola_y p s qx = ((qx - X p)\<^sup>2 + (Y p)\<^sup>2 - s\<^sup>2) / (2 * (Y p - s))"

text \<open>The breakpoint of an entry exists at a sweep position, with its abscissa in an
  interval.\<close>

definition breakpoint_in :: "Point list \<Rightarrow> real \<Rightarrow> Intersection \<Rightarrow> real \<Rightarrow> real \<Rightarrow> bool" where
  "breakpoint_in pts s e lo hi =
     (case getIntersection_inter pts s e of Inl _ \<Rightarrow> False | Inr q \<Rightarrow> lo \<le> X q \<and> X q \<le> hi)"

section \<open>Properties\<close>

subsection \<open>Auxiliary facts\<close>

lemma sqrt_9: "sqrt 9 = 3"
  using real_sqrt_abs [of 3] by simp

lemma sqrt_25: "sqrt 25 = 5"
  using real_sqrt_abs [of 5] by simp

lemma sqrt_36: "sqrt 36 = 6"
  using real_sqrt_abs [of 6] by simp

lemma sqrt_64: "sqrt 64 = 8"
  using real_sqrt_abs [of 8] by simp

lemma epsilon_pos: "0 < epsilon"
  by (simp add: epsilon_def)

lemma ebind_Inr_iff: "ebind m f = Inr r \<longleftrightarrow> (\<exists>v. m = Inr v \<and> f v = Inr r)"
  by (cases m) auto

lemma assert_Inr_iff: "assert b = Inr u \<longleftrightarrow> b"
  by (simp add: assert_def)

lemma in_range_Inr_iff: "in_range i xs = Inr u \<longleftrightarrow> i < length xs"
  by (simp add: in_range_def)

lemmas eval_double =
  double_result_def float_result_def max_double_def max_float_def d_add_def d_sub_def
  d_mul_def d_div_def d_sqrt_def d_sqr_def f_add_def f_mul_def to_float_def

lemmas eval_intersection =
  getIntersection_inter_def getSign_def getIntersection_def assert_def deref_def
  epsilon_def checked_div_def finite_point_def sqr_def Let_def eval_double

subsection \<open>Circle-event generation\<close>

text \<open>
  C1. The claim: in \<^verbatim>\<open>CircleQueue::insert\<close> the positions of both breakpoints, \<open>(A,B)\<close> and
  \<open>(B,C)\<close>, are evaluated at \<open>y = cy - r\<close>, and no event is inserted if either lies
  farther than \<open>r\<close> from the circumcentre.

  The code evaluates the left breakpoint twice. For the sites \<open>A = (3,4)\<close>, \<open>B = (-3,4)\<close>,
  \<open>C = (-3,-4)\<close> (circumcentre \<open>(0,0)\<close>, radius \<open>5\<close>) the right breakpoint \<open>(B,C)\<close> is at
  \<open>(-6,0)\<close> when the sweep is at \<open>-5\<close>, at distance \<open>6 > 5\<close> from the centre, and the
  event is inserted all the same.
\<close>

theorem insert_ignores_right_breakpoint:
  "solveCircle (diverging_sites ! 0) (diverging_sites ! 1) (diverging_sites ! 2)
     = Some \<lparr>center = \<lparr>X = 0, Y = 0\<rparr>, radius = 5\<rparr>
   \<and> getIntersection_inter diverging_sites (- 5) (isect 1 2) = Inr \<lparr>X = - 6, Y = 0\<rparr>
   \<and> distance2d \<lparr>X = - 6, Y = 0\<rparr> \<lparr>X = 0, Y = 0\<rparr> > 5
   \<and> CircleQueue_insert diverging_sites (- 4) (isect 0 1) (isect 1 2) []
     = Inr [\<lparr>left_int = isect 0 1, right_int = isect 1 2,
             circle = \<lparr>center = \<lparr>X = 0, Y = 0\<rparr>, radius = 5\<rparr>\<rparr>]"
proof -
  have circ: "solveCircle \<lparr>X = 3, Y = 4\<rparr> \<lparr>X = - 3, Y = 4\<rparr> \<lparr>X = - 3, Y = - 4\<rparr>
                = Some \<lparr>center = \<lparr>X = 0, Y = 0\<rparr>, radius = 5\<rparr>"
    by (simp add: solveCircle_def checked_div_def sqr_def sqrt_25)
  have right: "getIntersection_inter diverging_sites (- 5) (isect 1 2) = Inr \<lparr>X = - 6, Y = 0\<rparr>"
    by (simp add: eval_intersection isect_def diverging_sites_def sqrt_64 sqrt_9)
  have far: "distance2d \<lparr>X = - 6, Y = 0\<rparr> \<lparr>X = 0, Y = 0\<rparr> > 5"
    by (simp add: distance2d_def sqrt_36)
  have ins: "CircleQueue_insert diverging_sites (- 4) (isect 0 1) (isect 1 2) []
               = Inr [\<lparr>left_int = isect 0 1, right_int = isect 1 2,
                       circle = \<lparr>center = \<lparr>X = 0, Y = 0\<rparr>, radius = 5\<rparr>\<rparr>]"
    by (simp add: CircleQueue_insert_def isect_def diverging_sites_def circ distance2d_def
        queue_set_insert_def eval_intersection)
  from circ right far ins show ?thesis
    by (simp add: diverging_sites_def)
qed

subsection \<open>Parent indices of a vertex\<close>

text \<open>
  C2. The claim: each element of a vertex's parent set is the position of the site in the
  input sequence, so the triple vertex of the sites at positions \<open>0, 1, 2\<close> has the parent
  set \<open>{0, 1, 2}\<close>.

  The code divides the element index by \<^verbatim>\<open>sizeof(Point)\<close>: for the three sites at positions
  \<open>0\<close>, \<open>1\<close> and \<open>2\<close> the triple vertex and a pair vertex both get the parent set \<open>{0}\<close>.
\<close>

theorem getNode_parents_divided:
  "(case getNode3 (Implementation_init\<lparr>m_points := right_triangle_sites\<rparr>)
           (Some 0) (Some 1) (Some 2) of
      Inr (Some n, st) \<Rightarrow> node_parents (node_heap st ! n) = {0}
    | _ \<Rightarrow> False)
   \<and> (case getNode2 (Implementation_init\<lparr>m_points := right_triangle_sites\<rparr>)
           (Some 1) (Some 2) of
      Inr (Some n, st) \<Rightarrow> node_parents (node_heap st ! n) = {0}
    | _ \<Rightarrow> False)"
  by (simp add: getNode3_def getNode2_def orderPoints_def Implementation_init_def
      right_triangle_sites_def deref_def parent_index_def sizeof_Point_def solveCircle_def
      checked_div_def sqr_def assert_def)

subsection \<open>Equal-height branch of the parabola intersection\<close>

lemma abs_add_le: "\<bar>x\<bar> \<le> a \<Longrightarrow> \<bar>y\<bar> \<le> b \<Longrightarrow> \<bar>x + y\<bar> \<le> a + (b::real)"
  by linarith

lemma abs_diff_le: "\<bar>x\<bar> \<le> a \<Longrightarrow> \<bar>y\<bar> \<le> b \<Longrightarrow> \<bar>x - y\<bar> \<le> a + (b::real)"
  by linarith

lemma abs_mult_le: "\<bar>x\<bar> \<le> a \<Longrightarrow> \<bar>y\<bar> \<le> b \<Longrightarrow> \<bar>x * y\<bar> \<le> a * (b::real)"
  unfolding abs_mult by (rule mult_mono) simp_all

lemma abs_divide_le:
  assumes "\<bar>x\<bar> \<le> a" and "0 < e" and "e \<le> \<bar>y\<bar>"
  shows "\<bar>x / y\<bar> \<le> a / (e::real)"
proof -
  have "\<bar>x / y\<bar> = \<bar>x\<bar> / \<bar>y\<bar>" by (rule abs_divide)
  also have "\<dots> \<le> a / \<bar>y\<bar>" using assms(1) by (rule divide_right_mono) simp
  also have "\<dots> \<le> a / e"
  proof (rule divide_left_mono)
    show "e \<le> \<bar>y\<bar>" by (rule assms(3))
    show "0 \<le> a" using assms(1) by linarith
    show "0 < \<bar>y\<bar> * e" using assms(2,3) by simp
  qed
  finally show ?thesis .
qed

lemma double_result_Some: "\<bar>v\<bar> \<le> max_double \<Longrightarrow> double_result v = Some v"
  by (simp add: double_result_def)

text \<open>
  C8. The claim: for every two sites \<open>p\<close> and \<open>r\<close> with \<open>|p.y - r.y| < \<epsilon>\<close>, neither within \<open>\<epsilon>\<close>
  of the sweep line, \<^verbatim>\<open>getIntersection\<close> returns a point whose \<open>x\<close> is \<open>(p.x + r.x) / 2\<close>.

  Counterexample: for \<open>p = (2^532, 1)\<close>, \<open>r = (-2^532, 1)\<close> and the sweep at \<open>0\<close> the square
  of \<open>p.x\<close> is beyond the largest \<^verbatim>\<open>double\<close>, \<open>q.y\<close> is not finite, and the call fails the
  assert on it instead of returning.
\<close>

theorem equal_height_overflow_counterexample:
  "\<bar>Y \<lparr>X = 2 ^ 532, Y = 1\<rparr> - Y \<lparr>X = - (2 ^ 532), Y = 1\<rparr>\<bar> < epsilon
   \<and> \<not> \<bar>Y \<lparr>X = 2 ^ 532, Y = 1\<rparr> - 0\<bar> < epsilon
   \<and> \<not> \<bar>Y \<lparr>X = - (2 ^ 532), Y = 1\<rparr> - 0\<bar> < epsilon
   \<and> \<bar>2 ^ 532\<bar> \<le> max_double \<and> \<bar>0\<bar> \<le> max_float
   \<and> getIntersection 0 \<lparr>X = 2 ^ 532, Y = 1\<rparr> \<lparr>X = - (2 ^ 532), Y = 1\<rparr> 1 = Inl AssertionFailed"
  by (simp add: eval_intersection)

text \<open>
  C8, as the code has it: for two sites \<open>p\<close> and \<open>r\<close> with \<open>|p.y - r.y| < \<epsilon>\<close>, neither within
  \<open>\<epsilon>\<close> of the sweep line, with \<open>p.x\<close>, \<open>p.y\<close> and \<open>r.x\<close> of magnitude at most \<open>10^150\<close> and
  the sweep position a finite \<^verbatim>\<open>float\<close>, \<^verbatim>\<open>getIntersection\<close> returns a point, and its \<open>x\<close> is
  \<open>(p.x + r.x) / 2\<close>.
\<close>

theorem getIntersection_equal_height:
  assumes "\<bar>Y p - Y r\<bar> < epsilon"
    and "\<not> \<bar>Y p - sweep\<bar> < epsilon"
    and "\<not> \<bar>Y r - sweep\<bar> < epsilon"
    and px: "\<bar>X p\<bar> \<le> 10 ^ 150" and py: "\<bar>Y p\<bar> \<le> 10 ^ 150"
    and rx: "\<bar>X r\<bar> \<le> 10 ^ 150" and sw: "\<bar>sweep\<bar> \<le> max_float"
  shows "\<exists>q. getIntersection sweep p r sign = Inr q \<and> X q = (X p + X r) / 2"
proof -
  define B :: real where "B = 10 ^ 150"
  define C :: real where "C = B * B"
  have m1: "2 * B \<le> max_double" by (simp add: B_def max_double_def)
  have m2: "6 * C \<le> max_double" by (simp add: C_def B_def max_double_def)
  have m3: "3 * C / epsilon \<le> max_double"
    by (simp add: C_def B_def max_double_def epsilon_def)
  have B0: "0 \<le> B" by (simp add: B_def)
  have BB0: "0 \<le> C" using B0 by (simp add: C_def)
  have "max_float \<le> B" by (simp add: B_def max_float_def)
  with sw have sw': "\<bar>sweep\<bar> \<le> B" by linarith
  note b = px[folded B_def] py[folded B_def] rx[folded B_def] sw'
  have two: "\<bar>2::real\<bar> \<le> 2" and half: "\<bar>1 / 2 :: real\<bar> \<le> 1 / 2" by simp_all
  define qx where "qx = (X p + X r) * (1 / 2)"
  have s1: "\<bar>X p + X r\<bar> \<le> B + B" using b(1) b(3) by (rule abs_add_le)
  have q: "\<bar>qx\<bar> \<le> B" unfolding qx_def using abs_mult_le[OF s1 half] by simp
  have a1: "\<bar>X p * X p\<bar> \<le> C" unfolding C_def using b(1) b(1) by (rule abs_mult_le)
  have a2: "\<bar>Y p * Y p\<bar> \<le> C" unfolding C_def using b(2) b(2) by (rule abs_mult_le)
  have a3: "\<bar>X p * X p + Y p * Y p\<bar> \<le> 2 * C" using abs_add_le[OF a1 a2] by simp
  have a4: "\<bar>2 * X p\<bar> \<le> 2 * B" using two b(1) by (rule abs_mult_le)
  have a5: "\<bar>2 * X p * qx\<bar> \<le> 2 * C" using abs_mult_le[OF a4 q] by (simp add: C_def)
  have a6: "\<bar>X p * X p + Y p * Y p - 2 * X p * qx\<bar> \<le> 4 * C"
    using abs_diff_le[OF a3 a5] by simp
  have a7: "\<bar>qx * qx\<bar> \<le> C" unfolding C_def using q q by (rule abs_mult_le)
  have a8: "\<bar>X p * X p + Y p * Y p - 2 * X p * qx + qx * qx\<bar> \<le> 5 * C"
    using abs_add_le[OF a6 a7] by simp
  have a9: "\<bar>sweep * sweep\<bar> \<le> C" unfolding C_def using b(4) b(4) by (rule abs_mult_le)
  have a10: "\<bar>X p * X p + Y p * Y p - 2 * X p * qx + qx * qx - sweep * sweep\<bar> \<le> 6 * C"
    using abs_diff_le[OF a8 a9] by simp
  have a11: "\<bar>1 / 2 * (X p * X p + Y p * Y p - 2 * X p * qx + qx * qx - sweep * sweep)\<bar>
             \<le> 3 * C"
    using abs_mult_le[OF half a10] by simp
  have d: "\<bar>Y p - sweep\<bar> \<le> B + B" using b(2) b(4) by (rule abs_diff_le)
  have de: "epsilon \<le> \<bar>Y p - sweep\<bar>" using assms(2) by simp
  have dn: "Y p - sweep \<noteq> 0" using de epsilon_pos by linarith
  have a12: "\<bar>1 / 2 * (X p * X p + Y p * Y p - 2 * X p * qx + qx * qx - sweep * sweep)
               / (Y p - sweep)\<bar>
             \<le> 3 * C / epsilon"
    using a11 epsilon_pos de by (rule abs_divide_le)
  have n3: "\<not> epsilon < \<bar>Y p - Y r\<bar>" using assms(1) by linarith
  have r1: "double_result (X p + X r) = Some (X p + X r)"
    using s1 m1 by (intro double_result_Some) linarith
  have r2: "double_result ((X p + X r) * 0.5) = Some qx"
    using q m1 B0 by (simp add: qx_def double_result_def)
  have r3: "double_result (X p * X p) = Some (X p * X p)"
    using a1 m2 BB0 by (intro double_result_Some) linarith
  have r4: "double_result (Y p * Y p) = Some (Y p * Y p)"
    using a2 m2 BB0 by (intro double_result_Some) linarith
  have r5: "double_result (X p * X p + Y p * Y p) = Some (X p * X p + Y p * Y p)"
    using a3 m2 BB0 by (intro double_result_Some) linarith
  have r6: "double_result (2 * X p) = Some (2 * X p)"
    using a4 m1 by (intro double_result_Some) linarith
  have r7: "double_result (2 * X p * qx) = Some (2 * X p * qx)"
    using a5 m2 BB0 by (intro double_result_Some) linarith
  have r8: "double_result (X p * X p + Y p * Y p - 2 * X p * qx)
              = Some (X p * X p + Y p * Y p - 2 * X p * qx)"
    using a6 m2 BB0 by (intro double_result_Some) linarith
  have r9: "double_result (qx * qx) = Some (qx * qx)"
    using a7 m2 BB0 by (intro double_result_Some) linarith
  have r10: "double_result (X p * X p + Y p * Y p - 2 * X p * qx + qx * qx)
              = Some (X p * X p + Y p * Y p - 2 * X p * qx + qx * qx)"
    using a8 m2 BB0 by (intro double_result_Some) linarith
  have r11: "double_result (sweep * sweep) = Some (sweep * sweep)"
    using a9 m2 BB0 by (intro double_result_Some) linarith
  have r12: "double_result (X p * X p + Y p * Y p - 2 * X p * qx + qx * qx - sweep * sweep)
              = Some (X p * X p + Y p * Y p - 2 * X p * qx + qx * qx - sweep * sweep)"
    using a10 m2 by (intro double_result_Some) linarith
  have r13: "double_result (0.5 * (X p * X p + Y p * Y p - 2 * X p * qx + qx * qx - sweep * sweep))
              = Some (0.5 * (X p * X p + Y p * Y p - 2 * X p * qx + qx * qx - sweep * sweep))"
    using a11 m2 BB0 by (intro double_result_Some) simp
  have r14: "double_result (Y p - sweep) = Some (Y p - sweep)"
    using d m1 by (intro double_result_Some) linarith
  have r15: "double_result (0.5 * (X p * X p + Y p * Y p - 2 * X p * qx + qx * qx - sweep * sweep)
                            / (Y p - sweep))
              = Some (0.5 * (X p * X p + Y p * Y p - 2 * X p * qx + qx * qx - sweep * sweep)
                            / (Y p - sweep))"
    using a12 m3 by (intro double_result_Some) simp
  have "getIntersection sweep p r sign
          = Inr \<lparr>X = qx, Y = 0.5 * (X p * X p + Y p * Y p - 2 * X p * qx + qx * qx - sweep * sweep)
                            / (Y p - sweep)\<rparr>"
    unfolding getIntersection_def Let_def d_sqr_def d_add_def d_sub_def d_mul_def d_div_def
    using assms(2,3) n3 dn
    by (simp only: if_False if_True prod.case option.case r1 r2 r3 r4 r5 r6 r7 r8 r9
        r10 r11 r12 r13 r14 r15 finite_point_def simp_thms)
  thus ?thesis by (simp add: qx_def)
qed

theorem getIntersection_equal_height_witness:
  "\<bar>Y \<lparr>X = 0, Y = 1\<rparr> - Y \<lparr>X = 2, Y = 1\<rparr>\<bar> < epsilon
   \<and> \<not> \<bar>Y \<lparr>X = 0, Y = 1\<rparr> - 0\<bar> < epsilon
   \<and> \<not> \<bar>Y \<lparr>X = 2, Y = 1\<rparr> - 0\<bar> < epsilon
   \<and> (\<exists>q. getIntersection 0 \<lparr>X = 0, Y = 1\<rparr> \<lparr>X = 2, Y = 1\<rparr> 1 = Inr q \<and> X q = 1)"
  using getIntersection_equal_height [of "\<lparr>X = 0, Y = 1\<rparr>" "\<lparr>X = 2, Y = 1\<rparr>" 0 1]
  by (simp add: epsilon_def max_float_def)

subsection \<open>The empty input\<close>

text \<open>
  C6. The claim: for the empty input, \<^verbatim>\<open>compute\<close> ends normally with an empty diagram.

  Before its main loop the code reads \<^verbatim>\<open>points[ordered.back()]\<close>; with no site
  \<^verbatim>\<open>ordered\<close> is empty and the read is outside the vector.
\<close>

theorem compute_empty_out_of_range:
  "compute Implementation_init [] = Some (Inl OutOfRange)"
  by (simp add: compute_def sort_sites_def)

subsection \<open>Edges emitted when the circumcentre is outside the triangle\<close>

lemma map_of_append_Some: "map_of xs k = Some v \<Longrightarrow> map_of (xs @ ys) k = Some v"
  by (simp add: map_add_Some_iff)

lemma orderPoints_swap12: "orderPoints b a c = orderPoints a b c"
  by (auto simp: orderPoints_def)

lemma orderPoints_swap23: "orderPoints a c b = orderPoints a b c"
  by (auto simp: orderPoints_def)

lemma orderPoints_perm:
  assumes "(a', b', c') \<in> {(a, b, c), (a, c, b), (b, a, c), (b, c, a), (c, a, b), (c, b, a)}"
  shows "orderPoints a' b' c' = orderPoints a b c"
proof -
  have acb: "orderPoints a c b = orderPoints a b c"
    by (rule orderPoints_swap23)
  have bac: "orderPoints b a c = orderPoints a b c"
    by (rule orderPoints_swap12)
  have "orderPoints b c a = orderPoints b a c"
    by (rule orderPoints_swap23)
  with bac have bca: "orderPoints b c a = orderPoints a b c"
    by simp
  have "orderPoints c a b = orderPoints a c b"
    by (rule orderPoints_swap12)
  with acb have cab: "orderPoints c a b = orderPoints a b c"
    by simp
  have "orderPoints c b a = orderPoints b c a"
    by (rule orderPoints_swap12)
  with bca have cba: "orderPoints c b a = orderPoints a b c"
    by simp
  from assms consider "(a', b', c') = (a, b, c)" | "(a', b', c') = (a, c, b)"
    | "(a', b', c') = (b, a, c)" | "(a', b', c') = (b, c, a)"
    | "(a', b', c') = (c, a, b)" | "(a', b', c') = (c, b, a)"
    by blast
  then show ?thesis
    by cases (simp_all add: acb bac bca cab cba)
qed

lemma pair_key_swap: "pair_key b a = pair_key a b"
  by (auto simp: pair_key_def)

text \<open>What a successful \<^verbatim>\<open>getNode\<close> leaves behind: the key is mapped to the returned,
  non-null node; the map has only grown at its end; no null was added.\<close>

lemma getNode3_result:
  assumes "getNode3 st a b c = Inr (n, st1)"
  shows "map_of (m_nodes st1) (orderPoints a b c) = Some n \<and> n \<noteq> None
         \<and> (\<exists>ys. m_nodes st1 = m_nodes st @ ys)
         \<and> (assert_nodes st = Inr () \<longrightarrow> assert_nodes st1 = Inr ())"
proof (cases "orderPoints a b c")
  case (fields x y z)
  show ?thesis
  proof (cases "map_of (m_nodes st) (x, y, z)")
    case None
    with assms fields show ?thesis
      by (auto simp: getNode3_def ebind_Inr_iff Let_def map_add_def assert_nodes_def assert_def
          split: if_splits)
  next
    case (Some v)
    with assms fields show ?thesis
      by (auto simp: getNode3_def ebind_Inr_iff assert_Inr_iff)
  qed
qed

lemma getNode3_hit:
  assumes "map_of (m_nodes st) (orderPoints a b c) = Some n" and "n \<noteq> None"
  shows "getNode3 st a b c = Inr (n, st)"
  using assms by (cases "orderPoints a b c") (simp add: getNode3_def assert_def)

lemma getNode2_result:
  assumes "getNode2 st a b = Inr (n, st1)"
  shows "map_of (m_nodes st1) (pair_key a b) = Some n \<and> n \<noteq> None
         \<and> (\<exists>ys. m_nodes st1 = m_nodes st @ ys)
         \<and> (assert_nodes st = Inr () \<longrightarrow> assert_nodes st1 = Inr ())"
proof (cases "map_of (m_nodes st) (pair_key a b)")
  case None
  with assms show ?thesis
    by (auto simp: getNode2_def pair_key_def ebind_Inr_iff Let_def map_add_def assert_nodes_def
        assert_def split: if_splits)
next
  case (Some v)
  with assms show ?thesis
    by (auto simp: getNode2_def pair_key_def ebind_Inr_iff assert_Inr_iff split: if_splits)
qed

lemma getNode2_hit:
  assumes "map_of (m_nodes st) (pair_key a b) = Some n" and "n \<noteq> None"
  shows "getNode2 st a b = Inr (n, st)"
  using assms by (auto simp: getNode2_def pair_key_def assert_def split: if_splits)

lemma getNode3_frame:
  assumes "getNode3 st a b c = Inr (n, st1)"
  shows "m_edges st1 = m_edges st \<and> m_points st1 = m_points st"
  using assms
  by (cases "orderPoints a b c")
     (auto simp: getNode3_def ebind_Inr_iff Let_def split: option.splits)

lemma getNode2_frame:
  assumes "getNode2 st a b = Inr (n, st1)"
  shows "m_edges st1 = m_edges st \<and> m_points st1 = m_points st"
  using assms
  by (auto simp: getNode2_def ebind_Inr_iff Let_def split: option.splits if_splits)

lemma node_update_frame:
  "m_edges (node_update n f st) = m_edges st \<and> m_nodes (node_update n f st) = m_nodes st
   \<and> m_points (node_update n f st) = m_points st"
  by (simp add: node_update_def)

lemma addTriplet_frame:
  "m_nodes (addTriplet st cen nA nB nC) = m_nodes st
   \<and> m_points (addTriplet st cen nA nB nC) = m_points st
   \<and> map edge_nodes (m_edges (addTriplet st cen nA nB nC))
       = map edge_nodes (m_edges st) @ [(nA, cen), (nB, cen), (nC, cen)]"
  by (simp add: addTriplet_def addEdge_def node_update_frame Let_def)

lemma emitted_addTriplet:
  assumes "m_edges st4 = m_edges st"
  shows "emitted_edges st (addTriplet st4 cen nA nB nC) = [(nA, cen), (nB, cen), (nC, cen)]"
proof -
  have "map edge_nodes (drop (length (m_edges st)) (m_edges (addTriplet st4 cen nA nB nC)))
        = drop (length (m_edges st)) (map edge_nodes (m_edges (addTriplet st4 cen nA nB nC)))"
    by (simp add: drop_map)
  also have "\<dots> = [(nA, cen), (nB, cen), (nC, cen)]"
    using assms by (simp add: addTriplet_frame)
  finally show ?thesis by (simp add: emitted_edges_def)
qed

lemma branch_BC:
  assumes "odd_one_out bc ca ab"
  shows "(if (ab \<le> 0 \<and> bc \<le> 0 \<and> ca \<le> 0) \<or> (ab \<ge> 0 \<and> bc \<ge> 0 \<and> ca \<ge> 0) then w
          else if (bc \<le> 0 \<and> (ca \<ge> 0 \<and> ab \<ge> 0)) \<or> (bc \<ge> 0 \<and> (ca \<le> 0 \<and> ab \<le> 0)) then x
          else if (ca \<le> 0 \<and> (ab \<ge> 0 \<and> bc \<ge> 0)) \<or> (ca \<ge> 0 \<and> (ab \<le> 0 \<and> bc \<le> 0)) then y
          else z) = x"
  using assms unfolding odd_one_out_def by (elim disjE conjE; simp)

lemma branch_CA:
  assumes "odd_one_out ca ab bc"
  shows "(if (ab \<le> 0 \<and> bc \<le> 0 \<and> ca \<le> 0) \<or> (ab \<ge> 0 \<and> bc \<ge> 0 \<and> ca \<ge> 0) then w
          else if (bc \<le> 0 \<and> (ca \<ge> 0 \<and> ab \<ge> 0)) \<or> (bc \<ge> 0 \<and> (ca \<le> 0 \<and> ab \<le> 0)) then x
          else if (ca \<le> 0 \<and> (ab \<ge> 0 \<and> bc \<ge> 0)) \<or> (ca \<ge> 0 \<and> (ab \<le> 0 \<and> bc \<le> 0)) then y
          else z) = y"
  using assms unfolding odd_one_out_def by (elim disjE conjE; simp)

lemma branch_AB:
  assumes "odd_one_out ab bc ca"
  shows "(if (ab \<le> 0 \<and> bc \<le> 0 \<and> ca \<le> 0) \<or> (ab \<ge> 0 \<and> bc \<ge> 0 \<and> ca \<ge> 0) then w
          else if (bc \<le> 0 \<and> (ca \<ge> 0 \<and> ab \<ge> 0)) \<or> (bc \<ge> 0 \<and> (ca \<le> 0 \<and> ab \<le> 0)) then x
          else if (ca \<le> 0 \<and> (ab \<ge> 0 \<and> bc \<ge> 0)) \<or> (ca \<ge> 0 \<and> (ab \<le> 0 \<and> bc \<le> 0)) then y
          else z) = (z::'a)"
  using assms unfolding odd_one_out_def by (elim disjE conjE; simp)

lemma connect_event_unfold:
  assumes "deref (m_points st) (pt_left (left_int event)) = Inr a"
    and "deref (m_points st) (pt_right (left_int event)) = Inr b"
    and "deref (m_points st) (pt_right (right_int event)) = Inr c"
  shows "connect_event st event nCenter nAB nBC nCA =
        (if (perp (center (circle event)) a b \<le> 0 \<and> perp (center (circle event)) b c \<le> 0
              \<and> perp (center (circle event)) c a \<le> 0)
            \<or> (perp (center (circle event)) a b \<ge> 0 \<and> perp (center (circle event)) b c \<ge> 0
              \<and> perp (center (circle event)) c a \<ge> 0) then
           Inr (addTriplet st nCenter nAB nBC nCA)
         else if (perp (center (circle event)) b c \<le> 0
              \<and> (perp (center (circle event)) c a \<ge> 0 \<and> perp (center (circle event)) a b \<ge> 0))
            \<or> (perp (center (circle event)) b c \<ge> 0
              \<and> (perp (center (circle event)) c a \<le> 0 \<and> perp (center (circle event)) a b \<le> 0)) then
           Inr (addTriplet st nBC nCenter nCA nAB)
         else if (perp (center (circle event)) c a \<le> 0
              \<and> (perp (center (circle event)) a b \<ge> 0 \<and> perp (center (circle event)) b c \<ge> 0))
            \<or> (perp (center (circle event)) c a \<ge> 0
              \<and> (perp (center (circle event)) a b \<le> 0 \<and> perp (center (circle event)) b c \<le> 0)) then
           Inr (addTriplet st nCA nCenter nAB nBC)
         else Inr (addTriplet st nAB nCenter nBC nCA))"
  unfolding connect_event_def Let_def assms ebind.simps ..

text \<open>The branch that \<^verbatim>\<open>processEvent\<close> takes for each odd side.\<close>

lemma connect_event_branch:
  assumes "deref (m_points st) (pt_left (left_int event)) = Inr a"
    and "deref (m_points st) (pt_right (left_int event)) = Inr b"
    and "deref (m_points st) (pt_right (right_int event)) = Inr c"
  shows "odd_one_out (perp (center (circle event)) b c) (perp (center (circle event)) c a)
            (perp (center (circle event)) a b)
          \<Longrightarrow> connect_event st event nCenter nAB nBC nCA
                = Inr (addTriplet st nBC nCenter nCA nAB)"
    and "odd_one_out (perp (center (circle event)) c a) (perp (center (circle event)) a b)
            (perp (center (circle event)) b c)
          \<Longrightarrow> connect_event st event nCenter nAB nBC nCA
                = Inr (addTriplet st nCA nCenter nAB nBC)"
    and "odd_one_out (perp (center (circle event)) a b) (perp (center (circle event)) b c)
            (perp (center (circle event)) c a)
          \<Longrightarrow> connect_event st event nCenter nAB nBC nCA
                = Inr (addTriplet st nAB nCenter nBC nCA)"
  unfolding connect_event_unfold [OF assms]
  by (rule branch_BC, assumption) (rule branch_CA, assumption, rule branch_AB, assumption)

lemma if_chain_Inr:
  assumes "(if p then Inr w else if q then Inr x else if r then Inr y else Inr z) = Inr v"
  shows "v = w \<or> v = x \<or> v = y \<or> v = z"
  using assms by (auto split: if_splits)

lemma connect_event_edges:
  assumes conn: "connect_event st4 event nCenter nAB nBC nCA = Inr st'"
    and edges: "m_edges st4 = m_edges st"
    and points: "m_points st4 = m_points st"
  shows "m_nodes st' = m_nodes st4 \<and> m_points st' = m_points st4
     \<and> (\<exists>a b c.
           deref (m_points st) (pt_left (left_int event)) = Inr a
         \<and> deref (m_points st) (pt_right (left_int event)) = Inr b
         \<and> deref (m_points st) (pt_right (right_int event)) = Inr c
         \<and> (odd_one_out (perp (center (circle event)) b c) (perp (center (circle event)) c a)
                (perp (center (circle event)) a b)
              \<longrightarrow> emitted_edges st st' = [(nCenter, nBC), (nCA, nBC), (nAB, nBC)])
         \<and> (odd_one_out (perp (center (circle event)) c a) (perp (center (circle event)) a b)
                (perp (center (circle event)) b c)
              \<longrightarrow> emitted_edges st st' = [(nCenter, nCA), (nAB, nCA), (nBC, nCA)])
         \<and> (odd_one_out (perp (center (circle event)) a b) (perp (center (circle event)) b c)
                (perp (center (circle event)) c a)
              \<longrightarrow> emitted_edges st st' = [(nCenter, nAB), (nBC, nAB), (nCA, nAB)]))"
proof -
  from conn obtain a b c where
    d: "deref (m_points st4) (pt_left (left_int event)) = Inr a"
       "deref (m_points st4) (pt_right (left_int event)) = Inr b"
       "deref (m_points st4) (pt_right (right_int event)) = Inr c"
    unfolding connect_event_def Let_def ebind_Inr_iff by blast
  from if_chain_Inr [OF conn [unfolded connect_event_unfold [OF d]]]
  have frame: "m_nodes st' = m_nodes st4 \<and> m_points st' = m_points st4"
    using addTriplet_frame by auto
  note br = connect_event_branch [OF d, of nCenter nAB nBC nCA]
  have e1: "odd_one_out (perp (center (circle event)) b c) (perp (center (circle event)) c a)
                (perp (center (circle event)) a b)
              \<longrightarrow> emitted_edges st st' = [(nCenter, nBC), (nCA, nBC), (nAB, nBC)]"
    using br(1) conn emitted_addTriplet [OF edges] by auto
  have e2: "odd_one_out (perp (center (circle event)) c a) (perp (center (circle event)) a b)
                (perp (center (circle event)) b c)
              \<longrightarrow> emitted_edges st st' = [(nCenter, nCA), (nAB, nCA), (nBC, nCA)]"
    using br(2) conn emitted_addTriplet [OF edges] by auto
  have e3: "odd_one_out (perp (center (circle event)) a b) (perp (center (circle event)) b c)
                (perp (center (circle event)) c a)
              \<longrightarrow> emitted_edges st st' = [(nCenter, nAB), (nBC, nAB), (nCA, nAB)]"
    using br(3) conn emitted_addTriplet [OF edges] by auto
  from d points frame e1 e2 e3 show ?thesis
    by auto
qed

lemmas eval_nodes = getNode3_def getNode2_def orderPoints_def deref_def parent_index_def
  sizeof_Point_def assert_def assert_nodes_def

lemma obtuse_emit_result:
  "(case processEvent_emit obtuse_state obtuse_event of
      Inr st \<Rightarrow>
        m_nodes st = [((Some 0, Some 1, Some 2), Some 0), ((Some 0, Some 1, None), Some 1),
                      ((Some 1, Some 2, None), Some 2), ((Some 0, Some 2, None), Some 3)]
        \<and> emitted_edges obtuse_state st = [(0, 3), (1, 3), (2, 3)]
    | Inl e \<Rightarrow> False)"
  by (simp add: processEvent_emit_def connect_event_def obtuse_event_def obtuse_state_def
      obtuse_sites_def isect_def Implementation_init_def eval_nodes solveCircle_def
      checked_div_def sqr_def perp_def addTriplet_def addEdge_def node_update_def
      add_node_edge_def add_node_neighbor_def emitted_edges_def Let_def)

text \<open>
  C3. The claim: at a circle event whose circumcentre lies outside the triangle \<open>ABC\<close>, one
  edge connects the far pair-vertex \<open>V_far\<close> to \<open>V_ABC\<close>, and one edge connects \<open>V_ABC\<close> to
  each of the other two pair-vertices; no edge connects \<open>V_far\<close> to the other two.

  Counterexample: for \<open>A = (-3,4)\<close>, \<open>B = (3,4)\<close>, \<open>C = (4,3)\<close> with circumcentre \<open>(0,0)\<close> the
  side \<open>CA\<close> is the odd one out. The vertices are interned as \<open>V_ABC = 0\<close>, \<open>V_AB = 1\<close>,
  \<open>V_BC = 2\<close>, \<open>V_CA = 3\<close>, and the three edges are \<open>0 \<midarrow> 3\<close>, \<open>1 \<midarrow> 3\<close> and \<open>2 \<midarrow> 3\<close>: both
  other pair-vertices are connected to \<open>V_far = V_CA\<close>, none to \<open>V_ABC\<close>.
\<close>

theorem emit_outside_counterexample:
  "(case processEvent_emit obtuse_state obtuse_event of
      Inr st \<Rightarrow>
        getNode3 st (Some 0) (Some 1) (Some 2) = Inr (Some 0, st)
        \<and> getNode2 st (Some 0) (Some 1) = Inr (Some 1, st)
        \<and> getNode2 st (Some 1) (Some 2) = Inr (Some 2, st)
        \<and> getNode2 st (Some 2) (Some 0) = Inr (Some 3, st)
        \<and> emitted_edges obtuse_state st = [(0, 3), (1, 3), (2, 3)]
    | Inl e \<Rightarrow> False)
   \<and> perp \<lparr>X = 0, Y = 0\<rparr> (obtuse_sites ! 0) (obtuse_sites ! 1) < 0
   \<and> perp \<lparr>X = 0, Y = 0\<rparr> (obtuse_sites ! 1) (obtuse_sites ! 2) < 0
   \<and> perp \<lparr>X = 0, Y = 0\<rparr> (obtuse_sites ! 2) (obtuse_sites ! 0) > 0"
proof (cases "processEvent_emit obtuse_state obtuse_event")
  case (Inl e)
  with obtuse_emit_result show ?thesis by simp
next
  case (Inr st)
  with obtuse_emit_result have
    m: "m_nodes st = [((Some 0, Some 1, Some 2), Some 0), ((Some 0, Some 1, None), Some 1),
                      ((Some 1, Some 2, None), Some 2), ((Some 0, Some 2, None), Some 3)]"
    and e: "emitted_edges obtuse_state st = [(0, 3), (1, 3), (2, 3)]"
    by simp_all
  have "getNode3 st (Some 0) (Some 1) (Some 2) = Inr (Some 0, st)"
    by (rule getNode3_hit) (simp_all add: m orderPoints_def)
  moreover have "getNode2 st (Some 0) (Some 1) = Inr (Some 1, st)"
    by (rule getNode2_hit) (simp_all add: m pair_key_def)
  moreover have "getNode2 st (Some 1) (Some 2) = Inr (Some 2, st)"
    by (rule getNode2_hit) (simp_all add: m pair_key_def)
  moreover have "getNode2 st (Some 2) (Some 0) = Inr (Some 3, st)"
    by (rule getNode2_hit) (simp_all add: m pair_key_def)
  moreover have "perp \<lparr>X = 0, Y = 0\<rparr> (obtuse_sites ! 0) (obtuse_sites ! 1) < 0
      \<and> perp \<lparr>X = 0, Y = 0\<rparr> (obtuse_sites ! 1) (obtuse_sites ! 2) < 0
      \<and> perp \<lparr>X = 0, Y = 0\<rparr> (obtuse_sites ! 2) (obtuse_sites ! 0) > 0"
    by (simp add: perp_def obtuse_sites_def)
  ultimately show ?thesis using Inr e by simp
qed


text \<open>
  C3, as the code has it: when one of the three signed areas is strictly of one sign and
  the other two strictly of the other, the three edges of the event all end in the
  pair-vertex \<open>V_far\<close> of the odd side: one comes from \<open>V_ABC\<close> and one from each of the other
  two pair-vertices. (The vertices are named by what \<^verbatim>\<open>getNode\<close> returns for them in the
  resulting state.)
\<close>

theorem emit_outside_triangle:
  assumes emit: "processEvent_emit st event = Inr st'"
  shows "\<exists>nCenter nAB nBC nCA a b c.
           getNode3 st' (pt_left (left_int event)) (pt_right (left_int event))
              (pt_right (right_int event)) = Inr (Some nCenter, st')
         \<and> getNode2 st' (pt_left (left_int event)) (pt_right (left_int event)) = Inr (Some nAB, st')
         \<and> getNode2 st' (pt_right (left_int event)) (pt_right (right_int event)) = Inr (Some nBC, st')
         \<and> getNode2 st' (pt_left (left_int event)) (pt_right (right_int event)) = Inr (Some nCA, st')
         \<and> deref (m_points st) (pt_left (left_int event)) = Inr a
         \<and> deref (m_points st) (pt_right (left_int event)) = Inr b
         \<and> deref (m_points st) (pt_right (right_int event)) = Inr c
         \<and> (odd_one_out (perp (center (circle event)) b c) (perp (center (circle event)) c a)
                (perp (center (circle event)) a b)
              \<longrightarrow> emitted_edges st st' = [(nCenter, nBC), (nCA, nBC), (nAB, nBC)])
         \<and> (odd_one_out (perp (center (circle event)) c a) (perp (center (circle event)) a b)
                (perp (center (circle event)) b c)
              \<longrightarrow> emitted_edges st st' = [(nCenter, nCA), (nAB, nCA), (nBC, nCA)])
         \<and> (odd_one_out (perp (center (circle event)) a b) (perp (center (circle event)) b c)
                (perp (center (circle event)) c a)
              \<longrightarrow> emitted_edges st st' = [(nCenter, nAB), (nBC, nAB), (nCA, nAB)])"
proof -
  let ?A = "pt_left (left_int event)" and ?B = "pt_right (left_int event)"
    and ?C = "pt_right (right_int event)"
  from emit obtain nc st1 nab st2 nbc st3 nca st4 where
    g1: "getNode3 st ?A ?B ?C = Inr (nc, st1)" and g2: "getNode2 st1 ?A ?B = Inr (nab, st2)"
    and g3: "getNode2 st2 ?B ?C = Inr (nbc, st3)" and g4: "getNode2 st3 ?A ?C = Inr (nca, st4)"
    and rest: "(case (nc, nab, nbc, nca) of
          (Some nCenter, Some nAB, Some nBC, Some nCA) \<Rightarrow>
            ebind (assert_nodes st4) (\<lambda>_. connect_event st4 event nCenter nAB nBC nCA)
        | _ \<Rightarrow> Inl AssertionFailed) = Inr st'"
    unfolding processEvent_emit_def Let_def by (auto simp: ebind_Inr_iff)
  from rest obtain nCenter nAB nBC nCA where
    ns: "nc = Some nCenter" "nab = Some nAB" "nbc = Some nBC" "nca = Some nCA"
    and conn: "connect_event st4 event nCenter nAB nBC nCA = Inr st'"
    by (auto simp: ebind_Inr_iff split: option.splits)
  note f1 = getNode3_frame [OF g1] and f2 = getNode2_frame [OF g2]
    and f3 = getNode2_frame [OF g3] and f4 = getNode2_frame [OF g4]
  from f1 f2 f3 f4 have fr: "m_edges st4 = m_edges st" "m_points st4 = m_points st"
    by simp_all
  note ce = connect_event_edges [OF conn fr]
  note r1 = getNode3_result [OF g1] and r2 = getNode2_result [OF g2]
    and r3 = getNode2_result [OF g3] and r4 = getNode2_result [OF g4]
  from r2 obtain ys2 where y2: "m_nodes st2 = m_nodes st1 @ ys2" by blast
  from r3 obtain ys3 where y3: "m_nodes st3 = m_nodes st2 @ ys3" by blast
  from r4 obtain ys4 where y4: "m_nodes st4 = m_nodes st3 @ ys4" by blast
  from ce have m': "m_nodes st' = m_nodes st4" by (rule conjunct1)
  from r1 have k1: "map_of (m_nodes st1) (orderPoints ?A ?B ?C) = Some nc" by (rule conjunct1)
  from r2 have k2: "map_of (m_nodes st2) (pair_key ?A ?B) = Some nab" by (rule conjunct1)
  from r3 have k3: "map_of (m_nodes st3) (pair_key ?B ?C) = Some nbc" by (rule conjunct1)
  from r4 have l4: "map_of (m_nodes st') (pair_key ?A ?C) = Some nca"
    unfolding m' by (rule conjunct1)
  from k3 have l3: "map_of (m_nodes st') (pair_key ?B ?C) = Some nbc"
    unfolding m' y4 by (rule map_of_append_Some)
  from k2 have "map_of (m_nodes st3) (pair_key ?A ?B) = Some nab"
    unfolding y3 by (rule map_of_append_Some)
  then have l2: "map_of (m_nodes st') (pair_key ?A ?B) = Some nab"
    unfolding m' y4 by (rule map_of_append_Some)
  from k1 have "map_of (m_nodes st2) (orderPoints ?A ?B ?C) = Some nc"
    unfolding y2 by (rule map_of_append_Some)
  then have "map_of (m_nodes st3) (orderPoints ?A ?B ?C) = Some nc"
    unfolding y3 by (rule map_of_append_Some)
  then have l1: "map_of (m_nodes st') (orderPoints ?A ?B ?C) = Some nc"
    unfolding m' y4 by (rule map_of_append_Some)
  from l1 l2 l3 l4 ns have
    "getNode3 st' ?A ?B ?C = Inr (Some nCenter, st')" "getNode2 st' ?A ?B = Inr (Some nAB, st')"
    "getNode2 st' ?B ?C = Inr (Some nBC, st')" "getNode2 st' ?A ?C = Inr (Some nCA, st')"
    by (simp_all add: getNode3_hit getNode2_hit)
  moreover from ce obtain a b c where
    "deref (m_points st) ?A = Inr a \<and> deref (m_points st) ?B = Inr b
     \<and> deref (m_points st) ?C = Inr c
     \<and> (odd_one_out (perp (center (circle event)) b c) (perp (center (circle event)) c a)
            (perp (center (circle event)) a b)
          \<longrightarrow> emitted_edges st st' = [(nCenter, nBC), (nCA, nBC), (nAB, nBC)])
     \<and> (odd_one_out (perp (center (circle event)) c a) (perp (center (circle event)) a b)
            (perp (center (circle event)) b c)
          \<longrightarrow> emitted_edges st st' = [(nCenter, nCA), (nAB, nCA), (nBC, nCA)])
     \<and> (odd_one_out (perp (center (circle event)) a b) (perp (center (circle event)) b c)
            (perp (center (circle event)) c a)
          \<longrightarrow> emitted_edges st st' = [(nCenter, nAB), (nBC, nAB), (nCA, nAB)])"
    by blast
  ultimately show ?thesis by blast
qed

theorem emit_outside_triangle_witness:
  "\<exists>st' nCenter nAB nBC nCA.
      processEvent_emit obtuse_state obtuse_event = Inr st'
    \<and> getNode3 st' (Some 0) (Some 1) (Some 2) = Inr (Some nCenter, st')
    \<and> getNode2 st' (Some 0) (Some 1) = Inr (Some nAB, st')
    \<and> getNode2 st' (Some 1) (Some 2) = Inr (Some nBC, st')
    \<and> getNode2 st' (Some 0) (Some 2) = Inr (Some nCA, st')
    \<and> odd_one_out (perp \<lparr>X = 0, Y = 0\<rparr> (obtuse_sites ! 2) (obtuse_sites ! 0))
         (perp \<lparr>X = 0, Y = 0\<rparr> (obtuse_sites ! 0) (obtuse_sites ! 1))
         (perp \<lparr>X = 0, Y = 0\<rparr> (obtuse_sites ! 1) (obtuse_sites ! 2))
    \<and> emitted_edges obtuse_state st' = [(nCenter, nCA), (nAB, nCA), (nBC, nCA)]"
proof (cases "processEvent_emit obtuse_state obtuse_event")
  case (Inl e)
  with obtuse_emit_result show ?thesis by simp
next
  case (Inr st')
  have sites: "pt_left (left_int obtuse_event) = Some 0" "pt_right (left_int obtuse_event) = Some 1"
    "pt_right (right_int obtuse_event) = Some 2" "center (circle obtuse_event) = \<lparr>X = 0, Y = 0\<rparr>"
    by (simp_all add: obtuse_event_def isect_def)
  have d: "deref (m_points obtuse_state) (Some 0) = Inr (obtuse_sites ! 0)"
    "deref (m_points obtuse_state) (Some 1) = Inr (obtuse_sites ! 1)"
    "deref (m_points obtuse_state) (Some 2) = Inr (obtuse_sites ! 2)"
    by (simp_all add: deref_def obtuse_state_def obtuse_sites_def)
  have odd: "odd_one_out (perp \<lparr>X = 0, Y = 0\<rparr> (obtuse_sites ! 2) (obtuse_sites ! 0))
         (perp \<lparr>X = 0, Y = 0\<rparr> (obtuse_sites ! 0) (obtuse_sites ! 1))
         (perp \<lparr>X = 0, Y = 0\<rparr> (obtuse_sites ! 1) (obtuse_sites ! 2))"
    by (simp add: odd_one_out_def perp_def obtuse_sites_def)
  from emit_outside_triangle [OF Inr, unfolded sites d] odd Inr show ?thesis
    by auto
qed

subsection \<open>Events whose breakpoints have left the beach line\<close>

lemma processEvent_beach_present:
  assumes "processEvent_beach st event = Inr st'"
  shows "left_int event \<in> set (m_beach st) \<and> right_int event \<in> set (m_beach st)"
proof -
  from assms obtain it where
    l1: "pt_right (m_beach st ! it) = pt_right (left_int event)"
    and l2: "pt_left (m_beach st ! it) = pt_left (left_int event)"
    and rng: "it + 1 < length (m_beach st)"
    and r1: "pt_right (m_beach st ! (it + 1)) = pt_right (right_int event)"
    and r2: "pt_left (m_beach st ! (it + 1)) = pt_left (right_int event)"
    unfolding processEvent_beach_def Let_def ebind_Inr_iff assert_Inr_iff in_range_Inr_iff
    by blast
  from l1 l2 have "m_beach st ! it = left_int event" by simp
  moreover from r1 r2 have "m_beach st ! (it + 1) = right_int event" by simp
  ultimately show ?thesis using rng
    by (metis add_lessD1 nth_mem)
qed

text \<open>
  C4. The claim: a circle event whose two breakpoints are no longer both in the beach line
  is skipped, leaving the beach line, the queue and the diagram unchanged, and the
  computation does not abort.

  Counterexample: with the beach line \<open>(\<bottom>,0), (0,\<bottom>)\<close> the event of the breakpoints \<open>(0,1)\<close>
  and \<open>(1,2)\<close> is stale, and \<^verbatim>\<open>processEvent\<close> fails the assertion that the left breakpoint was
  found.
\<close>

theorem stale_event_counterexample:
  "left_int obtuse_event \<notin> set (m_beach stale_state)
   \<and> processEvent stale_state obtuse_event = Inl AssertionFailed"
  by (simp add: processEvent_def processEvent_beach_def stale_state_def obtuse_event_def isect_def
      Implementation_init_def BeachCompare_def beach_find_def assert_def)

text \<open>
  C4, as the code has it: \<^verbatim>\<open>processEvent\<close> does not skip a stale event. When one of the two
  breakpoints of the event is not in the beach line, the call ends in an error (a failed
  assertion, the thrown \<open>-1\<close> of the order check, or an undefined access); it never returns
  a state.
\<close>

theorem stale_event_aborts:
  assumes "left_int event \<notin> set (m_beach st) \<or> right_int event \<notin> set (m_beach st)"
  shows "\<exists>e. processEvent st event = Inl e"
proof (cases "processEvent st event")
  case (Inl e)
  then show ?thesis by blast
next
  case (Inr st')
  then obtain st1 where "processEvent_beach st event = Inr st1"
    by (auto simp: processEvent_def ebind_Inr_iff)
  from processEvent_beach_present [OF this] assms show ?thesis by blast
qed

theorem stale_event_aborts_witness:
  "left_int obtuse_event \<notin> set (m_beach stale_state)
   \<and> (\<exists>e. processEvent stale_state obtuse_event = Inl e)"
proof -
  have h: "left_int obtuse_event \<notin> set (m_beach stale_state)"
    by (simp add: stale_state_def obtuse_event_def isect_def Implementation_init_def)
  then have "left_int obtuse_event \<notin> set (m_beach stale_state)
      \<or> right_int obtuse_event \<notin> set (m_beach stale_state)"
    by (rule disjI1)
  from h stale_event_aborts [OF this] show ?thesis by (rule conjI)
qed

subsection \<open>A site and a circle event at the same height\<close>

text \<open>
  C5. The claim: when the next site's \<open>y\<close> equals the key of the top circle event, the site
  is processed first.

  Counterexample: the loop compares with \<open>>\<close>, so at a tie it pops and processes the circle
  event (here the event of key \<open>-5\<close> against the site \<open>(10,-5)\<close>).
\<close>

theorem tie_counterexample:
  "m_events tie_state \<noteq> []
   \<and> Y (m_points tie_state ! ([0, 1, 2, 3] ! 3)) = event_key (last (m_events tie_state))
   \<and> next_choice tie_state [0, 1, 2, 3] 3 = CircleEventChoice
   \<and> compute_step tie_state [0, 1, 2, 3] 3 =
        ebind (processEvent (tie_state\<lparr>m_events := []\<rparr>) tie_event)
          (\<lambda>st'. ebind (assert_nodes st') (\<lambda>_. Inr (st', 3)))"
  by (simp add: next_choice_def compute_step_def tie_state_def tie_event_def event_key_def
      Implementation_init_def diverging_sites_def)

text \<open>
  C5, as the code has it: when a site is left, an event is pending and the next site's \<open>y\<close>
  equals the key of the top event, the main loop pops that event and processes it; the
  site stays for a later iteration.
\<close>

theorem tie_processes_circle_event:
  assumes "m_events st \<noteq> []" and "ii < length ordered"
    and "Y (m_points st ! (ordered ! ii)) = event_key (last (m_events st))"
  shows "next_choice st ordered ii = CircleEventChoice
     \<and> compute_step st ordered ii =
        ebind (processEvent (st\<lparr>m_events := butlast (m_events st)\<rparr>) (last (m_events st)))
          (\<lambda>st'. ebind (assert_nodes st') (\<lambda>_. Inr (st', ii)))"
  using assms by (simp add: next_choice_def compute_step_def)

theorem tie_processes_circle_event_witness:
  "m_events tie_state \<noteq> [] \<and> 3 < length [0, 1, 2, 3 :: nat]
   \<and> Y (m_points tie_state ! ([0, 1, 2, 3] ! 3)) = event_key (last (m_events tie_state))
   \<and> next_choice tie_state [0, 1, 2, 3] 3 = CircleEventChoice"
proof -
  have h: "m_events tie_state \<noteq> []" "3 < length [0, 1, 2, 3 :: nat]"
    "Y (m_points tie_state ! ([0, 1, 2, 3] ! 3)) = event_key (last (m_events tie_state))"
    by (simp_all add: tie_state_def tie_event_def event_key_def Implementation_init_def
        diverging_sites_def)
  from h tie_processes_circle_event [OF h] show ?thesis by blast
qed

subsection \<open>Events of equal key in the queue\<close>

lemma first_inserted:
  "CircleQueue_insert same_key_sites (- 4) (isect 0 1) (isect 1 2) [] = Inr [first_event]"
  by (simp add: CircleQueue_insert_def isect_def same_key_sites_def first_event_def
      solveCircle_def distance2d_def queue_set_insert_def eval_intersection sqrt_25)

lemma second_alone:
  "CircleQueue_insert same_key_sites (- 4) (isect 3 4) (isect 4 5) [] = Inr [second_event]"
  by (simp add: CircleQueue_insert_def isect_def same_key_sites_def second_event_def
      solveCircle_def distance2d_def queue_set_insert_def eval_intersection sqrt_25)

lemma second_dropped:
  "CircleQueue_insert same_key_sites (- 4) (isect 3 4) (isect 4 5) [first_event] = Inr [first_event]"
  by (simp add: CircleQueue_insert_def isect_def same_key_sites_def first_event_def
      solveCircle_def distance2d_def queue_set_insert_def eval_intersection sqrt_25
      event_less_def event_key_def)

text \<open>
  C9. There are two circle events over different triples of sites, with circles of the same
  lowest point, each of which is inserted into the empty queue, such that inserting the
  second into the queue that holds the first leaves the queue unchanged: the set compares
  events by their key only.
\<close>

theorem equal_key_event_discarded:
  "\<exists>pts sweep e1 e2.
      event_sites e1 \<noteq> event_sites e2
    \<and> event_key e1 = event_key e2
    \<and> CircleQueue_insert pts sweep (left_int e1) (right_int e1) [] = Inr [e1]
    \<and> CircleQueue_insert pts sweep (left_int e2) (right_int e2) [] = Inr [e2]
    \<and> CircleQueue_insert pts sweep (left_int e2) (right_int e2) [e1] = Inr [e1]"
proof (intro exI conjI)
  show "event_sites first_event \<noteq> event_sites second_event"
    by (simp add: event_sites_def first_event_def second_event_def isect_def)
  show "event_key first_event = event_key second_event"
    by (simp add: event_key_def first_event_def second_event_def)
  show "CircleQueue_insert same_key_sites (- 4) (left_int first_event) (right_int first_event) []
          = Inr [first_event]"
    using first_inserted by (simp add: first_event_def)
  show "CircleQueue_insert same_key_sites (- 4) (left_int second_event) (right_int second_event) []
          = Inr [second_event]"
    using second_alone by (simp add: second_event_def)
  show "CircleQueue_insert same_key_sites (- 4) (left_int second_event) (right_int second_event)
          [first_event] = Inr [first_event]"
    using second_dropped by (simp add: second_event_def)
qed

subsection \<open>Vertex interning\<close>

lemma interning3:
  assumes "assert_nodes st = Inr ()" and "getNode3 st a b c = Inr (n, st1)"
    and "(a', b', c') \<in> {(a, b, c), (a, c, b), (b, a, c), (b, c, a), (c, a, b), (c, b, a)}"
    and "m_nodes st2 = m_nodes st1 @ ys"
  shows "n \<noteq> None \<and> assert_nodes st1 = Inr () \<and> getNode3 st2 a' b' c' = Inr (n, st2)"
proof -
  from assms(1,2) getNode3_result [of st a b c n st1]
  have r: "map_of (m_nodes st1) (orderPoints a b c) = Some n" "n \<noteq> None" "assert_nodes st1 = Inr ()"
    by auto
  from assms(3) have "orderPoints a' b' c' = orderPoints a b c"
    by (rule orderPoints_perm)
  with r assms(4) have "map_of (m_nodes st2) (orderPoints a' b' c') = Some n"
    by (simp add: map_of_append_Some)
  with r show ?thesis
    by (simp add: getNode3_hit)
qed

lemma interning2:
  assumes "assert_nodes st = Inr ()" and "getNode2 st a b = Inr (n, st1)"
    and "(a', b') \<in> {(a, b), (b, a)}"
    and "m_nodes st2 = m_nodes st1 @ ys"
  shows "n \<noteq> None \<and> assert_nodes st1 = Inr () \<and> getNode2 st2 a' b' = Inr (n, st2)"
proof -
  from assms(1,2) getNode2_result [of st a b n st1]
  have r: "map_of (m_nodes st1) (pair_key a b) = Some n" "n \<noteq> None" "assert_nodes st1 = Inr ()"
    by auto
  from assms(3) have "pair_key a' b' = pair_key a b"
    using pair_key_swap by auto
  with r assms(4) have "map_of (m_nodes st2) (pair_key a' b') = Some n"
    by (simp add: map_of_append_Some)
  with r show ?thesis
    by (simp add: getNode2_hit)
qed

text \<open>
  C10. When the node map holds no null node and \<^verbatim>\<open>getNode\<close> returns for three sites, the
  node it returns is not null, the map still holds no null node, and a later call for any
  permutation of the three sites, in any state whose map extends the map by further
  entries, returns the same node and changes nothing. The same holds for a pair of sites
  in either order.
\<close>

theorem getNode_interning:
  assumes "assert_nodes st = Inr ()"
  shows "(getNode3 st a b c = Inr (n, st1)
            \<and> (a', b', c') \<in> {(a, b, c), (a, c, b), (b, a, c), (b, c, a), (c, a, b), (c, b, a)}
            \<and> m_nodes st2 = m_nodes st1 @ ys
          \<longrightarrow> n \<noteq> None \<and> assert_nodes st1 = Inr () \<and> getNode3 st2 a' b' c' = Inr (n, st2))
       \<and> (getNode2 st a b = Inr (m, st3)
            \<and> (a'', b'') \<in> {(a, b), (b, a)}
            \<and> m_nodes st4 = m_nodes st3 @ zs
          \<longrightarrow> m \<noteq> None \<and> assert_nodes st3 = Inr () \<and> getNode2 st4 a'' b'' = Inr (m, st4))"
proof (rule conjI)
  show "getNode3 st a b c = Inr (n, st1)
            \<and> (a', b', c') \<in> {(a, b, c), (a, c, b), (b, a, c), (b, c, a), (c, a, b), (c, b, a)}
            \<and> m_nodes st2 = m_nodes st1 @ ys
          \<longrightarrow> n \<noteq> None \<and> assert_nodes st1 = Inr () \<and> getNode3 st2 a' b' c' = Inr (n, st2)"
  proof (rule impI)
    assume h: "getNode3 st a b c = Inr (n, st1)
            \<and> (a', b', c') \<in> {(a, b, c), (a, c, b), (b, a, c), (b, c, a), (c, a, b), (c, b, a)}
            \<and> m_nodes st2 = m_nodes st1 @ ys"
    from h have h1: "getNode3 st a b c = Inr (n, st1)" by (rule conjunct1)
    from h have h2: "(a', b', c') \<in> {(a, b, c), (a, c, b), (b, a, c), (b, c, a), (c, a, b), (c, b, a)}"
      by (rule conjunct2 [THEN conjunct1])
    from h have h3: "m_nodes st2 = m_nodes st1 @ ys"
      by (rule conjunct2 [THEN conjunct2])
    from assms h1 h2 h3
    show "n \<noteq> None \<and> assert_nodes st1 = Inr () \<and> getNode3 st2 a' b' c' = Inr (n, st2)"
      by (rule interning3)
  qed
  show "getNode2 st a b = Inr (m, st3)
            \<and> (a'', b'') \<in> {(a, b), (b, a)}
            \<and> m_nodes st4 = m_nodes st3 @ zs
          \<longrightarrow> m \<noteq> None \<and> assert_nodes st3 = Inr () \<and> getNode2 st4 a'' b'' = Inr (m, st4)"
  proof (rule impI)
    assume h: "getNode2 st a b = Inr (m, st3)
            \<and> (a'', b'') \<in> {(a, b), (b, a)}
            \<and> m_nodes st4 = m_nodes st3 @ zs"
    from h have h1: "getNode2 st a b = Inr (m, st3)" by (rule conjunct1)
    from h have h2: "(a'', b'') \<in> {(a, b), (b, a)}"
      by (rule conjunct2 [THEN conjunct1])
    from h have h3: "m_nodes st4 = m_nodes st3 @ zs"
      by (rule conjunct2 [THEN conjunct2])
    from assms h1 h2 h3
    show "m \<noteq> None \<and> assert_nodes st3 = Inr () \<and> getNode2 st4 a'' b'' = Inr (m, st4)"
      by (rule interning2)
  qed
qed

theorem getNode_interning_witness:
  "assert_nodes right_triangle_state = Inr ()
   \<and> (\<exists>n st1. getNode3 right_triangle_state (Some 0) (Some 1) (Some 2) = Inr (n, st1)
         \<and> n \<noteq> None \<and> assert_nodes st1 = Inr ()
         \<and> getNode3 st1 (Some 2) (Some 0) (Some 1) = Inr (n, st1))
   \<and> (\<exists>m st3. getNode2 right_triangle_state (Some 0) (Some 1) = Inr (m, st3)
         \<and> m \<noteq> None \<and> assert_nodes st3 = Inr ()
         \<and> getNode2 st3 (Some 1) (Some 0) = Inr (m, st3))"
proof -
  have h: "assert_nodes right_triangle_state = Inr ()"
    by (simp add: assert_nodes_def assert_def right_triangle_state_def Implementation_init_def)
  have "\<exists>r. getNode3 right_triangle_state (Some 0) (Some 1) (Some 2) = Inr r"
    by (simp add: eval_nodes right_triangle_state_def Implementation_init_def
        right_triangle_sites_def Let_def)
  then obtain n st1 where
    g3: "getNode3 right_triangle_state (Some 0) (Some 1) (Some 2) = Inr (n, st1)"
    by (metis surj_pair)
  have "\<exists>r. getNode2 right_triangle_state (Some 0) (Some 1) = Inr r"
    by (simp add: eval_nodes right_triangle_state_def Implementation_init_def
        right_triangle_sites_def Let_def)
  then obtain m st3 where
    g2: "getNode2 right_triangle_state (Some 0) (Some 1) = Inr (m, st3)"
    by (metis surj_pair)
  note w = getNode_interning [OF h, of "Some 0" "Some 1" "Some 2" n st1 "Some 2" "Some 0" "Some 1"
      st1 "[]" m st3 "Some 1" "Some 0" st3 "[]"]
  from w g3 have "n \<noteq> None \<and> assert_nodes st1 = Inr ()
      \<and> getNode3 st1 (Some 2) (Some 0) (Some 1) = Inr (n, st1)"
    by simp
  moreover from w g2 have "m \<noteq> None \<and> assert_nodes st3 = Inr ()
      \<and> getNode2 st3 (Some 1) (Some 0) = Inr (m, st3)"
    by simp
  ultimately show ?thesis using h g3 g2 by blast
qed

subsection \<open>Breakpoints in an interval\<close>

text \<open>On sites and a sweep position of magnitude at most 100 no operation of
  \<^verbatim>\<open>getIntersection\<close> leaves the range of its type. The general branch is then given in closed
  form, and the abscissa of a breakpoint is enclosed from bounds on the sweep position and
  on the square root.\<close>

lemma dr: "\<bar>v\<bar> \<le> b \<Longrightarrow> b \<le> max_double \<Longrightarrow> double_result v = Some v"
  by (simp add: double_result_def)

lemma fr: "\<bar>v\<bar> \<le> b \<Longrightarrow> b \<le> max_float \<Longrightarrow> float_result v = Some v"
  by (simp add: float_result_def)

lemma sqrt_le: "0 \<le> x \<Longrightarrow> x \<le> b\<^sup>2 \<Longrightarrow> 0 \<le> b \<Longrightarrow> \<bar>sqrt x\<bar> \<le> b"
  by (simp add: real_le_lsqrt)

text \<open>The general branch on sites and a sweep position of magnitude at most 100: no
  operation leaves the range of its type.\<close>

lemma getIntersection_general_raw:
  assumes bx: "\<bar>X p\<bar> \<le> 100" "\<bar>Y p\<bar> \<le> 100" "\<bar>X r\<bar> \<le> 100" "\<bar>Y r\<bar> \<le> 100" "\<bar>s\<bar> \<le> 100"
    and p: "epsilon \<le> Y p - s" and r: "epsilon \<le> Y r - s" and pr: "epsilon < \<bar>Y p - Y r\<bar>"
    and sg: "\<bar>sg\<bar> \<le> 1"
  shows "getIntersection s p r sg =
     Inr \<lparr>X = (Y p * X r - X p * Y r + (X p - X r) * s) / (Y p - Y r)
               + sg * \<bar>sqrt (X p * X p + Y p * Y p - 2 * X p * X r + X r * X r - 2 * Y p * Y r + Y r * Y r)
                        * sqrt (Y p - s) * sqrt (Y r - s) / (Y p - Y r)\<bar>,
          Y = 0.5 * (X p * X p + Y p * Y p
                     - 2 * X p * ((Y p * X r - X p * Y r + (X p - X r) * s) / (Y p - Y r)
               + sg * \<bar>sqrt (X p * X p + Y p * Y p - 2 * X p * X r + X r * X r - 2 * Y p * Y r + Y r * Y r)
                        * sqrt (Y p - s) * sqrt (Y r - s) / (Y p - Y r)\<bar>)
                     + ((Y p * X r - X p * Y r + (X p - X r) * s) / (Y p - Y r)
               + sg * \<bar>sqrt (X p * X p + Y p * Y p - 2 * X p * X r + X r * X r - 2 * Y p * Y r + Y r * Y r)
                        * sqrt (Y p - s) * sqrt (Y r - s) / (Y p - Y r)\<bar>)
                       * ((Y p * X r - X p * Y r + (X p - X r) * s) / (Y p - Y r)
               + sg * \<bar>sqrt (X p * X p + Y p * Y p - 2 * X p * X r + X r * X r - 2 * Y p * Y r + Y r * Y r)
                        * sqrt (Y p - s) * sqrt (Y r - s) / (Y p - Y r)\<bar>)
                     - s * s) / (Y p - s)\<rparr>"
proof -
  have e: "0 < epsilon" by (rule epsilon_pos)
  have two: "\<bar>2::real\<bar> \<le> 2" and half: "\<bar>0.5 :: real\<bar> \<le> 1 / 2" by simp_all
  define T where "T = (Y p * X r - X p * Y r + (X p - X r) * s) / (Y p - Y r)"
  define D where "D = X p * X p + Y p * Y p - 2 * X p * X r + X r * X r - 2 * Y p * Y r + Y r * Y r"
  define R where "R = sqrt D * sqrt (Y p - s) * sqrt (Y r - s) / (Y p - Y r)"
  define Q where "Q = T + sg * \<bar>R\<bar>"
  have c1: "\<not> \<bar>Y p - s\<bar> < epsilon" "\<not> \<bar>Y r - s\<bar> < epsilon" using p r e by linarith+
  have dn: "Y p - Y r \<noteq> 0" using pr e by auto
  have de: "epsilon \<le> \<bar>Y p - Y r\<bar>" using pr by simp
  have un: "Y p - s \<noteq> 0" using p e by linarith
  have ue: "epsilon \<le> \<bar>Y p - s\<bar>" using p e by linarith
  have u0: "\<not> Y p - s < 0" "\<not> Y r - s < 0" using p r e by linarith+
  have n1: "\<bar>Y p * X r\<bar> \<le> 100 * 100" using bx(2) bx(3) by (rule abs_mult_le)
  have n2: "\<bar>X p * Y r\<bar> \<le> 100 * 100" using bx(1) bx(4) by (rule abs_mult_le)
  have n3: "\<bar>Y p * X r - X p * Y r\<bar> \<le> 100 * 100 + 100 * 100" using n1 n2 by (rule abs_diff_le)
  have n4: "\<bar>X p - X r\<bar> \<le> 100 + 100" using bx(1) bx(3) by (rule abs_diff_le)
  have n5: "\<bar>(X p - X r) * s\<bar> \<le> (100 + 100) * 100" using n4 bx(5) by (rule abs_mult_le)
  have n6: "\<bar>Y p * X r - X p * Y r + (X p - X r) * s\<bar> \<le> 100 * 100 + 100 * 100 + (100 + 100) * 100"
    using n3 n5 by (rule abs_add_le)
  have n7: "\<bar>Y p - Y r\<bar> \<le> 100 + 100" using bx(2) bx(4) by (rule abs_diff_le)
  have n8: "\<bar>T\<bar> \<le> (100 * 100 + 100 * 100 + (100 + 100) * 100) / epsilon"
    unfolding T_def using n6 e de by (rule abs_divide_le)
  have d1: "\<bar>X p * X p\<bar> \<le> 100 * 100" using bx(1) bx(1) by (rule abs_mult_le)
  have d2: "\<bar>Y p * Y p\<bar> \<le> 100 * 100" using bx(2) bx(2) by (rule abs_mult_le)
  have d3: "\<bar>X p * X p + Y p * Y p\<bar> \<le> 100 * 100 + 100 * 100" using d1 d2 by (rule abs_add_le)
  have d4: "\<bar>2 * X p\<bar> \<le> 2 * 100" using two bx(1) by (rule abs_mult_le)
  have d5: "\<bar>2 * X p * X r\<bar> \<le> 2 * 100 * 100" using d4 bx(3) by (rule abs_mult_le)
  have d6: "\<bar>X p * X p + Y p * Y p - 2 * X p * X r\<bar> \<le> 100 * 100 + 100 * 100 + 2 * 100 * 100"
    using d3 d5 by (rule abs_diff_le)
  have d7: "\<bar>X r * X r\<bar> \<le> 100 * 100" using bx(3) bx(3) by (rule abs_mult_le)
  have d8: "\<bar>X p * X p + Y p * Y p - 2 * X p * X r + X r * X r\<bar>
              \<le> 100 * 100 + 100 * 100 + 2 * 100 * 100 + 100 * 100"
    using d6 d7 by (rule abs_add_le)
  have d9: "\<bar>2 * Y p\<bar> \<le> 2 * 100" using two bx(2) by (rule abs_mult_le)
  have d10: "\<bar>2 * Y p * Y r\<bar> \<le> 2 * 100 * 100" using d9 bx(4) by (rule abs_mult_le)
  have d11: "\<bar>X p * X p + Y p * Y p - 2 * X p * X r + X r * X r - 2 * Y p * Y r\<bar>
              \<le> 100 * 100 + 100 * 100 + 2 * 100 * 100 + 100 * 100 + 2 * 100 * 100"
    using d8 d10 by (rule abs_diff_le)
  have d12: "\<bar>Y r * Y r\<bar> \<le> 100 * 100" using bx(4) bx(4) by (rule abs_mult_le)
  have d13: "\<bar>D\<bar> \<le> 100 * 100 + 100 * 100 + 2 * 100 * 100 + 100 * 100 + 2 * 100 * 100 + 100 * 100"
    unfolding D_def using d11 d12 by (rule abs_add_le)
  have D0: "0 \<le> D"
  proof -
    have "D = (X p - X r)\<^sup>2 + (Y p - Y r)\<^sup>2"
      by (simp add: D_def power2_eq_square algebra_simps)
    thus ?thesis by simp
  qed
  have Dn: "\<not> D < 0" using D0 by simp
  have s1: "\<bar>sqrt D\<bar> \<le> 300" using D0 d13 by (intro sqrt_le) simp_all
  have u1: "\<bar>Y p - s\<bar> \<le> 100 + 100" using bx(2) bx(5) by (rule abs_diff_le)
  have v1: "\<bar>Y r - s\<bar> \<le> 100 + 100" using bx(4) bx(5) by (rule abs_diff_le)
  have s2: "\<bar>sqrt (Y p - s)\<bar> \<le> 15" using u0(1) u1 by (intro sqrt_le) simp_all
  have s3: "\<bar>sqrt (Y r - s)\<bar> \<le> 15" using u0(2) v1 by (intro sqrt_le) simp_all
  have m1: "\<bar>sqrt D * sqrt (Y p - s)\<bar> \<le> 300 * 15" using s1 s2 by (rule abs_mult_le)
  have m2: "\<bar>sqrt D * sqrt (Y p - s) * sqrt (Y r - s)\<bar> \<le> 300 * 15 * 15"
    using m1 s3 by (rule abs_mult_le)
  have m3: "\<bar>R\<bar> \<le> 300 * 15 * 15 / epsilon" unfolding R_def using m2 e de by (rule abs_divide_le)
  have m3': "\<bar>\<bar>R\<bar>\<bar> \<le> 300 * 15 * 15 / epsilon" using m3 by simp
  have m4: "\<bar>sg * \<bar>R\<bar>\<bar> \<le> 1 * (300 * 15 * 15 / epsilon)"
    using sg m3' by (rule abs_mult_le)
  have q: "\<bar>Q\<bar> \<le> (100 * 100 + 100 * 100 + (100 + 100) * 100) / epsilon + 1 * (300 * 15 * 15 / epsilon)"
    unfolding Q_def using n8 m4 by (rule abs_add_le)
  have q': "\<bar>Q\<bar> \<le> 10 ^ 13" using q by (simp add: epsilon_def)
  have y5: "\<bar>2 * X p * Q\<bar> \<le> 2 * 100 * 10 ^ 13" using d4 q' by (rule abs_mult_le)
  have y6: "\<bar>X p * X p + Y p * Y p - 2 * X p * Q\<bar> \<le> 100 * 100 + 100 * 100 + 2 * 100 * 10 ^ 13"
    using d3 y5 by (rule abs_diff_le)
  have y7: "\<bar>Q * Q\<bar> \<le> 10 ^ 13 * 10 ^ 13" using q' q' by (rule abs_mult_le)
  have y8: "\<bar>X p * X p + Y p * Y p - 2 * X p * Q + Q * Q\<bar>
              \<le> 100 * 100 + 100 * 100 + 2 * 100 * 10 ^ 13 + 10 ^ 13 * 10 ^ 13"
    using y6 y7 by (rule abs_add_le)
  have y9: "\<bar>s * s\<bar> \<le> 100 * 100" using bx(5) bx(5) by (rule abs_mult_le)
  have y10: "\<bar>X p * X p + Y p * Y p - 2 * X p * Q + Q * Q - s * s\<bar>
              \<le> 100 * 100 + 100 * 100 + 2 * 100 * 10 ^ 13 + 10 ^ 13 * 10 ^ 13 + 100 * 100"
    using y8 y9 by (rule abs_diff_le)
  have y11: "\<bar>0.5 * (X p * X p + Y p * Y p - 2 * X p * Q + Q * Q - s * s)\<bar>
              \<le> 1 / 2 * (100 * 100 + 100 * 100 + 2 * 100 * 10 ^ 13 + 10 ^ 13 * 10 ^ 13 + 100 * 100)"
    using half y10 by (rule abs_mult_le)
  have y12: "\<bar>0.5 * (X p * X p + Y p * Y p - 2 * X p * Q + Q * Q - s * s) / (Y p - s)\<bar>
              \<le> 1 / 2 * (100 * 100 + 100 * 100 + 2 * 100 * 10 ^ 13 + 10 ^ 13 * 10 ^ 13 + 100 * 100)
                   / epsilon"
    using y11 e ue by (rule abs_divide_le)
  note md = max_double_def max_float_def epsilon_def
  have r_n1: "double_result (Y p * X r) = Some (Y p * X r)" by (rule dr[OF n1]) (simp add: md)
  have r_n2: "double_result (X p * Y r) = Some (X p * Y r)" by (rule dr[OF n2]) (simp add: md)
  have r_n3: "double_result (Y p * X r - X p * Y r) = Some (Y p * X r - X p * Y r)"
    by (rule dr[OF n3]) (simp add: md)
  have r_n4: "double_result (X p - X r) = Some (X p - X r)" by (rule dr[OF n4]) (simp add: md)
  have r_n5: "double_result ((X p - X r) * s) = Some ((X p - X r) * s)"
    by (rule dr[OF n5]) (simp add: md)
  have r_n6: "double_result (Y p * X r - X p * Y r + (X p - X r) * s)
                = Some (Y p * X r - X p * Y r + (X p - X r) * s)"
    by (rule dr[OF n6]) (simp add: md)
  have r_n7: "double_result (Y p - Y r) = Some (Y p - Y r)" by (rule dr[OF n7]) (simp add: md)
  have r_n8: "double_result ((Y p * X r - X p * Y r + (X p - X r) * s) / (Y p - Y r)) = Some T"
    unfolding T_def[symmetric] by (rule dr[OF n8]) (simp add: md)
  have r_T: "float_result T = Some T" by (rule fr[OF n8]) (simp add: md)
  have r_d1: "double_result (X p * X p) = Some (X p * X p)" by (rule dr[OF d1]) (simp add: md)
  have r_d2: "double_result (Y p * Y p) = Some (Y p * Y p)" by (rule dr[OF d2]) (simp add: md)
  have r_d3: "double_result (X p * X p + Y p * Y p) = Some (X p * X p + Y p * Y p)"
    by (rule dr[OF d3]) (simp add: md)
  have r_d4: "double_result (2 * X p) = Some (2 * X p)" by (rule dr[OF d4]) (simp add: md)
  have r_d5: "double_result (2 * X p * X r) = Some (2 * X p * X r)"
    by (rule dr[OF d5]) (simp add: md)
  have r_d6: "double_result (X p * X p + Y p * Y p - 2 * X p * X r)
                = Some (X p * X p + Y p * Y p - 2 * X p * X r)"
    by (rule dr[OF d6]) (simp add: md)
  have r_d7: "double_result (X r * X r) = Some (X r * X r)" by (rule dr[OF d7]) (simp add: md)
  have r_d8: "double_result (X p * X p + Y p * Y p - 2 * X p * X r + X r * X r)
                = Some (X p * X p + Y p * Y p - 2 * X p * X r + X r * X r)"
    by (rule dr[OF d8]) (simp add: md)
  have r_d9: "double_result (2 * Y p) = Some (2 * Y p)" by (rule dr[OF d9]) (simp add: md)
  have r_d10: "double_result (2 * Y p * Y r) = Some (2 * Y p * Y r)"
    by (rule dr[OF d10]) (simp add: md)
  have r_d11: "double_result (X p * X p + Y p * Y p - 2 * X p * X r + X r * X r - 2 * Y p * Y r)
                = Some (X p * X p + Y p * Y p - 2 * X p * X r + X r * X r - 2 * Y p * Y r)"
    by (rule dr[OF d11]) (simp add: md)
  have r_d12: "double_result (Y r * Y r) = Some (Y r * Y r)" by (rule dr[OF d12]) (simp add: md)
  have r_d13: "double_result (X p * X p + Y p * Y p - 2 * X p * X r + X r * X r - 2 * Y p * Y r
                              + Y r * Y r) = Some D"
    unfolding D_def[symmetric] by (rule dr[OF d13]) (simp add: md)
  have r_u: "double_result (Y p - s) = Some (Y p - s)" by (rule dr[OF u1]) (simp add: md)
  have r_v: "double_result (Y r - s) = Some (Y r - s)" by (rule dr[OF v1]) (simp add: md)
  have r_m1: "double_result (sqrt D * sqrt (Y p - s)) = Some (sqrt D * sqrt (Y p - s))"
    by (rule dr[OF m1]) (simp add: md)
  have r_m2: "double_result (sqrt D * sqrt (Y p - s) * sqrt (Y r - s))
                = Some (sqrt D * sqrt (Y p - s) * sqrt (Y r - s))"
    by (rule dr[OF m2]) (simp add: md)
  have r_m3: "double_result (sqrt D * sqrt (Y p - s) * sqrt (Y r - s) / (Y p - Y r)) = Some R"
    unfolding R_def[symmetric] by (rule dr[OF m3]) (simp add: md)
  have r_R: "float_result R = Some R" by (rule fr[OF m3]) (simp add: md)
  have r_m4: "float_result (sg * \<bar>R\<bar>) = Some (sg * \<bar>R\<bar>)" by (rule fr[OF m4]) (simp add: md)
  have r_Q: "float_result (T + sg * \<bar>R\<bar>) = Some Q"
    unfolding Q_def[symmetric] by (rule fr[OF q']) (simp add: md)
  have r_y5: "double_result (2 * X p * Q) = Some (2 * X p * Q)" by (rule dr[OF y5]) (simp add: md)
  have r_y6: "double_result (X p * X p + Y p * Y p - 2 * X p * Q)
                = Some (X p * X p + Y p * Y p - 2 * X p * Q)"
    by (rule dr[OF y6]) (simp add: md)
  have r_y7: "double_result (Q * Q) = Some (Q * Q)" by (rule dr[OF y7]) (simp add: md)
  have r_y8: "double_result (X p * X p + Y p * Y p - 2 * X p * Q + Q * Q)
                = Some (X p * X p + Y p * Y p - 2 * X p * Q + Q * Q)"
    by (rule dr[OF y8]) (simp add: md)
  have r_y9: "float_result (s * s) = Some (s * s)" by (rule fr[OF y9]) (simp add: md)
  have r_y10: "double_result (X p * X p + Y p * Y p - 2 * X p * Q + Q * Q - s * s)
                = Some (X p * X p + Y p * Y p - 2 * X p * Q + Q * Q - s * s)"
    by (rule dr[OF y10]) (simp add: md)
  have r_y11: "double_result (0.5 * (X p * X p + Y p * Y p - 2 * X p * Q + Q * Q - s * s))
                = Some (0.5 * (X p * X p + Y p * Y p - 2 * X p * Q + Q * Q - s * s))"
    by (rule dr[OF y11]) (simp add: md)
  have r_y12: "double_result (0.5 * (X p * X p + Y p * Y p - 2 * X p * Q + Q * Q - s * s) / (Y p - s))
                = Some (0.5 * (X p * X p + Y p * Y p - 2 * X p * Q + Q * Q - s * s) / (Y p - s))"
    by (rule dr[OF y12]) (simp add: md)
  have "getIntersection s p r sg
          = Inr \<lparr>X = Q, Y = 0.5 * (X p * X p + Y p * Y p - 2 * X p * Q + Q * Q - s * s) / (Y p - s)\<rparr>"
    unfolding getIntersection_def Let_def d_add_def d_sub_def d_mul_def d_div_def d_sqrt_def
      f_add_def f_mul_def to_float_def
    using c1 pr dn un u0 Dn
    by (simp only: if_False if_True prod.case option.case option.map r_n1 r_n2 r_n3 r_n4 r_n5
        r_n6 r_n7 r_n8 r_T r_d1 r_d2 r_d3 r_d4 r_d5 r_d6 r_d7 r_d8 r_d9 r_d10 r_d11 r_d12 r_d13
        r_u r_v r_m1 r_m2 r_m3 r_R r_m4 r_Q r_y5 r_y6 r_y7 r_y8 r_y9 r_y10 r_y11 r_y12
        finite_point_def simp_thms)
  thus ?thesis unfolding Q_def T_def R_def D_def .
qed

lemma getIntersection_general:
  assumes bx: "\<bar>X p\<bar> \<le> 100" "\<bar>Y p\<bar> \<le> 100" "\<bar>X r\<bar> \<le> 100" "\<bar>Y r\<bar> \<le> 100" "\<bar>s\<bar> \<le> 100"
    and p: "epsilon \<le> Y p - s" and r: "epsilon \<le> Y r - s" and pr: "epsilon < \<bar>Y p - Y r\<bar>"
    and sg: "\<bar>sg\<bar> \<le> 1"
  shows "getIntersection s p r sg =
           Inr \<lparr>X = term1 p r s + sg * (sqrt (dist2 p r * (Y p - s) * (Y r - s)) / \<bar>Y p - Y r\<bar>),
                Y = parabola_y p s (term1 p r s + sg * (sqrt (dist2 p r * (Y p - s) * (Y r - s)) / \<bar>Y p - Y r\<bar>))\<rparr>"
proof -
  have e: "0 < epsilon" by (rule epsilon_pos)
  have d: "X p * X p + Y p * Y p - 2 * X p * X r + X r * X r - 2 * Y p * Y r + Y r * Y r = dist2 p r"
    by (simp add: dist2_def power2_eq_square algebra_simps)
  have d0: "0 \<le> dist2 p r" by (simp add: dist2_def)
  from p r e have pos: "0 < Y p - s" "0 < Y r - s" by linarith+
  from pr e have ne: "Y p - Y r \<noteq> 0" by auto
  have sq: "sqrt (dist2 p r) * sqrt (Y p - s) * sqrt (Y r - s) = sqrt (dist2 p r * (Y p - s) * (Y r - s))"
    by (simp add: real_sqrt_mult)
  have ab: "\<bar>sqrt (dist2 p r * (Y p - s) * (Y r - s)) / (Y p - Y r)\<bar>
             = sqrt (dist2 p r * (Y p - s) * (Y r - s)) / \<bar>Y p - Y r\<bar>"
    using d0 pos by (simp add: abs_divide abs_mult)
  from pos have ne2: "Y p - s \<noteq> 0" by simp
  have py: "\<And>qx. 0.5 * (X p * X p + Y p * Y p - 2 * X p * qx + qx * qx - s * s) / (Y p - s)
              = parabola_y p s qx"
    using ne2 by (simp add: parabola_y_def power2_eq_square field_simps)
  show ?thesis
    unfolding getIntersection_general_raw[OF bx p r pr sg] d sq ab py term1_def[symmetric] ..
qed

lemma inter_isect:
  assumes "deref pts (Some a) = Inr p" "deref pts (Some b) = Inr r"
  shows "getIntersection_inter pts s (isect a b)
           = getIntersection s p r (if Y p \<le> Y r then 1 else - 1)"
  using assms by (simp add: getIntersection_inter_def getSign_def isect_def assert_def)

lemma term1_linear:
  assumes "Y p \<noteq> Y r"
  shows "term1 p r s = term1 p r k + (X p - X r) / (Y p - Y r) * (s - k)"
proof -
  have "Y p * X r - X p * Y r + (X p - X r) * s
        = (Y p * X r - X p * Y r + (X p - X r) * k) + (X p - X r) * (s - k)"
    by (simp add: algebra_simps)
  thus ?thesis by (simp add: term1_def add_divide_distrib)
qed

lemma term1_between:
  assumes "klo \<le> s" "s \<le> khi" "Y p \<noteq> Y r"
  shows "min (term1 p r klo) (term1 p r khi) \<le> term1 p r s"
    and "term1 p r s \<le> max (term1 p r klo) (term1 p r khi)"
proof -
  define c where "c = (X p - X r) / (Y p - Y r)"
  have a: "term1 p r s = term1 p r klo + c * (s - klo)"
    unfolding c_def using assms(3) by (rule term1_linear)
  have b: "term1 p r khi = term1 p r s + c * (khi - s)"
    unfolding c_def using assms(3) by (rule term1_linear)
  show "min (term1 p r klo) (term1 p r khi) \<le> term1 p r s"
  proof (cases "0 \<le> c")
    case True
    with assms(1) have "0 \<le> c * (s - klo)" by simp
    with a show ?thesis by linarith
  next
    case False
    with assms(2) have "c * (khi - s) \<le> 0" by (simp add: mult_le_0_iff)
    with b show ?thesis by linarith
  qed
  show "term1 p r s \<le> max (term1 p r klo) (term1 p r khi)"
  proof (cases "0 \<le> c")
    case True
    with assms(2) have "0 \<le> c * (khi - s)" by simp
    with b show ?thesis by linarith
  next
    case False
    with assms(1) have "c * (s - klo) \<le> 0" by (simp add: mult_le_0_iff)
    with a show ?thesis by linarith
  qed
qed

lemma sqrt_disc_bounds:
  fixes d :: real
  assumes "klo \<le> s" "s \<le> khi" "0 \<le> py - khi" "0 \<le> ry - khi" "0 \<le> d"
    and "0 \<le> L" "L\<^sup>2 \<le> d * (py - khi) * (ry - khi)"
    and "0 \<le> U" "d * (py - klo) * (ry - klo) \<le> U\<^sup>2"
  shows "L \<le> sqrt (d * (py - s) * (ry - s))" and "sqrt (d * (py - s) * (ry - s)) \<le> U"
proof -
  have p1: "py - khi \<le> py - s" "py - s \<le> py - klo" using assms(1,2) by simp_all
  have r1: "ry - khi \<le> ry - s" "ry - s \<le> ry - klo" using assms(1,2) by simp_all
  have ps: "0 \<le> py - s" using p1(1) assms(3) by linarith
  have rs: "0 \<le> ry - s" using r1(1) assms(4) by linarith
  have "(py - khi) * (ry - khi) \<le> (py - s) * (ry - s)"
    using p1(1) r1(1) ps assms(4) by (rule mult_mono)
  hence "d * ((py - khi) * (ry - khi)) \<le> d * ((py - s) * (ry - s))"
    using assms(5) by (rule mult_left_mono)
  hence lo: "L\<^sup>2 \<le> d * (py - s) * (ry - s)" using assms(7) by (simp add: mult.assoc)
  have pk: "0 \<le> py - klo" using p1(2) ps by linarith
  have "(py - s) * (ry - s) \<le> (py - klo) * (ry - klo)"
    using p1(2) r1(2) pk rs by (rule mult_mono)
  hence "d * ((py - s) * (ry - s)) \<le> d * ((py - klo) * (ry - klo))"
    using assms(5) by (rule mult_left_mono)
  hence hi: "d * (py - s) * (ry - s) \<le> U\<^sup>2" using assms(9) by (simp add: mult.assoc)
  show "L \<le> sqrt (d * (py - s) * (ry - s))" using lo by (rule real_le_rsqrt)
  show "sqrt (d * (py - s) * (ry - s)) \<le> U" using assms(8) hi by (simp add: real_le_lsqrt)
qed

text \<open>A breakpoint of the general branch, up to bounds on the sweep position and on the
  square root.\<close>

lemma pos_general_up:
  assumes dp: "deref pts (Some a) = Inr p" and dr: "deref pts (Some b) = Inr r"
    and bx: "\<bar>X p\<bar> \<le> 100" "\<bar>Y p\<bar> \<le> 100" "\<bar>X r\<bar> \<le> 100" "\<bar>Y r\<bar> \<le> 100" "\<bar>s\<bar> \<le> 100"
    and k: "klo \<le> s" "s \<le> khi"
    and br: "epsilon \<le> Y p - khi" "epsilon \<le> Y r - khi" "epsilon < \<bar>Y p - Y r\<bar>"
    and sg: "Y p \<le> Y r"
    and L: "0 \<le> L" "L\<^sup>2 \<le> dist2 p r * (Y p - khi) * (Y r - khi)"
    and U: "0 \<le> U" "dist2 p r * (Y p - klo) * (Y r - klo) \<le> U\<^sup>2"
    and lo: "lo \<le> term1 p r klo + L / \<bar>Y p - Y r\<bar>" "lo \<le> term1 p r khi + L / \<bar>Y p - Y r\<bar>"
    and hi: "term1 p r klo + U / \<bar>Y p - Y r\<bar> \<le> hi" "term1 p r khi + U / \<bar>Y p - Y r\<bar> \<le> hi"
  shows "breakpoint_in pts s (isect a b) lo hi"
proof -
  have e: "0 < epsilon" by (rule epsilon_pos)
  have b1: "epsilon \<le> Y p - s" "epsilon \<le> Y r - s" using br(1,2) k(2) by linarith+
  have ne: "Y p \<noteq> Y r" using br(3) e by auto
  have ap: "0 < \<bar>Y p - Y r\<bar>" using br(3) e by linarith
  have one: "\<bar>1::real\<bar> \<le> 1" by simp
  define S where "S = sqrt (dist2 p r * (Y p - s) * (Y r - s))"
  have g: "getIntersection_inter pts s (isect a b)
        = Inr \<lparr>X = term1 p r s + 1 * (S / \<bar>Y p - Y r\<bar>),
               Y = parabola_y p s (term1 p r s + 1 * (S / \<bar>Y p - Y r\<bar>))\<rparr>"
    unfolding S_def inter_isect[OF dp dr] using sg getIntersection_general[OF bx b1 br(3) one]
    by simp
  have p0: "0 \<le> Y p - khi" "0 \<le> Y r - khi" using br(1,2) e by linarith+
  have d0: "0 \<le> dist2 p r" by (simp add: dist2_def)
  have SL: "L \<le> S" unfolding S_def using k p0 d0 L U by (rule sqrt_disc_bounds(1))
  have SU: "S \<le> U" unfolding S_def using k p0 d0 L U by (rule sqrt_disc_bounds(2))
  have SL': "L / \<bar>Y p - Y r\<bar> \<le> S / \<bar>Y p - Y r\<bar>" using SL ap by (simp add: divide_right_mono)
  have SU': "S / \<bar>Y p - Y r\<bar> \<le> U / \<bar>Y p - Y r\<bar>" using SU ap by (simp add: divide_right_mono)
  note t = term1_between[OF k ne]
  have "lo \<le> term1 p r s + S / \<bar>Y p - Y r\<bar>" using t(1) lo SL' by linarith
  moreover have "term1 p r s + S / \<bar>Y p - Y r\<bar> \<le> hi" using t(2) hi SU' by linarith
  ultimately show ?thesis by (simp add: breakpoint_in_def g)
qed

lemma pos_general_down:
  assumes dp: "deref pts (Some a) = Inr p" and dr: "deref pts (Some b) = Inr r"
    and bx: "\<bar>X p\<bar> \<le> 100" "\<bar>Y p\<bar> \<le> 100" "\<bar>X r\<bar> \<le> 100" "\<bar>Y r\<bar> \<le> 100" "\<bar>s\<bar> \<le> 100"
    and k: "klo \<le> s" "s \<le> khi"
    and br: "epsilon \<le> Y p - khi" "epsilon \<le> Y r - khi" "epsilon < \<bar>Y p - Y r\<bar>"
    and sg: "Y r < Y p"
    and L: "0 \<le> L" "L\<^sup>2 \<le> dist2 p r * (Y p - khi) * (Y r - khi)"
    and U: "0 \<le> U" "dist2 p r * (Y p - klo) * (Y r - klo) \<le> U\<^sup>2"
    and lo: "lo \<le> term1 p r klo - U / \<bar>Y p - Y r\<bar>" "lo \<le> term1 p r khi - U / \<bar>Y p - Y r\<bar>"
    and hi: "term1 p r klo - L / \<bar>Y p - Y r\<bar> \<le> hi" "term1 p r khi - L / \<bar>Y p - Y r\<bar> \<le> hi"
  shows "breakpoint_in pts s (isect a b) lo hi"
proof -
  have e: "0 < epsilon" by (rule epsilon_pos)
  have b1: "epsilon \<le> Y p - s" "epsilon \<le> Y r - s" using br(1,2) k(2) by linarith+
  have ne: "Y p \<noteq> Y r" using br(3) e by auto
  have ap: "0 < \<bar>Y p - Y r\<bar>" using br(3) e by linarith
  have one: "\<bar>- 1::real\<bar> \<le> 1" by simp
  define S where "S = sqrt (dist2 p r * (Y p - s) * (Y r - s))"
  have g: "getIntersection_inter pts s (isect a b)
        = Inr \<lparr>X = term1 p r s + (- 1) * (S / \<bar>Y p - Y r\<bar>),
               Y = parabola_y p s (term1 p r s + (- 1) * (S / \<bar>Y p - Y r\<bar>))\<rparr>"
    unfolding S_def inter_isect[OF dp dr] using sg getIntersection_general[OF bx b1 br(3) one]
    by simp
  have p0: "0 \<le> Y p - khi" "0 \<le> Y r - khi" using br(1,2) e by linarith+
  have d0: "0 \<le> dist2 p r" by (simp add: dist2_def)
  have SL: "L \<le> S" unfolding S_def using k p0 d0 L U by (rule sqrt_disc_bounds(1))
  have SU: "S \<le> U" unfolding S_def using k p0 d0 L U by (rule sqrt_disc_bounds(2))
  have SL': "L / \<bar>Y p - Y r\<bar> \<le> S / \<bar>Y p - Y r\<bar>" using SL ap by (simp add: divide_right_mono)
  have SU': "S / \<bar>Y p - Y r\<bar> \<le> U / \<bar>Y p - Y r\<bar>" using SU ap by (simp add: divide_right_mono)
  note t = term1_between[OF k ne]
  have "lo \<le> term1 p r s - S / \<bar>Y p - Y r\<bar>" using t(1) lo SU' by linarith
  moreover have "term1 p r s - S / \<bar>Y p - Y r\<bar> \<le> hi" using t(2) hi SL' by linarith
  ultimately show ?thesis by (simp add: breakpoint_in_def g)
qed

text \<open>The two branches for a site on the sweep line.\<close>

lemma getIntersection_left_on_sweep:
  assumes bx: "\<bar>X p\<bar> \<le> 100" "\<bar>X r\<bar> \<le> 100" "\<bar>Y r\<bar> \<le> 100" "\<bar>s\<bar> \<le> 100"
    and on: "\<bar>Y p - s\<bar> < epsilon" and off: "epsilon \<le> \<bar>Y r - s\<bar>"
  shows "\<exists>qy. getIntersection s p r sg = Inr \<lparr>X = X p, Y = qy\<rparr>"
proof -
  have e: "0 < epsilon" by (rule epsilon_pos)
  have two: "\<bar>2::real\<bar> \<le> 2" and half: "\<bar>0.5 :: real\<bar> \<le> 1 / 2" by simp_all
  have vn: "Y r - s \<noteq> 0" using off e by linarith
  have a1: "\<bar>X p * X p\<bar> \<le> 100 * 100" using bx(1) bx(1) by (rule abs_mult_le)
  have a2: "\<bar>2 * X p\<bar> \<le> 2 * 100" using two bx(1) by (rule abs_mult_le)
  have a3: "\<bar>2 * X p * X r\<bar> \<le> 2 * 100 * 100" using a2 bx(2) by (rule abs_mult_le)
  have a4: "\<bar>X p * X p - 2 * X p * X r\<bar> \<le> 100 * 100 + 2 * 100 * 100" using a1 a3 by (rule abs_diff_le)
  have a5: "\<bar>X r * X r\<bar> \<le> 100 * 100" using bx(2) bx(2) by (rule abs_mult_le)
  have a6: "\<bar>X p * X p - 2 * X p * X r + X r * X r\<bar> \<le> 100 * 100 + 2 * 100 * 100 + 100 * 100"
    using a4 a5 by (rule abs_add_le)
  have a7: "\<bar>Y r * Y r\<bar> \<le> 100 * 100" using bx(3) bx(3) by (rule abs_mult_le)
  have a8: "\<bar>X p * X p - 2 * X p * X r + X r * X r + Y r * Y r\<bar>
             \<le> 100 * 100 + 2 * 100 * 100 + 100 * 100 + 100 * 100"
    using a6 a7 by (rule abs_add_le)
  have a9: "\<bar>s * s\<bar> \<le> 100 * 100" using bx(4) bx(4) by (rule abs_mult_le)
  have a10: "\<bar>X p * X p - 2 * X p * X r + X r * X r + Y r * Y r - s * s\<bar>
             \<le> 100 * 100 + 2 * 100 * 100 + 100 * 100 + 100 * 100 + 100 * 100"
    using a8 a9 by (rule abs_diff_le)
  have a11: "\<bar>0.5 * (X p * X p - 2 * X p * X r + X r * X r + Y r * Y r - s * s)\<bar>
             \<le> 1 / 2 * (100 * 100 + 2 * 100 * 100 + 100 * 100 + 100 * 100 + 100 * 100)"
    using half a10 by (rule abs_mult_le)
  have v1: "\<bar>Y r - s\<bar> \<le> 100 + 100" using bx(3) bx(4) by (rule abs_diff_le)
  have a12: "\<bar>0.5 * (X p * X p - 2 * X p * X r + X r * X r + Y r * Y r - s * s) / (Y r - s)\<bar>
             \<le> 1 / 2 * (100 * 100 + 2 * 100 * 100 + 100 * 100 + 100 * 100 + 100 * 100) / epsilon"
    using a11 e off by (rule abs_divide_le)
  note md = max_double_def max_float_def epsilon_def
  have r1: "double_result (X p * X p) = Some (X p * X p)" by (rule dr[OF a1]) (simp add: md)
  have r2: "double_result (2 * X p) = Some (2 * X p)" by (rule dr[OF a2]) (simp add: md)
  have r3: "double_result (2 * X p * X r) = Some (2 * X p * X r)" by (rule dr[OF a3]) (simp add: md)
  have r4: "double_result (X p * X p - 2 * X p * X r) = Some (X p * X p - 2 * X p * X r)"
    by (rule dr[OF a4]) (simp add: md)
  have r5: "double_result (X r * X r) = Some (X r * X r)" by (rule dr[OF a5]) (simp add: md)
  have r6: "double_result (X p * X p - 2 * X p * X r + X r * X r)
              = Some (X p * X p - 2 * X p * X r + X r * X r)"
    by (rule dr[OF a6]) (simp add: md)
  have r7: "double_result (Y r * Y r) = Some (Y r * Y r)" by (rule dr[OF a7]) (simp add: md)
  have r8: "double_result (X p * X p - 2 * X p * X r + X r * X r + Y r * Y r)
              = Some (X p * X p - 2 * X p * X r + X r * X r + Y r * Y r)"
    by (rule dr[OF a8]) (simp add: md)
  have r9: "double_result (s * s) = Some (s * s)" by (rule dr[OF a9]) (simp add: md)
  have r10: "double_result (X p * X p - 2 * X p * X r + X r * X r + Y r * Y r - s * s)
              = Some (X p * X p - 2 * X p * X r + X r * X r + Y r * Y r - s * s)"
    by (rule dr[OF a10]) (simp add: md)
  have r11: "double_result (0.5 * (X p * X p - 2 * X p * X r + X r * X r + Y r * Y r - s * s))
              = Some (0.5 * (X p * X p - 2 * X p * X r + X r * X r + Y r * Y r - s * s))"
    by (rule dr[OF a11]) (simp add: md)
  have r12: "double_result (Y r - s) = Some (Y r - s)" by (rule dr[OF v1]) (simp add: md)
  have r13: "double_result (0.5 * (X p * X p - 2 * X p * X r + X r * X r + Y r * Y r - s * s) / (Y r - s))
              = Some (0.5 * (X p * X p - 2 * X p * X r + X r * X r + Y r * Y r - s * s) / (Y r - s))"
    by (rule dr[OF a12]) (simp add: md)
  have "getIntersection s p r sg
          = Inr \<lparr>X = X p, Y = 0.5 * (X p * X p - 2 * X p * X r + X r * X r + Y r * Y r - s * s)
                                 / (Y r - s)\<rparr>"
    unfolding getIntersection_def Let_def d_sqr_def d_add_def d_sub_def d_mul_def d_div_def
    using on vn
    by (simp only: if_False if_True prod.case option.case r1 r2 r3 r4 r5 r6 r7 r8 r9 r10 r11
        r12 r13 finite_point_def simp_thms)
  thus ?thesis by blast
qed

lemma getIntersection_right_on_sweep:
  assumes bx: "\<bar>X p\<bar> \<le> 100" "\<bar>Y p\<bar> \<le> 100" "\<bar>X r\<bar> \<le> 100" "\<bar>s\<bar> \<le> 100"
    and off: "epsilon \<le> \<bar>Y p - s\<bar>" and on: "\<bar>Y r - s\<bar> < epsilon"
  shows "\<exists>qy. getIntersection s p r sg = Inr \<lparr>X = X r, Y = qy\<rparr>"
proof -
  have e: "0 < epsilon" by (rule epsilon_pos)
  have two: "\<bar>2::real\<bar> \<le> 2" and half: "\<bar>0.5 :: real\<bar> \<le> 1 / 2" by simp_all
  have un: "Y p - s \<noteq> 0" using off e by linarith
  have c1: "\<not> \<bar>Y p - s\<bar> < epsilon" using off by simp
  have a1: "\<bar>X p * X p\<bar> \<le> 100 * 100" using bx(1) bx(1) by (rule abs_mult_le)
  have a2: "\<bar>Y p * Y p\<bar> \<le> 100 * 100" using bx(2) bx(2) by (rule abs_mult_le)
  have a3: "\<bar>X p * X p + Y p * Y p\<bar> \<le> 100 * 100 + 100 * 100" using a1 a2 by (rule abs_add_le)
  have a4: "\<bar>2 * X p\<bar> \<le> 2 * 100" using two bx(1) by (rule abs_mult_le)
  have a5: "\<bar>2 * X p * X r\<bar> \<le> 2 * 100 * 100" using a4 bx(3) by (rule abs_mult_le)
  have a6: "\<bar>X p * X p + Y p * Y p - 2 * X p * X r\<bar> \<le> 100 * 100 + 100 * 100 + 2 * 100 * 100"
    using a3 a5 by (rule abs_diff_le)
  have a7: "\<bar>X r * X r\<bar> \<le> 100 * 100" using bx(3) bx(3) by (rule abs_mult_le)
  have a8: "\<bar>X p * X p + Y p * Y p - 2 * X p * X r + X r * X r\<bar>
             \<le> 100 * 100 + 100 * 100 + 2 * 100 * 100 + 100 * 100"
    using a6 a7 by (rule abs_add_le)
  have a9: "\<bar>s * s\<bar> \<le> 100 * 100" using bx(4) bx(4) by (rule abs_mult_le)
  have a10: "\<bar>X p * X p + Y p * Y p - 2 * X p * X r + X r * X r - s * s\<bar>
             \<le> 100 * 100 + 100 * 100 + 2 * 100 * 100 + 100 * 100 + 100 * 100"
    using a8 a9 by (rule abs_diff_le)
  have a11: "\<bar>0.5 * (X p * X p + Y p * Y p - 2 * X p * X r + X r * X r - s * s)\<bar>
             \<le> 1 / 2 * (100 * 100 + 100 * 100 + 2 * 100 * 100 + 100 * 100 + 100 * 100)"
    using half a10 by (rule abs_mult_le)
  have u1: "\<bar>Y p - s\<bar> \<le> 100 + 100" using bx(2) bx(4) by (rule abs_diff_le)
  have a12: "\<bar>0.5 * (X p * X p + Y p * Y p - 2 * X p * X r + X r * X r - s * s) / (Y p - s)\<bar>
             \<le> 1 / 2 * (100 * 100 + 100 * 100 + 2 * 100 * 100 + 100 * 100 + 100 * 100) / epsilon"
    using a11 e off by (rule abs_divide_le)
  note md = max_double_def max_float_def epsilon_def
  have r1: "double_result (X p * X p) = Some (X p * X p)" by (rule dr[OF a1]) (simp add: md)
  have r2: "double_result (Y p * Y p) = Some (Y p * Y p)" by (rule dr[OF a2]) (simp add: md)
  have r3: "double_result (X p * X p + Y p * Y p) = Some (X p * X p + Y p * Y p)"
    by (rule dr[OF a3]) (simp add: md)
  have r4: "double_result (2 * X p) = Some (2 * X p)" by (rule dr[OF a4]) (simp add: md)
  have r5: "double_result (2 * X p * X r) = Some (2 * X p * X r)" by (rule dr[OF a5]) (simp add: md)
  have r6: "double_result (X p * X p + Y p * Y p - 2 * X p * X r)
              = Some (X p * X p + Y p * Y p - 2 * X p * X r)"
    by (rule dr[OF a6]) (simp add: md)
  have r7: "double_result (X r * X r) = Some (X r * X r)" by (rule dr[OF a7]) (simp add: md)
  have r8: "double_result (X p * X p + Y p * Y p - 2 * X p * X r + X r * X r)
              = Some (X p * X p + Y p * Y p - 2 * X p * X r + X r * X r)"
    by (rule dr[OF a8]) (simp add: md)
  have r9: "float_result (s * s) = Some (s * s)" by (rule fr[OF a9]) (simp add: md)
  have r10: "double_result (X p * X p + Y p * Y p - 2 * X p * X r + X r * X r - s * s)
              = Some (X p * X p + Y p * Y p - 2 * X p * X r + X r * X r - s * s)"
    by (rule dr[OF a10]) (simp add: md)
  have r11: "double_result (0.5 * (X p * X p + Y p * Y p - 2 * X p * X r + X r * X r - s * s))
              = Some (0.5 * (X p * X p + Y p * Y p - 2 * X p * X r + X r * X r - s * s))"
    by (rule dr[OF a11]) (simp add: md)
  have r12: "double_result (Y p - s) = Some (Y p - s)" by (rule dr[OF u1]) (simp add: md)
  have r13: "double_result (0.5 * (X p * X p + Y p * Y p - 2 * X p * X r + X r * X r - s * s) / (Y p - s))
              = Some (0.5 * (X p * X p + Y p * Y p - 2 * X p * X r + X r * X r - s * s) / (Y p - s))"
    by (rule dr[OF a12]) (simp add: md)
  have "getIntersection s p r sg
          = Inr \<lparr>X = X r, Y = 0.5 * (X p * X p + Y p * Y p - 2 * X p * X r + X r * X r - s * s)
                                 / (Y p - s)\<rparr>"
    unfolding getIntersection_def Let_def d_add_def d_sub_def d_mul_def d_div_def f_mul_def
    using c1 on un
    by (simp only: if_False if_True prod.case option.case r1 r2 r3 r4 r5 r6 r7 r8 r9 r10 r11
        r12 r13 finite_point_def simp_thms)
  thus ?thesis by blast
qed

lemma pos_left_on_sweep:
  assumes dp: "deref pts (Some a) = Inr p" and dr: "deref pts (Some b) = Inr r"
    and bx: "\<bar>X p\<bar> \<le> 100" "\<bar>X r\<bar> \<le> 100" "\<bar>Y r\<bar> \<le> 100" "\<bar>s\<bar> \<le> 100"
    and on: "\<bar>Y p - s\<bar> < epsilon" and off: "epsilon \<le> \<bar>Y r - s\<bar>"
  shows "breakpoint_in pts s (isect a b) (X p) (X p)"
proof -
  obtain qy where "getIntersection s p r (if Y p \<le> Y r then 1 else - 1) = Inr \<lparr>X = X p, Y = qy\<rparr>"
    using getIntersection_left_on_sweep[OF bx on off] by blast
  thus ?thesis by (simp add: breakpoint_in_def inter_isect[OF dp dr])
qed

lemma pos_right_on_sweep:
  assumes dp: "deref pts (Some a) = Inr p" and dr: "deref pts (Some b) = Inr r"
    and bx: "\<bar>X p\<bar> \<le> 100" "\<bar>Y p\<bar> \<le> 100" "\<bar>X r\<bar> \<le> 100" "\<bar>s\<bar> \<le> 100"
    and off: "epsilon \<le> \<bar>Y p - s\<bar>" and on: "\<bar>Y r - s\<bar> < epsilon"
  shows "breakpoint_in pts s (isect a b) (X r) (X r)"
proof -
  obtain qy where "getIntersection s p r (if Y p \<le> Y r then 1 else - 1) = Inr \<lparr>X = X r, Y = qy\<rparr>"
    using getIntersection_right_on_sweep[OF bx off on] by blast
  thus ?thesis by (simp add: breakpoint_in_def inter_isect[OF dp dr])
qed

subsection \<open>Comparisons of breakpoints and the convergence test\<close>

text \<open>\<^verbatim>\<open>BeachCompare\<close> on two entries whose breakpoints lie in disjoint intervals, and on the
  other shapes of its arguments.\<close>

lemma isect_sel: "pt_left (isect a b) = Some a" "pt_right (isect a b) = Some b"
  by (simp_all add: isect_def)

lemma breakpoint_inE:
  assumes "breakpoint_in pts s e lo hi"
  obtains q where "getIntersection_inter pts s e = Inr q" "lo \<le> X q" "X q \<le> hi"
  using assms unfolding breakpoint_in_def by (cases "getIntersection_inter pts s e") simp_all

lemma BeachCompare_general_less:
  assumes "a \<noteq> b" "c \<noteq> d" "\<not> (a = c \<and> b = d)" "\<not> (b = c \<and> a = d)"
    and l: "breakpoint_in pts s (isect a b) lo1 hi1"
    and r: "breakpoint_in pts s (isect c d) lo2 hi2"
    and "hi1 < lo2"
  shows "BeachCompare pts s (isect a b) (isect c d) = Inr True"
proof -
  from l obtain q1 where q1: "getIntersection_inter pts s (isect a b) = Inr q1" "X q1 \<le> hi1"
    by (rule breakpoint_inE)
  from r obtain q2 where q2: "getIntersection_inter pts s (isect c d) = Inr q2" "lo2 \<le> X q2"
    by (rule breakpoint_inE)
  have "X q1 < X q2" using q1(2) q2(2) assms(7) by linarith
  thus ?thesis using assms(1-4) by (auto simp add: BeachCompare_def isect_sel q1(1) q2(1))
qed

lemma BeachCompare_general_not_less:
  assumes "a \<noteq> b" "c \<noteq> d" "\<not> (a = c \<and> b = d)" "\<not> (b = c \<and> a = d)"
    and l: "breakpoint_in pts s (isect a b) lo1 hi1"
    and r: "breakpoint_in pts s (isect c d) lo2 hi2"
    and "hi2 \<le> lo1"
  shows "BeachCompare pts s (isect a b) (isect c d) = Inr False"
proof -
  from l obtain q1 where q1: "getIntersection_inter pts s (isect a b) = Inr q1" "lo1 \<le> X q1"
    by (rule breakpoint_inE)
  from r obtain q2 where q2: "getIntersection_inter pts s (isect c d) = Inr q2" "X q2 \<le> hi2"
    by (rule breakpoint_inE)
  have "\<not> X q1 < X q2" using q1(2) q2(2) assms(7) by linarith
  thus ?thesis using assms(1-4) by (auto simp add: BeachCompare_def isect_sel q1(1) q2(1))
qed

text \<open>A breakpoint against the probe \<open>(D, D)\<close> of a new site.\<close>

lemma BeachCompare_probe_less:
  assumes "a \<noteq> b" "\<not> (a = d \<and> b = d)"
    and l: "breakpoint_in pts s (isect a b) lo hi"
    and d: "deref pts (Some d) = Inr pd"
    and "hi < X pd"
  shows "BeachCompare pts s (isect a b) (isect d d) = Inr True"
proof -
  from l obtain q1 where q1: "getIntersection_inter pts s (isect a b) = Inr q1" "X q1 \<le> hi"
    by (rule breakpoint_inE)
  have "X q1 < X pd" using q1(2) assms(5) by linarith
  thus ?thesis using assms(1,2) by (auto simp add: BeachCompare_def isect_sel q1(1) d assert_def)
qed

lemma BeachCompare_probe_not_less:
  assumes "a \<noteq> b" "\<not> (a = d \<and> b = d)"
    and l: "breakpoint_in pts s (isect a b) lo hi"
    and d: "deref pts (Some d) = Inr pd"
    and "X pd \<le> lo"
  shows "BeachCompare pts s (isect a b) (isect d d) = Inr False"
proof -
  from l obtain q1 where q1: "getIntersection_inter pts s (isect a b) = Inr q1" "lo \<le> X q1"
    by (rule breakpoint_inE)
  have "\<not> X q1 < X pd" using q1(2) assms(5) by linarith
  thus ?thesis using assms(1,2) by (auto simp add: BeachCompare_def isect_sel q1(1) d assert_def)
qed

lemma BeachCompare_opposite:
  assumes "a \<noteq> b" "deref pts (Some a) = Inr pa" "deref pts (Some b) = Inr pb"
  shows "BeachCompare pts s (isect a b) (isect b a) = Inr (Y pb < Y pa)"
  using assms by (auto simp add: BeachCompare_def isect_sel getSign_def assert_def)

lemma BeachCompare_same: "BeachCompare pts s (isect a b) (isect a b) = Inr False"
  by (simp add: BeachCompare_def isect_sel)

lemma BeachCompare_first:
  "BeachCompare pts s \<lparr>pt_left = None, pt_right = Some a\<rparr> (isect c d) = Inr True"
  by (simp add: BeachCompare_def isect_sel)

lemma BeachCompare_last:
  "BeachCompare pts s (isect c d) \<lparr>pt_left = Some a, pt_right = None\<rparr> = Inr True"
  by (simp add: BeachCompare_def isect_sel)

lemma BeachCompare_last_left:
  "BeachCompare pts s \<lparr>pt_left = Some a, pt_right = None\<rparr> (isect c d) = Inr False"
  by (simp add: BeachCompare_def isect_sel)

lemma BeachCompare_first_right:
  "BeachCompare pts s (isect c d) \<lparr>pt_left = None, pt_right = Some a\<rparr> = Inr False"
  by (simp add: BeachCompare_def isect_sel)

lemma BeachCompare_first_last:
  "BeachCompare pts s \<lparr>pt_left = None, pt_right = Some a\<rparr> \<lparr>pt_left = Some b, pt_right = None\<rparr> = Inr True"
  by (simp add: BeachCompare_def)

text \<open>The breakpoint of two sites at the key of a circle through both.\<close>

lemma tangent_discriminant:
  fixes px py rx ry cx cy rho :: real
  assumes "(px - cx)\<^sup>2 + (py - cy)\<^sup>2 = rho\<^sup>2" "(rx - cx)\<^sup>2 + (ry - cy)\<^sup>2 = rho\<^sup>2"
  shows "((px - rx)\<^sup>2 + (py - ry)\<^sup>2) * (py - (cy - rho)) * (ry - (cy - rho))
          = ((py - ry) * cx - (py * rx - px * ry + (px - rx) * (cy - rho)))\<^sup>2"
  using assms by algebra

lemma parabola_center:
  fixes px py cx cy rho :: real
  assumes "(px - cx)\<^sup>2 + (py - cy)\<^sup>2 = rho\<^sup>2" "py - (cy - rho) \<noteq> 0"
  shows "((cx - px)\<^sup>2 + py\<^sup>2 - (cy - rho)\<^sup>2) / (2 * (py - (cy - rho))) = cy"
proof -
  have "(cx - px)\<^sup>2 + py\<^sup>2 - (cy - rho)\<^sup>2 = cy * (2 * (py - (cy - rho)))"
    using assms(1) by algebra
  thus ?thesis using assms(2) by simp
qed

lemma getIntersection_at_key:
  assumes cp: "(X p - cx)\<^sup>2 + (Y p - cy)\<^sup>2 = rho\<^sup>2"
    and cr: "(X r - cx)\<^sup>2 + (Y r - cy)\<^sup>2 = rho\<^sup>2"
    and bx: "\<bar>X p\<bar> \<le> 100" "\<bar>Y p\<bar> \<le> 100" "\<bar>X r\<bar> \<le> 100" "\<bar>Y r\<bar> \<le> 100"
            "\<bar>cy - rho\<bar> \<le> 100"
    and br: "epsilon \<le> Y p - (cy - rho)" "epsilon \<le> Y r - (cy - rho)" "epsilon < \<bar>Y p - Y r\<bar>"
    and sg1: "\<bar>sg\<bar> \<le> 1"
  shows "getIntersection (cy - rho) p r sg =
           Inr \<lparr>X = term1 p r (cy - rho) + sg * \<bar>cx - term1 p r (cy - rho)\<bar>,
                Y = parabola_y p (cy - rho) (term1 p r (cy - rho) + sg * \<bar>cx - term1 p r (cy - rho)\<bar>)\<rparr>"
proof -
  have e: "0 < epsilon" by (rule epsilon_pos)
  have ne: "Y p - Y r \<noteq> 0" using br(3) e by auto
  have "dist2 p r * (Y p - (cy - rho)) * (Y r - (cy - rho))
        = ((Y p - Y r) * cx - (Y p * X r - X p * Y r + (X p - X r) * (cy - rho)))\<^sup>2"
    unfolding dist2_def using cp cr by (rule tangent_discriminant)
  hence "sqrt (dist2 p r * (Y p - (cy - rho)) * (Y r - (cy - rho)))
        = \<bar>(Y p - Y r) * cx - (Y p * X r - X p * Y r + (X p - X r) * (cy - rho))\<bar>"
    by simp
  also have "(Y p - Y r) * cx - (Y p * X r - X p * Y r + (X p - X r) * (cy - rho))
        = (Y p - Y r) * (cx - term1 p r (cy - rho))"
    using ne by (simp add: term1_def right_diff_distrib)
  finally have "sqrt (dist2 p r * (Y p - (cy - rho)) * (Y r - (cy - rho))) / \<bar>Y p - Y r\<bar>
        = \<bar>cx - term1 p r (cy - rho)\<bar>"
    using ne by (simp add: abs_mult)
  thus ?thesis using getIntersection_general[OF bx br sg1] by simp
qed

lemma converge_center:
  assumes cp: "(X p - cx)\<^sup>2 + (Y p - cy)\<^sup>2 = rho\<^sup>2"
    and cr: "(X r - cx)\<^sup>2 + (Y r - cy)\<^sup>2 = rho\<^sup>2"
    and bx: "\<bar>X p\<bar> \<le> 100" "\<bar>Y p\<bar> \<le> 100" "\<bar>X r\<bar> \<le> 100" "\<bar>Y r\<bar> \<le> 100"
            "\<bar>cy - rho\<bar> \<le> 100"
    and br: "epsilon \<le> Y p - (cy - rho)" "epsilon \<le> Y r - (cy - rho)" "epsilon < \<bar>Y p - Y r\<bar>"
    and sg: "sg = 1 \<and> term1 p r (cy - rho) \<le> cx \<or> sg = - 1 \<and> cx \<le> term1 p r (cy - rho)"
  shows "getIntersection (cy - rho) p r sg = Inr \<lparr>X = cx, Y = cy\<rparr>"
proof -
  have e: "0 < epsilon" by (rule epsilon_pos)
  have x: "term1 p r (cy - rho) + sg * \<bar>cx - term1 p r (cy - rho)\<bar> = cx"
    using sg by (elim disjE conjE) simp_all
  have ne: "Y p - (cy - rho) \<noteq> 0" using br(1) e by linarith
  have c: "parabola_y p (cy - rho) cx = cy"
    unfolding parabola_y_def using cp ne by (rule parabola_center)
  have sg1: "\<bar>sg\<bar> \<le> 1" using sg by auto
  from c show ?thesis using getIntersection_at_key[OF cp cr bx br sg1] x by simp
qed

lemma converge_mirror:
  assumes cp: "(X p - cx)\<^sup>2 + (Y p - cy)\<^sup>2 = rho\<^sup>2"
    and cr: "(X r - cx)\<^sup>2 + (Y r - cy)\<^sup>2 = rho\<^sup>2"
    and bx: "\<bar>X p\<bar> \<le> 100" "\<bar>Y p\<bar> \<le> 100" "\<bar>X r\<bar> \<le> 100" "\<bar>Y r\<bar> \<le> 100"
            "\<bar>cy - rho\<bar> \<le> 100"
    and br: "epsilon \<le> Y p - (cy - rho)" "epsilon \<le> Y r - (cy - rho)" "epsilon < \<bar>Y p - Y r\<bar>"
    and sg: "sg = 1 \<and> cx \<le> term1 p r (cy - rho) \<or> sg = - 1 \<and> term1 p r (cy - rho) \<le> cx"
  shows "getIntersection (cy - rho) p r sg =
           Inr \<lparr>X = 2 * term1 p r (cy - rho) - cx,
                Y = parabola_y p (cy - rho) (2 * term1 p r (cy - rho) - cx)\<rparr>"
proof -
  have x: "term1 p r (cy - rho) + sg * \<bar>cx - term1 p r (cy - rho)\<bar> = 2 * term1 p r (cy - rho) - cx"
    using sg by (elim disjE conjE) simp_all
  have sg1: "\<bar>sg\<bar> \<le> 1" using sg by auto
  show ?thesis using getIntersection_at_key[OF cp cr bx br sg1] x by simp
qed

text \<open>The distance of the mirrored root from the centre.\<close>

lemma mirror_distance:
  assumes cp: "(X p - cx)\<^sup>2 + (Y p - cy)\<^sup>2 = rho\<^sup>2"
    and ne: "0 < mc" "mc \<le> Y p - (cy - rho)"
    and ma: "\<bar>t - cx\<bar> \<le> ma" and mb: "\<bar>t - X p\<bar> \<le> mb"
    and b: "4 * ma\<^sup>2 * (1 + (mb / mc)\<^sup>2) \<le> rlo\<^sup>2" "0 \<le> rlo" "rlo \<le> rho"
  shows "distance2d \<lparr>X = 2 * t - cx, Y = parabola_y p (cy - rho) (2 * t - cx)\<rparr> \<lparr>X = cx, Y = cy\<rparr>
           \<le> rho"
proof -
  define w where "w = Y p - (cy - rho)"
  have w: "0 < w" "mc \<le> w" using ne by (simp_all add: w_def)
  have pc: "parabola_y p (cy - rho) cx = cy"
    unfolding parabola_y_def using cp w(1) by (intro parabola_center) (simp_all add: w_def)
  have "parabola_y p (cy - rho) (2 * t - cx) - parabola_y p (cy - rho) cx
        = ((2 * t - cx - X p)\<^sup>2 - (cx - X p)\<^sup>2) / (2 * w)"
    by (simp add: parabola_y_def w_def diff_divide_distrib[symmetric])
  also have "(2 * t - cx - X p)\<^sup>2 - (cx - X p)\<^sup>2 = 4 * (t - cx) * (t - X p)"
    by (simp add: power2_eq_square algebra_simps)
  finally have "parabola_y p (cy - rho) (2 * t - cx) - cy = 4 * (t - cx) * (t - X p) / (2 * w)"
    using pc by simp
  also have "\<dots> = 2 * (t - cx) * ((t - X p) / w)"
    using w(1) by (simp add: field_simps)
  finally have dy: "parabola_y p (cy - rho) (2 * t - cx) - cy = 2 * (t - cx) * ((t - X p) / w)" .
  have m1n: "0 \<le> ma" using ma by linarith
  have m2n: "0 \<le> mb" using mb by linarith
  have q: "\<bar>(t - X p) / w\<bar> \<le> mb / mc"
  proof -
    have "\<bar>(t - X p) / w\<bar> = \<bar>t - X p\<bar> / w" using w(1) by (simp add: abs_divide)
    also have "\<dots> \<le> mb / w" using mb w(1) by (simp add: divide_right_mono)
    also have "\<dots> \<le> mb / mc" using m2n ne(1) w(2) by (simp add: divide_left_mono)
    finally show ?thesis .
  qed
  have q2: "((t - X p) / w)\<^sup>2 \<le> (mb / mc)\<^sup>2"
    using q by (metis abs_ge_zero power2_abs power_mono)
  have a2: "(t - cx)\<^sup>2 \<le> ma\<^sup>2"
    using ma by (metis abs_ge_zero power2_abs power_mono)
  have gen: "\<And>a q :: real. (2 * a)\<^sup>2 + (2 * a * q)\<^sup>2 = 4 * a\<^sup>2 * (1 + q\<^sup>2)"
    by (simp add: power2_eq_square algebra_simps)
  have "2 * t - cx - cx = 2 * (t - cx)" by simp
  hence "(2 * t - cx - cx)\<^sup>2 + (2 * (t - cx) * ((t - X p) / w))\<^sup>2
        = 4 * (t - cx)\<^sup>2 * (1 + ((t - X p) / w)\<^sup>2)"
    using gen[of "t - cx" "(t - X p) / w"] by simp
  also have "\<dots> \<le> 4 * ma\<^sup>2 * (1 + (mb / mc)\<^sup>2)"
    using a2 q2 by (intro mult_mono) simp_all
  also have "\<dots> \<le> rlo\<^sup>2" by (rule b(1))
  also have "\<dots> \<le> rho\<^sup>2" using b(2,3) by (simp add: power_mono)
  finally have "(2 * t - cx - cx)\<^sup>2 + (parabola_y p (cy - rho) (2 * t - cx) - cy)\<^sup>2 \<le> rho\<^sup>2"
    using dy by simp
  moreover have "0 \<le> rho" using b(2,3) by linarith
  ultimately show ?thesis
    by (simp add: distance2d_def power2_eq_square[symmetric] real_le_lsqrt)
qed

lemma ebind_weak_cong: "m = m' \<Longrightarrow> ebind m f = ebind m' f"
  by simp

text \<open>The three ways out of \<^verbatim>\<open>CircleQueue::insert\<close> for three distinct sites.\<close>

lemma CircleQueue_insert_behind:
  assumes "deref pts (Some a) = Inr pa" "deref pts (Some b) = Inr pb" "deref pts (Some c) = Inr pc"
    and "solveCircle pa pb pc = Some circ"
    and "\<not> (a = b' \<and> b = c)" "\<not> (a = c \<and> b = b')"
    and "sw < Y (center circ) - radius circ"
  shows "CircleQueue_insert pts sw (isect a b) (isect b' c) qu = Inr qu"
  using assms by (auto simp add: CircleQueue_insert_def isect_sel assert_def)

lemma CircleQueue_insert_accept:
  assumes "deref pts (Some a) = Inr pa" "deref pts (Some b) = Inr pb" "deref pts (Some c) = Inr pc"
    and "solveCircle pa pb pc = Some circ"
    and "\<not> (a = b' \<and> b = c)" "\<not> (a = c \<and> b = b')"
    and "\<not> sw < Y (center circ) - radius circ"
    and "\<exists>q. getIntersection_inter pts (Y (center circ) - radius circ) (isect a b) = Inr q
              \<and> \<not> radius circ < distance2d q (center circ)"
  shows "CircleQueue_insert pts sw (isect a b) (isect b' c) qu
           = Inr (queue_set_insert qu \<lparr>left_int = isect a b, right_int = isect b' c, circle = circ\<rparr>)"
  using assms by (auto simp add: CircleQueue_insert_def isect_sel assert_def Let_def)

lemma CircleQueue_insert_diverging:
  assumes "deref pts (Some a) = Inr pa" "deref pts (Some b) = Inr pb" "deref pts (Some c) = Inr pc"
    and "solveCircle pa pb pc = Some circ"
    and "\<not> (a = b' \<and> b = c)" "\<not> (a = c \<and> b = b')"
    and "\<not> sw < Y (center circ) - radius circ"
    and "\<exists>q. getIntersection_inter pts (Y (center circ) - radius circ) (isect a b) = Inr q
              \<and> radius circ < distance2d q (center circ)"
  shows "CircleQueue_insert pts sw (isect a b) (isect b' c) qu = Inr qu"
  using assms by (auto simp add: CircleQueue_insert_def isect_sel assert_def Let_def)

lemma CircleQueue_insert_pair:
  "CircleQueue_insert pts sw (isect a b) (isect b a) qu = Inr qu"
  by (simp add: CircleQueue_insert_def isect_sel)

text \<open>\<^verbatim>\<open>CircleQueue::erase\<close> on three sites.\<close>

lemma CircleQueue_erase_none:
  assumes "deref pts (Some a) = Inr pa" "deref pts (Some b) = Inr pb" "deref pts (Some c) = Inr pc"
    and "solveCircle pa pb pc = None"
  shows "CircleQueue_erase pts (isect a b) (isect b' c) qu
           = Inr (erase_scan None (isect a b) (isect b' c) qu)"
  using assms by (simp add: CircleQueue_erase_def isect_sel assert_def)

lemma CircleQueue_erase_some:
  assumes "deref pts (Some a) = Inr pa" "deref pts (Some b) = Inr pb" "deref pts (Some c) = Inr pc"
    and "solveCircle pa pb pc = Some circ"
  shows "CircleQueue_erase pts (isect a b) (isect b' c) qu
           = Inr (take (queue_lower_bound qu (Y (center circ) - radius circ)) qu
                  @ erase_scan (Some (Y (center circ) - radius circ)) (isect a b) (isect b' c)
                      (drop (queue_lower_bound qu (Y (center circ) - radius circ)) qu))"
  using assms by (simp add: CircleQueue_erase_def isect_sel assert_def Let_def)

text \<open>The mirrored root is outside the circle when it is far enough from the centre.\<close>

lemma mirror_distance_far:
  assumes cp: "(X p - cx)\<^sup>2 + (Y p - cy)\<^sup>2 = rho\<^sup>2"
    and ne: "0 < Y p - (cy - rho)" "Y p - (cy - rho) \<le> mc"
    and ma: "0 \<le> ma" "ma \<le> \<bar>t - cx\<bar>" and mb: "0 \<le> mb" "mb \<le> \<bar>t - X p\<bar>"
    and b: "rhi\<^sup>2 < 4 * ma\<^sup>2 * (1 + (mb / mc)\<^sup>2)" "0 \<le> rho" "rho \<le> rhi"
  shows "rho < distance2d \<lparr>X = 2 * t - cx, Y = parabola_y p (cy - rho) (2 * t - cx)\<rparr> \<lparr>X = cx, Y = cy\<rparr>"
proof -
  define w where "w = Y p - (cy - rho)"
  have w: "0 < w" "w \<le> mc" using ne by (simp_all add: w_def)
  have mc: "0 < mc" using w by linarith
  have pc: "parabola_y p (cy - rho) cx = cy"
    unfolding parabola_y_def using cp w(1) by (intro parabola_center) (simp_all add: w_def)
  have "parabola_y p (cy - rho) (2 * t - cx) - parabola_y p (cy - rho) cx
        = ((2 * t - cx - X p)\<^sup>2 - (cx - X p)\<^sup>2) / (2 * w)"
    by (simp add: parabola_y_def w_def diff_divide_distrib[symmetric])
  also have "(2 * t - cx - X p)\<^sup>2 - (cx - X p)\<^sup>2 = 4 * (t - cx) * (t - X p)"
    by (simp add: power2_eq_square algebra_simps)
  finally have "parabola_y p (cy - rho) (2 * t - cx) - cy = 4 * (t - cx) * (t - X p) / (2 * w)"
    using pc by simp
  also have "\<dots> = 2 * (t - cx) * ((t - X p) / w)"
    using w(1) by (simp add: field_simps)
  finally have dy: "parabola_y p (cy - rho) (2 * t - cx) - cy = 2 * (t - cx) * ((t - X p) / w)" .
  have q: "mb / mc \<le> \<bar>(t - X p) / w\<bar>"
  proof -
    have "mb / mc \<le> mb / w" using mb(1) w by (simp add: divide_left_mono)
    also have "\<dots> \<le> \<bar>t - X p\<bar> / w" using mb(2) w(1) by (simp add: divide_right_mono)
    also have "\<dots> = \<bar>(t - X p) / w\<bar>" using w(1) by (simp add: abs_divide)
    finally show ?thesis .
  qed
  have q0: "0 \<le> mb / mc" using mb(1) mc by simp
  have q2: "(mb / mc)\<^sup>2 \<le> ((t - X p) / w)\<^sup>2"
    using q q0 by (metis power2_abs power_mono)
  have a2: "ma\<^sup>2 \<le> (t - cx)\<^sup>2"
    using ma by (metis power2_abs power_mono)
  have gen: "\<And>a q :: real. (2 * a)\<^sup>2 + (2 * a * q)\<^sup>2 = 4 * a\<^sup>2 * (1 + q\<^sup>2)"
    by (simp add: power2_eq_square algebra_simps)
  have "2 * t - cx - cx = 2 * (t - cx)" by simp
  hence eq: "(2 * t - cx - cx)\<^sup>2 + (2 * (t - cx) * ((t - X p) / w))\<^sup>2
        = 4 * (t - cx)\<^sup>2 * (1 + ((t - X p) / w)\<^sup>2)"
    using gen[of "t - cx" "(t - X p) / w"] by simp
  have "rho\<^sup>2 \<le> rhi\<^sup>2" using b(2,3) by (simp add: power_mono)
  also have "\<dots> < 4 * ma\<^sup>2 * (1 + (mb / mc)\<^sup>2)" by (rule b(1))
  also have "\<dots> \<le> 4 * (t - cx)\<^sup>2 * (1 + ((t - X p) / w)\<^sup>2)"
    using a2 q2 by (intro mult_mono) simp_all
  finally have "rho\<^sup>2 < (2 * t - cx - cx)\<^sup>2 + (parabola_y p (cy - rho) (2 * t - cx) - cy)\<^sup>2"
    using eq dy by simp
  hence "rho < sqrt ((2 * t - cx - cx)\<^sup>2 + (parabola_y p (cy - rho) (2 * t - cx) - cy)\<^sup>2)"
    by (rule real_less_rsqrt)
  thus ?thesis by (simp add: distance2d_def power2_eq_square)
qed

lemma sqrt_between:
  assumes "0 \<le> lo" "lo\<^sup>2 \<le> x" "0 \<le> hi" "x \<le> hi\<^sup>2"
  shows "lo \<le> sqrt x" and "sqrt x \<le> hi" and "0 \<le> sqrt x" and "(sqrt x)\<^sup>2 = x"
proof -
  have x0: "0 \<le> x" using assms(2) by (meson order_trans zero_le_power2)
  show "lo \<le> sqrt x" using assms(2) by (rule real_le_rsqrt)
  show "sqrt x \<le> hi" using assms(3,4) by (simp add: real_le_lsqrt)
  show "0 \<le> sqrt x" using x0 by simp
  show "(sqrt x)\<^sup>2 = x" using x0 by simp
qed

subsection \<open>A run that breaks the adjacency of the beach line\<close>

text \<open>The sites one by one.\<close>

lemma adj_length: "length adj_sites = 5"
  by (simp add: adj_sites_def)

lemma adj_nth_0: "adj_sites ! 0 = \<lparr>X = (- 17), Y = 25\<rparr>"
  by (simp add: adj_sites_def)

lemma adj_deref_0: "deref adj_sites (Some 0) = Inr \<lparr>X = (- 17), Y = 25\<rparr>"
  by (simp add: adj_sites_def deref_def)

lemma adj_nth_1: "adj_sites ! (Suc 0) = \<lparr>X = 5, Y = (- 14)\<rparr>"
  by (simp add: adj_sites_def)

lemma adj_deref_1: "deref adj_sites (Some (Suc 0)) = Inr \<lparr>X = 5, Y = (- 14)\<rparr>"
  by (simp add: adj_sites_def deref_def)

lemma adj_nth_2: "adj_sites ! 2 = \<lparr>X = 9, Y = (- 16)\<rparr>"
  by (simp add: adj_sites_def)

lemma adj_deref_2: "deref adj_sites (Some 2) = Inr \<lparr>X = 9, Y = (- 16)\<rparr>"
  by (simp add: adj_sites_def deref_def)

lemma adj_nth_3: "adj_sites ! 3 = \<lparr>X = 1, Y = (- 18)\<rparr>"
  by (simp add: adj_sites_def)

lemma adj_deref_3: "deref adj_sites (Some 3) = Inr \<lparr>X = 1, Y = (- 18)\<rparr>"
  by (simp add: adj_sites_def deref_def)

lemma adj_nth_4: "adj_sites ! 4 = \<lparr>X = 18, Y = (- 19)\<rparr>"
  by (simp add: adj_sites_def)

lemma adj_deref_4: "deref adj_sites (Some 4) = Inr \<lparr>X = 18, Y = (- 19)\<rparr>"
  by (simp add: adj_sites_def deref_def)

text \<open>The radius of each circle between two decimal bounds, and the circles as results of
  \<^verbatim>\<open>solveCircle\<close>.\<close>

lemma c012_center: "center c012 = \<lparr>X = (2955 / 112), Y = (1331 / 56)\<rparr>"
  by (simp add: c012_def)

lemma c012_radius:
  "(434014220309 / 10000000000) \<le> radius c012" "radius c012 \<le> (43401422031 / 1000000000)"
      "0 \<le> radius c012" "(radius c012)\<^sup>2 = (23628925 / 12544)"
  unfolding c012_def Circle.simps
  by (rule sqrt_between[where lo = "(434014220309 / 10000000000)" and hi = "(43401422031 /
      1000000000)"]; simp add: power2_eq_square)+

lemma c012_key_lo: "(- (137434954217 / 7000000000)) \<le> Y (center c012) - radius c012"
  using c012_radius(2) by (simp add: c012_center)

lemma c012_key_hi: "Y (center c012) - radius c012 \<le> (- (1374349542163 / 70000000000))"
  using c012_radius(1) by (simp add: c012_center)

lemma c013_center: "center c013 = \<lparr>X = (- (1707 / 122)), Y = (121 / 122)\<rparr>"
  by (simp add: c013_def)

lemma c013_radius:
  "(60489810987 / 2500000000) \<le> radius c013" "radius c013 \<le> (241959243949 / 10000000000)"
      "0 \<le> radius c013" "(radius c013)\<^sup>2 = (4356865 / 7442)"
  unfolding c013_def Circle.simps
  by (rule sqrt_between[where lo = "(60489810987 / 2500000000)" and hi = "(241959243949 /
      10000000000)"]; simp add: power2_eq_square)+

lemma c013_key_lo: "(- (14154513880889 / 610000000000)) \<le> Y (center c013) - radius c013"
  using c013_radius(2) by (simp add: c013_center)

lemma c013_key_hi: "Y (center c013) - radius c013 \<le> (- (3538628470207 / 152500000000))"
  using c013_radius(1) by (simp add: c013_center)

lemma c312_center: "center c312 = \<lparr>X = (16 / 3), Y = (- (55 / 3))\<rparr>"
  by (simp add: c312_def)

lemma c312_radius:
  "(5432668671 / 1250000000) \<le> radius c312" "radius c312 \<le> (43461349369 / 10000000000)"
      "0 \<le> radius c312" "(radius c312)\<^sup>2 = (170 / 9)"
  unfolding c312_def Circle.simps
  by (rule sqrt_between[where lo = "(5432668671 / 1250000000)" and hi = "(43461349369 /
      10000000000)"]; simp add: power2_eq_square)+

lemma c312_key_lo: "(- (680384048107 / 30000000000)) \<le> Y (center c312) - radius c312"
  using c312_radius(2) by (simp add: c312_center)

lemma c312_key_hi: "Y (center c312) - radius c312 \<le> (- (85048006013 / 3750000000))"
  using c312_radius(1) by (simp add: c312_center)

lemma c124_center: "center c124 = \<lparr>X = 29, Y = 29\<rparr>"
  by (simp add: c124_def)

lemma c124_radius:
  "(492442890089 / 10000000000) \<le> radius c124" "radius c124 \<le> (49244289009 / 1000000000)"
      "0 \<le> radius c124" "(radius c124)\<^sup>2 = 2425"
  unfolding c124_def Circle.simps
  by (rule sqrt_between[where lo = "(492442890089 / 10000000000)" and hi = "(49244289009 /
      1000000000)"]; simp add: power2_eq_square)+

lemma c124_key_lo: "(- (20244289009 / 1000000000)) \<le> Y (center c124) - radius c124"
  using c124_radius(2) by (simp add: c124_center)

lemma c124_key_hi: "Y (center c124) - radius c124 \<le> (- (202442890089 / 10000000000))"
  using c124_radius(1) by (simp add: c124_center)

lemma c410_center: "center c410 = \<lparr>X = (21561 / 794), Y = (19217 / 794)\<rparr>"
  by (simp add: c410_def)

lemma c410_radius:
  "(883242167 / 20000000) \<le> radius c410" "radius c410 \<le> (441621083501 / 10000000000)" "0
      \<le> radius c410" "(radius c410)\<^sup>2 = (614767085 / 315218)"
  unfolding c410_def Circle.simps
  by (rule sqrt_between[where lo = "(883242167 / 20000000)" and hi = "(441621083501 /
      10000000000)"]; simp add: power2_eq_square)+

lemma c410_key_lo: "(- (79238570149897 / 3970000000000)) \<le> Y (center c410) - radius c410"
  using c410_radius(2) by (simp add: c410_center)

lemma c410_key_hi: "Y (center c410) - radius c410 \<le> (- (158477140299 / 7940000000))"
  using c410_radius(1) by (simp add: c410_center)

lemma adj_solve_012: "solveCircle \<lparr>X = (- 17), Y = 25\<rparr> \<lparr>X = 5, Y = (-
    14)\<rparr> \<lparr>X = 9, Y = (- 16)\<rparr> = Some c012"
  by (simp add: solveCircle_def checked_div_def sqr_def c012_def)

lemma adj_solve_210: "solveCircle \<lparr>X = 9, Y = (- 16)\<rparr> \<lparr>X = 5, Y = (-
    14)\<rparr> \<lparr>X = (- 17), Y = 25\<rparr> = Some c012"
  by (simp add: solveCircle_def checked_div_def sqr_def c012_def)

lemma adj_solve_010: "solveCircle \<lparr>X = (- 17), Y = 25\<rparr> \<lparr>X = 5, Y = (-
    14)\<rparr> \<lparr>X = (- 17), Y = 25\<rparr> = None"
  by (simp add: solveCircle_def checked_div_def sqr_def)

lemma adj_solve_013: "solveCircle \<lparr>X = (- 17), Y = 25\<rparr> \<lparr>X = 5, Y = (-
    14)\<rparr> \<lparr>X = 1, Y = (- 18)\<rparr> = Some c013"
  by (simp add: solveCircle_def checked_div_def sqr_def c013_def)

lemma adj_solve_312: "solveCircle \<lparr>X = 1, Y = (- 18)\<rparr> \<lparr>X = 5, Y = (-
    14)\<rparr> \<lparr>X = 9, Y = (- 16)\<rparr> = Some c312"
  by (simp add: solveCircle_def checked_div_def sqr_def c312_def)

lemma adj_solve_124: "solveCircle \<lparr>X = 5, Y = (- 14)\<rparr> \<lparr>X = 9, Y = (-
    16)\<rparr> \<lparr>X = 18, Y = (- 19)\<rparr> = Some c124"
  by (simp add: solveCircle_def checked_div_def sqr_def c124_def)

lemma adj_solve_421: "solveCircle \<lparr>X = 18, Y = (- 19)\<rparr> \<lparr>X = 9, Y = (-
    16)\<rparr> \<lparr>X = 5, Y = (- 14)\<rparr> = Some c124"
  by (simp add: solveCircle_def checked_div_def sqr_def c124_def)

lemma adj_solve_121: "solveCircle \<lparr>X = 5, Y = (- 14)\<rparr> \<lparr>X = 9, Y = (-
    16)\<rparr> \<lparr>X = 5, Y = (- 14)\<rparr> = None"
  by (simp add: solveCircle_def checked_div_def sqr_def)

lemma adj_solve_242: "solveCircle \<lparr>X = 9, Y = (- 16)\<rparr> \<lparr>X = 18, Y = (-
    19)\<rparr> \<lparr>X = 9, Y = (- 16)\<rparr> = None"
  by (simp add: solveCircle_def checked_div_def sqr_def)

lemma adj_solve_410: "solveCircle \<lparr>X = 18, Y = (- 19)\<rparr> \<lparr>X = 5, Y = (-
    14)\<rparr> \<lparr>X = (- 17), Y = 25\<rparr> = Some c410"
  by (simp add: solveCircle_def checked_div_def sqr_def c410_def)

text \<open>The abscissa of each breakpoint that the run compares, in a rational interval, at the
  sweep position of the comparison.\<close>

lemma adj_pos_m16_01: "breakpoint_in adj_sites (- 16) (isect 0 (Suc 0)) (- (4268591 / 1000000))
    (- (426859 / 100000))"
  by (rule pos_general_down[OF adj_deref_0 adj_deref_1, where klo = "(- 16)" and khi = "(- 16)"
      and L = "(405475030057 / 1000000000)" and U = "(202737515029 / 500000000)"])
     (simp_all add: term1_def dist2_def epsilon_def power2_eq_square)

lemma adj_pos_m16_10: "breakpoint_in adj_sites (- 16) (isect (Suc 0) 0) (661 / 40) (16525001 /
    1000000)"
  by (rule pos_general_up[OF adj_deref_1 adj_deref_0, where klo = "(- 16)" and khi = "(- 16)" and
      L = "(405475030057 / 1000000000)" and U = "(202737515029 / 500000000)"])
     (simp_all add: term1_def dist2_def epsilon_def power2_eq_square)

lemma adj_pos_m16_12: "breakpoint_in adj_sites (- 16) (isect (Suc 0) 2) 9 9"
  using pos_right_on_sweep[OF adj_deref_1 adj_deref_2, of "(- 16)"] by (simp add: epsilon_def)

lemma adj_pos_m16_21: "breakpoint_in adj_sites (- 16) (isect 2 (Suc 0)) 9 9"
  using pos_left_on_sweep[OF adj_deref_2 adj_deref_1, of "(- 16)"] by (simp add: epsilon_def)

lemma adj_pos_m18_01: "breakpoint_in adj_sites (- 18) (isect 0 (Suc 0)) (- (7801227 / 1000000))
    (- (3900613 / 500000))"
  by (rule pos_general_down[OF adj_deref_0 adj_deref_1, where klo = "(- 18)" and khi = "(- 18)"
      and L = "(73405977277 / 125000000)" and U = "(587247818217 / 1000000000)"])
     (simp_all add: term1_def dist2_def epsilon_def power2_eq_square)

lemma adj_pos_m18_12: "breakpoint_in adj_sites (- 18) (isect (Suc 0) 2) (1668861 / 250000)
    (1335089 / 200000)"
  by (rule pos_general_down[OF adj_deref_1 adj_deref_2, where klo = "(- 18)" and khi = "(- 18)"
      and L = "(158113883 / 12500000)" and U = "(12649110641 / 1000000000)"])
     (simp_all add: term1_def dist2_def epsilon_def power2_eq_square)

lemma adj_pos_m18_13: "breakpoint_in adj_sites (- 18) (isect (Suc 0) 3) 1 1"
  using pos_right_on_sweep[OF adj_deref_1 adj_deref_3, of "(- 18)"] by (simp add: epsilon_def)

lemma adj_pos_m18_31: "breakpoint_in adj_sites (- 18) (isect 3 (Suc 0)) 1 1"
  using pos_left_on_sweep[OF adj_deref_3 adj_deref_1, of "(- 18)"] by (simp add: epsilon_def)

lemma adj_pos_m19_01: "breakpoint_in adj_sites (- 19) (isect 0 (Suc 0)) (- (9209067 / 1000000))
    (- (4604533 / 500000))"
  by (rule pos_general_down[OF adj_deref_0 adj_deref_1, where klo = "(- 19)" and khi = "(- 19)"
      and L = "(166038399173 / 250000000)" and U = "(664153596693 / 1000000000)"])
     (simp_all add: term1_def dist2_def epsilon_def power2_eq_square)

lemma adj_pos_m19_13: "breakpoint_in adj_sites (- 19) (isect (Suc 0) 3) (- (1581139 / 500000)) (-
    (3162277 / 1000000))"
  by (rule pos_general_down[OF adj_deref_1 adj_deref_3, where klo = "(- 19)" and khi = "(- 19)"
      and L = "(158113883 / 12500000)" and U = "(12649110641 / 1000000000)"])
     (simp_all add: term1_def dist2_def epsilon_def power2_eq_square)

lemma adj_pos_m19_31: "breakpoint_in adj_sites (- 19) (isect 3 (Suc 0)) (3162277 / 1000000)
    (1581139 / 500000)"
  by (rule pos_general_up[OF adj_deref_3 adj_deref_1, where klo = "(- 19)" and khi = "(- 19)" and
      L = "(158113883 / 12500000)" and U = "(12649110641 / 1000000000)"])
     (simp_all add: term1_def dist2_def epsilon_def power2_eq_square)

lemma adj_pos_m19_12: "breakpoint_in adj_sites (- 19) (isect (Suc 0) 2) (1267949 / 200000)
    (3169873 / 500000)"
  by (rule pos_general_down[OF adj_deref_1 adj_deref_2, where klo = "(- 19)" and khi = "(- 19)"
      and L = "(692820323 / 40000000)" and U = "(4330127019 / 250000000)"])
     (simp_all add: term1_def dist2_def epsilon_def power2_eq_square)

lemma adj_pos_m19_21: "breakpoint_in adj_sites (- 19) (isect 2 (Suc 0)) (11830127 / 500000)
    (4732051 / 200000)"
  by (rule pos_general_up[OF adj_deref_2 adj_deref_1, where klo = "(- 19)" and khi = "(- 19)" and
      L = "(692820323 / 40000000)" and U = "(4330127019 / 250000000)"])
     (simp_all add: term1_def dist2_def epsilon_def power2_eq_square)

lemma adj_pos_m19_24: "breakpoint_in adj_sites (- 19) (isect 2 4) 18 18"
  using pos_right_on_sweep[OF adj_deref_2 adj_deref_4, of "(- 19)"] by (simp add: epsilon_def)

lemma adj_pos_m19_42: "breakpoint_in adj_sites (- 19) (isect 4 2) 18 18"
  using pos_left_on_sweep[OF adj_deref_4 adj_deref_2, of "(- 19)"] by (simp add: epsilon_def)

lemma adj_pos_m19_10: "breakpoint_in adj_sites (- 19) (isect (Suc 0) 0) (6212523 / 250000)
    (24850093 / 1000000)"
  by (rule pos_general_up[OF adj_deref_1 adj_deref_0, where klo = "(- 19)" and khi = "(- 19)" and
      L = "(166038399173 / 250000000)" and U = "(664153596693 / 1000000000)"])
     (simp_all add: term1_def dist2_def epsilon_def power2_eq_square)

lemma adj_pos_k124_01: "breakpoint_in adj_sites (Y (center c124) - radius c124) (isect 0 (Suc 0))
    (- (168371 / 15625)) (- (10775743 / 1000000))"
  by (rule pos_general_down[OF adj_deref_0 adj_deref_1, where klo = "(- (20244289009 /
      1000000000))" and khi = "(- (202442890089 / 10000000000))" and L = "(752628344689 /
      1000000000)" and U = "(752628344697 / 1000000000)"])
     (use c124_key_lo c124_key_hi in \<open>simp_all add: term1_def dist2_def epsilon_def
         power2_eq_square\<close>)

lemma adj_pos_k124_41: "breakpoint_in adj_sites (Y (center c124) - radius c124) (isect 4 (Suc 0))
    (28999999 / 1000000) (29000001 / 1000000)"
  by (rule pos_general_up[OF adj_deref_4 adj_deref_1, where klo = "(- (20244289009 /
      1000000000))" and khi = "(- (202442890089 / 10000000000))" and L = "(38824242881 /
      1000000000)" and U = "(9706060721 / 250000000)"])
     (use c124_key_lo c124_key_hi in \<open>simp_all add: term1_def dist2_def epsilon_def
         power2_eq_square\<close>)

lemma adj_pos_k124_13: "breakpoint_in adj_sites (Y (center c124) - radius c124) (isect (Suc 0) 3)
    (- (1307687 / 200000)) (- (3269217 / 500000))"
  by (rule pos_general_down[OF adj_deref_1 adj_deref_3, where klo = "(- (20244289009 /
      1000000000))" and khi = "(- (202442890089 / 10000000000))" and L = "(10588291341 /
      500000000)" and U = "(5294145671 / 250000000)"])
     (use c124_key_lo c124_key_hi in \<open>simp_all add: term1_def dist2_def epsilon_def
         power2_eq_square\<close>)

lemma adj_pos_k124_31: "breakpoint_in adj_sites (Y (center c124) - radius c124) (isect 3 (Suc 0))
    (63279 / 15625) (4049857 / 1000000)"
  by (rule pos_general_up[OF adj_deref_3 adj_deref_1, where klo = "(- (20244289009 /
      1000000000))" and khi = "(- (202442890089 / 10000000000))" and L = "(10588291341 /
      500000000)" and U = "(5294145671 / 250000000)"])
     (use c124_key_lo c124_key_hi in \<open>simp_all add: term1_def dist2_def epsilon_def
         power2_eq_square\<close>)

lemma adj_pos_k124_12: "breakpoint_in adj_sites (Y (center c124) - radius c124) (isect (Suc 0) 2)
    (1494289 / 250000) (5977157 / 1000000)"
  by (rule pos_general_down[OF adj_deref_1 adj_deref_2, where klo = "(- (20244289009 /
      1000000000))" and khi = "(- (202442890089 / 10000000000))" and L = "(23022843963 /
      1000000000)" and U = "(4604568793 / 200000000)"])
     (use c124_key_lo c124_key_hi in \<open>simp_all add: term1_def dist2_def epsilon_def
         power2_eq_square\<close>)

lemma adj_pos_k124_24: "breakpoint_in adj_sites (Y (center c124) - radius c124) (isect 2 4)
    (7232867 / 500000) (2893147 / 200000)"
  by (rule pos_general_down[OF adj_deref_2 adj_deref_4, where klo = "(- (20244289009 /
      1000000000))" and khi = "(- (202442890089 / 10000000000))" and L = "(10900699459 /
      500000000)" and U = "(545034973 / 25000000)"])
     (use c124_key_lo c124_key_hi in \<open>simp_all add: term1_def dist2_def epsilon_def
         power2_eq_square\<close>)

lemma adj_pos_k124_10: "breakpoint_in adj_sites (Y (center c124) - radius c124) (isect (Suc 0) 0)
    (13910291 / 500000) (27820583 / 1000000)"
  by (rule pos_general_up[OF adj_deref_1 adj_deref_0, where klo = "(- (20244289009 /
      1000000000))" and khi = "(- (202442890089 / 10000000000))" and L = "(752628344689 /
      1000000000)" and U = "(752628344697 / 1000000000)"])
     (use c124_key_lo c124_key_hi in \<open>simp_all add: term1_def dist2_def epsilon_def
         power2_eq_square\<close>)

text \<open>The comparisons of \<^verbatim>\<open>BeachCompare\<close> that the run makes.\<close>

lemma adj_cmp_m14_01_10: "BeachCompare adj_sites (- 14) (isect 0 (Suc 0)) (isect (Suc 0) 0) = Inr
    True"
  using BeachCompare_opposite[OF _ adj_deref_0 adj_deref_1, of "(- 14)"] by simp

lemma adj_cmp_m16_01_22: "BeachCompare adj_sites (- 16) (isect 0 (Suc 0)) (isect 2 2) = Inr True"
  by (rule BeachCompare_probe_less[OF _ _ adj_pos_m16_01 adj_deref_2]) simp_all

lemma adj_cmp_m16_10_22: "BeachCompare adj_sites (- 16) (isect (Suc 0) 0) (isect 2 2) = Inr False"
  by (rule BeachCompare_probe_not_less[OF _ _ adj_pos_m16_10 adj_deref_2]) simp_all

lemma adj_cmp_m16_01_12: "BeachCompare adj_sites (- 16) (isect 0 (Suc 0)) (isect (Suc 0) 2) = Inr
    True"
  by (rule BeachCompare_general_less[OF _ _ _ _ adj_pos_m16_01 adj_pos_m16_12]) simp_all

lemma adj_cmp_m16_10_12: "BeachCompare adj_sites (- 16) (isect (Suc 0) 0) (isect (Suc 0) 2) = Inr
    False"
  by (rule BeachCompare_general_not_less[OF _ _ _ _ adj_pos_m16_10 adj_pos_m16_12]) simp_all

lemma adj_cmp_m16_12_10: "BeachCompare adj_sites (- 16) (isect (Suc 0) 2) (isect (Suc 0) 0) = Inr
    True"
  by (rule BeachCompare_general_less[OF _ _ _ _ adj_pos_m16_12 adj_pos_m16_10]) simp_all

lemma adj_cmp_m16_01_21: "BeachCompare adj_sites (- 16) (isect 0 (Suc 0)) (isect 2 (Suc 0)) = Inr
    True"
  by (rule BeachCompare_general_less[OF _ _ _ _ adj_pos_m16_01 adj_pos_m16_21]) simp_all

lemma adj_cmp_m16_12_21: "BeachCompare adj_sites (- 16) (isect (Suc 0) 2) (isect 2 (Suc 0)) = Inr
    True"
  using BeachCompare_opposite[OF _ adj_deref_1 adj_deref_2, of "(- 16)"] by simp

lemma adj_cmp_m16_10_21: "BeachCompare adj_sites (- 16) (isect (Suc 0) 0) (isect 2 (Suc 0)) = Inr
    False"
  by (rule BeachCompare_general_not_less[OF _ _ _ _ adj_pos_m16_10 adj_pos_m16_21]) simp_all

lemma adj_cmp_m16_21_10: "BeachCompare adj_sites (- 16) (isect 2 (Suc 0)) (isect (Suc 0) 0) = Inr
    True"
  by (rule BeachCompare_general_less[OF _ _ _ _ adj_pos_m16_21 adj_pos_m16_10]) simp_all

lemma adj_cmp_m18_01_33: "BeachCompare adj_sites (- 18) (isect 0 (Suc 0)) (isect 3 3) = Inr True"
  by (rule BeachCompare_probe_less[OF _ _ adj_pos_m18_01 adj_deref_3]) simp_all

lemma adj_cmp_m18_12_33: "BeachCompare adj_sites (- 18) (isect (Suc 0) 2) (isect 3 3) = Inr False"
  by (rule BeachCompare_probe_not_less[OF _ _ adj_pos_m18_12 adj_deref_3]) simp_all

lemma adj_cmp_m18_01_13: "BeachCompare adj_sites (- 18) (isect 0 (Suc 0)) (isect (Suc 0) 3) = Inr
    True"
  by (rule BeachCompare_general_less[OF _ _ _ _ adj_pos_m18_01 adj_pos_m18_13]) simp_all

lemma adj_cmp_m18_12_13: "BeachCompare adj_sites (- 18) (isect (Suc 0) 2) (isect (Suc 0) 3) = Inr
    False"
  by (rule BeachCompare_general_not_less[OF _ _ _ _ adj_pos_m18_12 adj_pos_m18_13]) simp_all

lemma adj_cmp_m18_13_12: "BeachCompare adj_sites (- 18) (isect (Suc 0) 3) (isect (Suc 0) 2) = Inr
    True"
  by (rule BeachCompare_general_less[OF _ _ _ _ adj_pos_m18_13 adj_pos_m18_12]) simp_all

lemma adj_cmp_m18_01_31: "BeachCompare adj_sites (- 18) (isect 0 (Suc 0)) (isect 3 (Suc 0)) = Inr
    True"
  by (rule BeachCompare_general_less[OF _ _ _ _ adj_pos_m18_01 adj_pos_m18_31]) simp_all

lemma adj_cmp_m18_13_31: "BeachCompare adj_sites (- 18) (isect (Suc 0) 3) (isect 3 (Suc 0)) = Inr
    True"
  using BeachCompare_opposite[OF _ adj_deref_1 adj_deref_3, of "(- 18)"] by simp

lemma adj_cmp_m18_12_31: "BeachCompare adj_sites (- 18) (isect (Suc 0) 2) (isect 3 (Suc 0)) = Inr
    False"
  by (rule BeachCompare_general_not_less[OF _ _ _ _ adj_pos_m18_12 adj_pos_m18_31]) simp_all

lemma adj_cmp_m18_31_12: "BeachCompare adj_sites (- 18) (isect 3 (Suc 0)) (isect (Suc 0) 2) = Inr
    True"
  by (rule BeachCompare_general_less[OF _ _ _ _ adj_pos_m18_31 adj_pos_m18_12]) simp_all

lemma adj_cmp_m19_01_44: "BeachCompare adj_sites (- 19) (isect 0 (Suc 0)) (isect 4 4) = Inr True"
  by (rule BeachCompare_probe_less[OF _ _ adj_pos_m19_01 adj_deref_4]) simp_all

lemma adj_cmp_m19_13_44: "BeachCompare adj_sites (- 19) (isect (Suc 0) 3) (isect 4 4) = Inr True"
  by (rule BeachCompare_probe_less[OF _ _ adj_pos_m19_13 adj_deref_4]) simp_all

lemma adj_cmp_m19_31_44: "BeachCompare adj_sites (- 19) (isect 3 (Suc 0)) (isect 4 4) = Inr True"
  by (rule BeachCompare_probe_less[OF _ _ adj_pos_m19_31 adj_deref_4]) simp_all

lemma adj_cmp_m19_12_44: "BeachCompare adj_sites (- 19) (isect (Suc 0) 2) (isect 4 4) = Inr True"
  by (rule BeachCompare_probe_less[OF _ _ adj_pos_m19_12 adj_deref_4]) simp_all

lemma adj_cmp_m19_21_44: "BeachCompare adj_sites (- 19) (isect 2 (Suc 0)) (isect 4 4) = Inr False"
  by (rule BeachCompare_probe_not_less[OF _ _ adj_pos_m19_21 adj_deref_4]) simp_all

lemma adj_cmp_m19_01_24: "BeachCompare adj_sites (- 19) (isect 0 (Suc 0)) (isect 2 4) = Inr True"
  by (rule BeachCompare_general_less[OF _ _ _ _ adj_pos_m19_01 adj_pos_m19_24]) simp_all

lemma adj_cmp_m19_13_24: "BeachCompare adj_sites (- 19) (isect (Suc 0) 3) (isect 2 4) = Inr True"
  by (rule BeachCompare_general_less[OF _ _ _ _ adj_pos_m19_13 adj_pos_m19_24]) simp_all

lemma adj_cmp_m19_31_24: "BeachCompare adj_sites (- 19) (isect 3 (Suc 0)) (isect 2 4) = Inr True"
  by (rule BeachCompare_general_less[OF _ _ _ _ adj_pos_m19_31 adj_pos_m19_24]) simp_all

lemma adj_cmp_m19_12_24: "BeachCompare adj_sites (- 19) (isect (Suc 0) 2) (isect 2 4) = Inr True"
  by (rule BeachCompare_general_less[OF _ _ _ _ adj_pos_m19_12 adj_pos_m19_24]) simp_all

lemma adj_cmp_m19_21_24: "BeachCompare adj_sites (- 19) (isect 2 (Suc 0)) (isect 2 4) = Inr False"
  by (rule BeachCompare_general_not_less[OF _ _ _ _ adj_pos_m19_21 adj_pos_m19_24]) simp_all

lemma adj_cmp_m19_24_21: "BeachCompare adj_sites (- 19) (isect 2 4) (isect 2 (Suc 0)) = Inr True"
  by (rule BeachCompare_general_less[OF _ _ _ _ adj_pos_m19_24 adj_pos_m19_21]) simp_all

lemma adj_cmp_m19_01_42: "BeachCompare adj_sites (- 19) (isect 0 (Suc 0)) (isect 4 2) = Inr True"
  by (rule BeachCompare_general_less[OF _ _ _ _ adj_pos_m19_01 adj_pos_m19_42]) simp_all

lemma adj_cmp_m19_13_42: "BeachCompare adj_sites (- 19) (isect (Suc 0) 3) (isect 4 2) = Inr True"
  by (rule BeachCompare_general_less[OF _ _ _ _ adj_pos_m19_13 adj_pos_m19_42]) simp_all

lemma adj_cmp_m19_31_42: "BeachCompare adj_sites (- 19) (isect 3 (Suc 0)) (isect 4 2) = Inr True"
  by (rule BeachCompare_general_less[OF _ _ _ _ adj_pos_m19_31 adj_pos_m19_42]) simp_all

lemma adj_cmp_m19_12_42: "BeachCompare adj_sites (- 19) (isect (Suc 0) 2) (isect 4 2) = Inr True"
  by (rule BeachCompare_general_less[OF _ _ _ _ adj_pos_m19_12 adj_pos_m19_42]) simp_all

lemma adj_cmp_m19_24_42: "BeachCompare adj_sites (- 19) (isect 2 4) (isect 4 2) = Inr True"
  using BeachCompare_opposite[OF _ adj_deref_2 adj_deref_4, of "(- 19)"] by simp

lemma adj_cmp_m19_21_42: "BeachCompare adj_sites (- 19) (isect 2 (Suc 0)) (isect 4 2) = Inr False"
  by (rule BeachCompare_general_not_less[OF _ _ _ _ adj_pos_m19_21 adj_pos_m19_42]) simp_all

lemma adj_cmp_m19_42_21: "BeachCompare adj_sites (- 19) (isect 4 2) (isect 2 (Suc 0)) = Inr True"
  by (rule BeachCompare_general_less[OF _ _ _ _ adj_pos_m19_42 adj_pos_m19_21]) simp_all

lemma adj_cmp_m19_01_13: "BeachCompare adj_sites (- 19) (isect 0 (Suc 0)) (isect (Suc 0) 3) = Inr
    True"
  by (rule BeachCompare_general_less[OF _ _ _ _ adj_pos_m19_01 adj_pos_m19_13]) simp_all

lemma adj_cmp_m19_13_31: "BeachCompare adj_sites (- 19) (isect (Suc 0) 3) (isect 3 (Suc 0)) = Inr
    True"
  using BeachCompare_opposite[OF _ adj_deref_1 adj_deref_3, of "(- 19)"] by simp

lemma adj_cmp_m19_31_12: "BeachCompare adj_sites (- 19) (isect 3 (Suc 0)) (isect (Suc 0) 2) = Inr
    True"
  by (rule BeachCompare_general_less[OF _ _ _ _ adj_pos_m19_31 adj_pos_m19_12]) simp_all

lemma adj_cmp_m19_21_10: "BeachCompare adj_sites (- 19) (isect 2 (Suc 0)) (isect (Suc 0) 0) = Inr
    True"
  by (rule BeachCompare_general_less[OF _ _ _ _ adj_pos_m19_21 adj_pos_m19_10]) simp_all

lemma adj_cmp_k124_01_41: "BeachCompare adj_sites (Y (center c124) - radius c124) (isect 0 (Suc
    0)) (isect 4 (Suc 0)) = Inr True"
  by (rule BeachCompare_general_less[OF _ _ _ _ adj_pos_k124_01 adj_pos_k124_41]) simp_all

lemma adj_cmp_k124_13_41: "BeachCompare adj_sites (Y (center c124) - radius c124) (isect (Suc 0)
    3) (isect 4 (Suc 0)) = Inr True"
  by (rule BeachCompare_general_less[OF _ _ _ _ adj_pos_k124_13 adj_pos_k124_41]) simp_all

lemma adj_cmp_k124_31_41: "BeachCompare adj_sites (Y (center c124) - radius c124) (isect 3 (Suc
    0)) (isect 4 (Suc 0)) = Inr True"
  by (rule BeachCompare_general_less[OF _ _ _ _ adj_pos_k124_31 adj_pos_k124_41]) simp_all

lemma adj_cmp_k124_12_41: "BeachCompare adj_sites (Y (center c124) - radius c124) (isect (Suc 0)
    2) (isect 4 (Suc 0)) = Inr True"
  by (rule BeachCompare_general_less[OF _ _ _ _ adj_pos_k124_12 adj_pos_k124_41]) simp_all

lemma adj_cmp_k124_24_41: "BeachCompare adj_sites (Y (center c124) - radius c124) (isect 2 4)
    (isect 4 (Suc 0)) = Inr True"
  by (rule BeachCompare_general_less[OF _ _ _ _ adj_pos_k124_24 adj_pos_k124_41]) simp_all

lemma adj_cmp_k124_10_41: "BeachCompare adj_sites (Y (center c124) - radius c124) (isect (Suc 0)
    0) (isect 4 (Suc 0)) = Inr True"
  by (rule BeachCompare_general_less[OF _ _ _ _ adj_pos_k124_10 adj_pos_k124_41]) simp_all

lemma adj_cmp_k124_41_01: "BeachCompare adj_sites (Y (center c124) - radius c124) (isect 4 (Suc
    0)) (isect 0 (Suc 0)) = Inr False"
  by (rule BeachCompare_general_not_less[OF _ _ _ _ adj_pos_k124_41 adj_pos_k124_01]) simp_all

lemma adj_cmp_k124_41_13: "BeachCompare adj_sites (Y (center c124) - radius c124) (isect 4 (Suc
    0)) (isect (Suc 0) 3) = Inr False"
  by (rule BeachCompare_general_not_less[OF _ _ _ _ adj_pos_k124_41 adj_pos_k124_13]) simp_all

lemma adj_cmp_k124_41_31: "BeachCompare adj_sites (Y (center c124) - radius c124) (isect 4 (Suc
    0)) (isect 3 (Suc 0)) = Inr False"
  by (rule BeachCompare_general_not_less[OF _ _ _ _ adj_pos_k124_41 adj_pos_k124_31]) simp_all

lemma adj_cmp_k124_41_12: "BeachCompare adj_sites (Y (center c124) - radius c124) (isect 4 (Suc
    0)) (isect (Suc 0) 2) = Inr False"
  by (rule BeachCompare_general_not_less[OF _ _ _ _ adj_pos_k124_41 adj_pos_k124_12]) simp_all

lemma adj_cmp_k124_41_24: "BeachCompare adj_sites (Y (center c124) - radius c124) (isect 4 (Suc
    0)) (isect 2 4) = Inr False"
  by (rule BeachCompare_general_not_less[OF _ _ _ _ adj_pos_k124_41 adj_pos_k124_24]) simp_all

lemma adj_cmp_k124_41_10: "BeachCompare adj_sites (Y (center c124) - radius c124) (isect 4 (Suc
    0)) (isect (Suc 0) 0) = Inr False"
  by (rule BeachCompare_general_not_less[OF _ _ _ _ adj_pos_k124_41 adj_pos_k124_10]) simp_all

text \<open>The calls of \<^verbatim>\<open>CircleQueue::insert\<close>, each after its
    convergence test, and of
  \<^verbatim>\<open>CircleQueue::erase\<close>.\<close>

lemma adj_insert_m16_01_12_test:
  "\<exists>q. getIntersection_inter adj_sites (Y (center c012) - radius c012) (isect 0 (Suc 0))
      = Inr q
        \<and> \<not> radius c012 < distance2d q (center c012)"
proof -
  let ?p = "\<lparr>X = (- 17), Y = 25\<rparr>" and ?r = "\<lparr>X = 5, Y = (- 14)\<rparr>"
  let ?k = "(1331 / 56) - radius c012" and ?c = "\<lparr>X = (2955 / 112), Y = (1331 /
      56)\<rparr>"
  let ?t = "term1 ?p ?r ?k"
  note rb = c012_radius(1,2)
  have cp: "(X ?p - (2955 / 112))\<^sup>2 + (Y ?p - (1331 / 56))\<^sup>2 = (radius c012)\<^sup>2"
    unfolding c012_radius(4) by (simp add: power2_eq_square)
  have cr: "(X ?r - (2955 / 112))\<^sup>2 + (Y ?r - (1331 / 56))\<^sup>2 = (radius c012)\<^sup>2"
    unfolding c012_radius(4) by (simp add: power2_eq_square)
  have bk: "\<bar>?k\<bar> \<le> 100" using rb by simp
  have b1: "epsilon \<le> Y ?p - ?k" using rb by (simp add: epsilon_def)
  have b2: "epsilon \<le> Y ?r - ?k" using rb by (simp add: epsilon_def)
  have b3: "epsilon < \<bar>Y ?p - Y ?r\<bar>" by (simp add: epsilon_def)
  have t: "?t = (- (5935 / 364)) + (22 / 39) * radius c012"
    by (simp add: term1_def field_simps)
  let ?q = "\<lparr>X = 2 * ?t - (2955 / 112), Y = parabola_y ?p ?k (2 * ?t - (2955 /
      112))\<rparr>"
  have sg: "(- 1) = 1 \<and> (2955 / 112) \<le> ?t \<or> (- 1) = - 1 \<and> ?t \<le> (2955 / 112)"
    unfolding t using rb by simp
  have g: "getIntersection ?k ?p ?r (- 1) = Inr ?q"
    by (rule converge_mirror[where rho = "radius c012", OF cp cr _ _ _ _ bk b1 b2 b3 sg]) simp_all
  have w: "(0::real) < (11158391 / 250000)" "(11158391 / 250000) \<le> Y ?p - ?k" using rb by
      simp_all
  have ma: "\<bar>?t - (2955 / 112)\<bar> \<le> (18206021 / 1000000)" unfolding t using rb by simp
  have mb: "\<bar>?t - X ?p\<bar> \<le> (25177909 / 1000000)" unfolding t using rb by simp
  have bd: "4 * (18206021 / 1000000)\<^sup>2 * (1 + ((25177909 / 1000000) / (11158391 /
      250000))\<^sup>2) \<le> ((434014220309 / 10000000000)::real)\<^sup>2" "(0::real) \<le>
      (434014220309 / 10000000000)"
    by (simp_all add: power2_eq_square)
  have d: "distance2d ?q ?c \<le> radius c012"
    by (rule mirror_distance[OF cp w ma mb bd c012_radius(1)])
  show ?thesis using g d
    by (simp add: inter_isect[OF adj_deref_0 adj_deref_1] c012_center)
qed

lemma adj_insert_m16_01_12:
  "CircleQueue_insert adj_sites (- 16) (isect 0 (Suc 0)) (isect (Suc 0) 2) [] = Inr [ev012]"
proof -
  have "CircleQueue_insert adj_sites (- 16) (isect 0 (Suc 0)) (isect (Suc 0) 2) []
          = Inr (queue_set_insert [] \<lparr>left_int = (isect 0 (Suc 0)), right_int = (isect
              (Suc 0) 2), circle = c012\<rparr>)"
    by (rule CircleQueue_insert_accept[OF adj_deref_0 adj_deref_1 adj_deref_2 adj_solve_012 _ _ _
        adj_insert_m16_01_12_test]) (use c012_key_lo c012_key_hi in simp_all)
  moreover have "queue_set_insert [] \<lparr>left_int = (isect 0 (Suc 0)), right_int = (isect
      (Suc 0) 2), circle = c012\<rparr> = [ev012]"
    using c012_key_lo c012_key_hi
    by (simp add: queue_set_insert_def event_less_def event_key_def ev012_def)
  ultimately show ?thesis by simp
qed

lemma adj_insert_m16_21_10_test:
  "\<exists>q. getIntersection_inter adj_sites (Y (center c012) - radius c012) (isect 2 (Suc 0))
      = Inr q
        \<and> \<not> radius c012 < distance2d q (center c012)"
proof -
  let ?p = "\<lparr>X = 9, Y = (- 16)\<rparr>" and ?r = "\<lparr>X = 5, Y = (- 14)\<rparr>"
  let ?k = "(1331 / 56) - radius c012" and ?c = "\<lparr>X = (2955 / 112), Y = (1331 /
      56)\<rparr>"
  let ?t = "term1 ?p ?r ?k"
  note rb = c012_radius(1,2)
  have cp: "(X ?p - (2955 / 112))\<^sup>2 + (Y ?p - (1331 / 56))\<^sup>2 = (radius c012)\<^sup>2"
    unfolding c012_radius(4) by (simp add: power2_eq_square)
  have cr: "(X ?r - (2955 / 112))\<^sup>2 + (Y ?r - (1331 / 56))\<^sup>2 = (radius c012)\<^sup>2"
    unfolding c012_radius(4) by (simp add: power2_eq_square)
  have bk: "\<bar>?k\<bar> \<le> 100" using rb by simp
  have b1: "epsilon \<le> Y ?p - ?k" using rb by (simp add: epsilon_def)
  have b2: "epsilon \<le> Y ?r - ?k" using rb by (simp add: epsilon_def)
  have b3: "epsilon < \<bar>Y ?p - Y ?r\<bar>" by (simp add: epsilon_def)
  have t: "?t = (- (1975 / 28)) + 2 * radius c012"
    by (simp add: term1_def field_simps)
  have sg: "1 = 1 \<and> ?t \<le> (2955 / 112) \<or> 1 = - 1 \<and> (2955 / 112) \<le> ?t"
    unfolding t using rb by simp
  have g: "getIntersection ?k ?p ?r 1 = Inr ?c"
    by (rule converge_center[where rho = "radius c012", OF cp cr _ _ _ _ bk b1 b2 b3 sg]) simp_all
  show ?thesis using g c012_radius(3)
    by (simp add: inter_isect[OF adj_deref_2 adj_deref_1] c012_center distance2d_def)
qed

lemma adj_insert_m16_21_10:
  "CircleQueue_insert adj_sites (- 16) (isect 2 (Suc 0)) (isect (Suc 0) 0) [ev012] = Inr [ev012]"
proof -
  have "CircleQueue_insert adj_sites (- 16) (isect 2 (Suc 0)) (isect (Suc 0) 0) [ev012]
          = Inr (queue_set_insert [ev012] \<lparr>left_int = (isect 2 (Suc 0)), right_int =
              (isect (Suc 0) 0), circle = c012\<rparr>)"
    by (rule CircleQueue_insert_accept[OF adj_deref_2 adj_deref_1 adj_deref_0 adj_solve_210 _ _ _
        adj_insert_m16_21_10_test]) (use c012_key_lo c012_key_hi in simp_all)
  moreover have "queue_set_insert [ev012] \<lparr>left_int = (isect 2 (Suc 0)), right_int =
      (isect (Suc 0) 0), circle = c012\<rparr> = [ev012]"
    using c012_key_lo c012_key_hi
    by (simp add: queue_set_insert_def event_less_def event_key_def ev012_def)
  ultimately show ?thesis by simp
qed

lemma adj_erase_2_01_10:
  "CircleQueue_erase adj_sites (isect 0 (Suc 0)) (isect (Suc 0) 0) [ev012] = Inr [ev012]"
  using CircleQueue_erase_none[OF adj_deref_0 adj_deref_1 adj_deref_0 adj_solve_010, where b' =
      "Suc 0" and qu = "[ev012]"]
  by (simp add: isect_sel ev012_def)

lemma adj_insert_m18_01_13_test:
  "\<exists>q. getIntersection_inter adj_sites (Y (center c013) - radius c013) (isect 0 (Suc 0))
      = Inr q
        \<and> \<not> radius c013 < distance2d q (center c013)"
proof -
  let ?p = "\<lparr>X = (- 17), Y = 25\<rparr>" and ?r = "\<lparr>X = 5, Y = (- 14)\<rparr>"
  let ?k = "(121 / 122) - radius c013" and ?c = "\<lparr>X = (- (1707 / 122)), Y = (121 /
      122)\<rparr>"
  let ?t = "term1 ?p ?r ?k"
  note rb = c013_radius(1,2)
  have cp: "(X ?p - (- (1707 / 122)))\<^sup>2 + (Y ?p - (121 / 122))\<^sup>2 = (radius
      c013)\<^sup>2"
    unfolding c013_radius(4) by (simp add: power2_eq_square)
  have cr: "(X ?r - (- (1707 / 122)))\<^sup>2 + (Y ?r - (121 / 122))\<^sup>2 = (radius
      c013)\<^sup>2"
    unfolding c013_radius(4) by (simp add: power2_eq_square)
  have bk: "\<bar>?k\<bar> \<le> 100" using rb by simp
  have b1: "epsilon \<le> Y ?p - ?k" using rb by (simp add: epsilon_def)
  have b2: "epsilon \<le> Y ?r - ?k" using rb by (simp add: epsilon_def)
  have b3: "epsilon < \<bar>Y ?p - Y ?r\<bar>" by (simp add: epsilon_def)
  have t: "?t = (- (8224 / 2379)) + (22 / 39) * radius c013"
    by (simp add: term1_def field_simps)
  have sg: "(- 1) = 1 \<and> ?t \<le> (- (1707 / 122)) \<or> (- 1) = - 1 \<and> (- (1707 / 122))
      \<le> ?t"
    unfolding t using rb by simp
  have g: "getIntersection ?k ?p ?r (- 1) = Inr ?c"
    by (rule converge_center[where rho = "radius c013", OF cp cr _ _ _ _ bk b1 b2 b3 sg]) simp_all
  show ?thesis using g c013_radius(3)
    by (simp add: inter_isect[OF adj_deref_0 adj_deref_1] c013_center distance2d_def)
qed

lemma adj_insert_m18_01_13:
  "CircleQueue_insert adj_sites (- 18) (isect 0 (Suc 0)) (isect (Suc 0) 3) [ev012] = Inr [ev013,
      ev012]"
proof -
  have "CircleQueue_insert adj_sites (- 18) (isect 0 (Suc 0)) (isect (Suc 0) 3) [ev012]
          = Inr (queue_set_insert [ev012] \<lparr>left_int = (isect 0 (Suc 0)), right_int =
              (isect (Suc 0) 3), circle = c013\<rparr>)"
    by (rule CircleQueue_insert_accept[OF adj_deref_0 adj_deref_1 adj_deref_3 adj_solve_013 _ _ _
        adj_insert_m18_01_13_test]) (use c013_key_lo c013_key_hi in simp_all)
  moreover have "queue_set_insert [ev012] \<lparr>left_int = (isect 0 (Suc 0)), right_int =
      (isect (Suc 0) 3), circle = c013\<rparr> = [ev013, ev012]"
    using c013_key_lo c013_key_hi c012_key_lo c012_key_hi
    by (simp add: queue_set_insert_def event_less_def event_key_def ev012_def ev013_def)
  ultimately show ?thesis by simp
qed

lemma adj_insert_m18_31_12_test:
  "\<exists>q. getIntersection_inter adj_sites (Y (center c312) - radius c312) (isect 3 (Suc 0))
      = Inr q
        \<and> \<not> radius c312 < distance2d q (center c312)"
proof -
  let ?p = "\<lparr>X = 1, Y = (- 18)\<rparr>" and ?r = "\<lparr>X = 5, Y = (- 14)\<rparr>"
  let ?k = "(- (55 / 3)) - radius c312" and ?c = "\<lparr>X = (16 / 3), Y = (- (55 / 3))\<rparr>"
  let ?t = "term1 ?p ?r ?k"
  note rb = c312_radius(1,2)
  have cp: "(X ?p - (16 / 3))\<^sup>2 + (Y ?p - (- (55 / 3)))\<^sup>2 = (radius c312)\<^sup>2"
    unfolding c312_radius(4) by (simp add: power2_eq_square)
  have cr: "(X ?r - (16 / 3))\<^sup>2 + (Y ?r - (- (55 / 3)))\<^sup>2 = (radius c312)\<^sup>2"
    unfolding c312_radius(4) by (simp add: power2_eq_square)
  have bk: "\<bar>?k\<bar> \<le> 100" using rb by simp
  have b1: "epsilon \<le> Y ?p - ?k" using rb by (simp add: epsilon_def)
  have b2: "epsilon \<le> Y ?r - ?k" using rb by (simp add: epsilon_def)
  have b3: "epsilon < \<bar>Y ?p - Y ?r\<bar>" by (simp add: epsilon_def)
  have t: "?t = (2 / 3) + (- 1) * radius c312"
    by (simp add: term1_def field_simps)
  have sg: "1 = 1 \<and> ?t \<le> (16 / 3) \<or> 1 = - 1 \<and> (16 / 3) \<le> ?t"
    unfolding t using rb by simp
  have g: "getIntersection ?k ?p ?r 1 = Inr ?c"
    by (rule converge_center[where rho = "radius c312", OF cp cr _ _ _ _ bk b1 b2 b3 sg]) simp_all
  show ?thesis using g c312_radius(3)
    by (simp add: inter_isect[OF adj_deref_3 adj_deref_1] c312_center distance2d_def)
qed

lemma adj_insert_m18_31_12:
  "CircleQueue_insert adj_sites (- 18) (isect 3 (Suc 0)) (isect (Suc 0) 2) [ev013, ev012] = Inr
      [ev013, ev312, ev012]"
proof -
  have "CircleQueue_insert adj_sites (- 18) (isect 3 (Suc 0)) (isect (Suc 0) 2) [ev013, ev012]
          = Inr (queue_set_insert [ev013, ev012] \<lparr>left_int = (isect 3 (Suc 0)), right_int
              = (isect (Suc 0) 2), circle = c312\<rparr>)"
    by (rule CircleQueue_insert_accept[OF adj_deref_3 adj_deref_1 adj_deref_2 adj_solve_312 _ _ _
        adj_insert_m18_31_12_test]) (use c312_key_lo c312_key_hi in simp_all)
  moreover have "queue_set_insert [ev013, ev012] \<lparr>left_int = (isect 3 (Suc 0)), right_int
      = (isect (Suc 0) 2), circle = c312\<rparr> = [ev013, ev312, ev012]"
    using c312_key_lo c312_key_hi c013_key_lo c013_key_hi c012_key_lo c012_key_hi
    by (simp add: queue_set_insert_def event_less_def event_key_def ev012_def ev013_def ev312_def)
  ultimately show ?thesis by simp
qed

lemma adj_erase_3_01_12:
  "CircleQueue_erase adj_sites (isect 0 (Suc 0)) (isect (Suc 0) 2) [ev013, ev312, ev012] = Inr
      [ev013, ev312]"
  using CircleQueue_erase_some[OF adj_deref_0 adj_deref_1 adj_deref_2 adj_solve_012, where b' =
      "Suc 0" and qu = "[ev013, ev312, ev012]"] c012_key_lo c012_key_hi c013_key_lo c013_key_hi
      c312_key_lo c312_key_hi
  by (simp add: isect_sel event_key_def ev012_def ev013_def ev312_def)

lemma adj_insert_m19_12_24_test:
  "\<exists>q. getIntersection_inter adj_sites (Y (center c124) - radius c124) (isect (Suc 0) 2)
      = Inr q
        \<and> radius c124 < distance2d q (center c124)"
proof -
  let ?p = "\<lparr>X = 5, Y = (- 14)\<rparr>" and ?r = "\<lparr>X = 9, Y = (- 16)\<rparr>"
  let ?k = "29 - radius c124" and ?c = "\<lparr>X = 29, Y = 29\<rparr>"
  let ?t = "term1 ?p ?r ?k"
  note rb = c124_radius(1,2)
  have cp: "(X ?p - 29)\<^sup>2 + (Y ?p - 29)\<^sup>2 = (radius c124)\<^sup>2"
    unfolding c124_radius(4) by (simp add: power2_eq_square)
  have cr: "(X ?r - 29)\<^sup>2 + (Y ?r - 29)\<^sup>2 = (radius c124)\<^sup>2"
    unfolding c124_radius(4) by (simp add: power2_eq_square)
  have bk: "\<bar>?k\<bar> \<le> 100" using rb by simp
  have b1: "epsilon \<le> Y ?p - ?k" using rb by (simp add: epsilon_def)
  have b2: "epsilon \<le> Y ?r - ?k" using rb by (simp add: epsilon_def)
  have b3: "epsilon < \<bar>Y ?p - Y ?r\<bar>" by (simp add: epsilon_def)
  have t: "?t = (- 81) + 2 * radius c124"
    by (simp add: term1_def field_simps)
  let ?q = "\<lparr>X = 2 * ?t - 29, Y = parabola_y ?p ?k (2 * ?t - 29)\<rparr>"
  have sg: "(- 1) = 1 \<and> 29 \<le> ?t \<or> (- 1) = - 1 \<and> ?t \<le> 29"
    unfolding t using rb by simp
  have g: "getIntersection ?k ?p ?r (- 1) = Inr ?q"
    by (rule converge_mirror[where rho = "radius c124", OF cp cr _ _ _ _ bk b1 b2 b3 sg]) simp_all
  have w: "0 < Y ?p - ?k" "Y ?p - ?k \<le> (624429 / 100000)" using rb by simp_all
  have ma: "(0::real) \<le> (11511421 / 1000000)" "(11511421 / 1000000) \<le> \<bar>?t -
      29\<bar>" unfolding t using rb by simp_all
  have mb: "(0::real) \<le> (6244289 / 500000)" "(6244289 / 500000) \<le> \<bar>?t - X ?p\<bar>"
      unfolding t using rb by simp_all
  have bd: "((49244289009 / 1000000000)::real)\<^sup>2 < 4 * (11511421 / 1000000)\<^sup>2 * (1 +
      ((6244289 / 500000) / (624429 / 100000))\<^sup>2)"
    by (simp add: power2_eq_square)
  have d: "radius c124 < distance2d ?q ?c"
    by (rule mirror_distance_far[OF cp w ma mb bd c124_radius(3) c124_radius(2)])
  show ?thesis using g d
    by (simp add: inter_isect[OF adj_deref_1 adj_deref_2] c124_center)
qed

lemma adj_insert_m19_12_24:
  "CircleQueue_insert adj_sites (- 19) (isect (Suc 0) 2) (isect 2 4) [ev013, ev312] = Inr [ev013,
      ev312]"
  by (rule CircleQueue_insert_diverging[OF adj_deref_1 adj_deref_2 adj_deref_4 adj_solve_124 _ _
      _ adj_insert_m19_12_24_test]) (use c124_key_lo c124_key_hi in simp_all)

lemma adj_insert_m19_42_21_test:
  "\<exists>q. getIntersection_inter adj_sites (Y (center c124) - radius c124) (isect 4 2) = Inr q
        \<and> \<not> radius c124 < distance2d q (center c124)"
proof -
  let ?p = "\<lparr>X = 18, Y = (- 19)\<rparr>" and ?r = "\<lparr>X = 9, Y = (- 16)\<rparr>"
  let ?k = "29 - radius c124" and ?c = "\<lparr>X = 29, Y = 29\<rparr>"
  let ?t = "term1 ?p ?r ?k"
  note rb = c124_radius(1,2)
  have cp: "(X ?p - 29)\<^sup>2 + (Y ?p - 29)\<^sup>2 = (radius c124)\<^sup>2"
    unfolding c124_radius(4) by (simp add: power2_eq_square)
  have cr: "(X ?r - 29)\<^sup>2 + (Y ?r - 29)\<^sup>2 = (radius c124)\<^sup>2"
    unfolding c124_radius(4) by (simp add: power2_eq_square)
  have bk: "\<bar>?k\<bar> \<le> 100" using rb by simp
  have b1: "epsilon \<le> Y ?p - ?k" using rb by (simp add: epsilon_def)
  have b2: "epsilon \<le> Y ?r - ?k" using rb by (simp add: epsilon_def)
  have b3: "epsilon < \<bar>Y ?p - Y ?r\<bar>" by (simp add: epsilon_def)
  have t: "?t = (- 126) + 3 * radius c124"
    by (simp add: term1_def field_simps)
  have sg: "1 = 1 \<and> ?t \<le> 29 \<or> 1 = - 1 \<and> 29 \<le> ?t"
    unfolding t using rb by simp
  have g: "getIntersection ?k ?p ?r 1 = Inr ?c"
    by (rule converge_center[where rho = "radius c124", OF cp cr _ _ _ _ bk b1 b2 b3 sg]) simp_all
  show ?thesis using g c124_radius(3)
    by (simp add: inter_isect[OF adj_deref_4 adj_deref_2] c124_center distance2d_def)
qed

lemma adj_insert_m19_42_21:
  "CircleQueue_insert adj_sites (- 19) (isect 4 2) (isect 2 (Suc 0)) [ev013, ev312] = Inr [ev013,
      ev312, ev421]"
proof -
  have "CircleQueue_insert adj_sites (- 19) (isect 4 2) (isect 2 (Suc 0)) [ev013, ev312]
          = Inr (queue_set_insert [ev013, ev312] \<lparr>left_int = (isect 4 2), right_int =
              (isect 2 (Suc 0)), circle = c124\<rparr>)"
    by (rule CircleQueue_insert_accept[OF adj_deref_4 adj_deref_2 adj_deref_1 adj_solve_421 _ _ _
        adj_insert_m19_42_21_test]) (use c124_key_lo c124_key_hi in simp_all)
  moreover have "queue_set_insert [ev013, ev312] \<lparr>left_int = (isect 4 2), right_int =
      (isect 2 (Suc 0)), circle = c124\<rparr> = [ev013, ev312, ev421]"
    using c124_key_lo c124_key_hi c013_key_lo c013_key_hi c312_key_lo c312_key_hi
    by (simp add: queue_set_insert_def event_less_def event_key_def ev013_def ev312_def ev421_def)
  ultimately show ?thesis by simp
qed

lemma adj_erase_4_12_21:
  "CircleQueue_erase adj_sites (isect (Suc 0) 2) (isect 2 (Suc 0)) [ev013, ev312, ev421] = Inr
      [ev013, ev312, ev421]"
  using CircleQueue_erase_none[OF adj_deref_1 adj_deref_2 adj_deref_1 adj_solve_121, where b' =
      "2" and qu = "[ev013, ev312, ev421]"]
  by (simp add: isect_sel ev013_def ev312_def ev421_def)

lemma adj_erase_5_24_42:
  "CircleQueue_erase adj_sites (isect 2 4) (isect 4 2) [ev013, ev312] = Inr [ev013, ev312]"
  using CircleQueue_erase_none[OF adj_deref_2 adj_deref_4 adj_deref_2 adj_solve_242, where b' =
      "4" and qu = "[ev013, ev312]"]
  by (simp add: isect_sel ev013_def ev312_def)

lemma adj_erase_5_21_10:
  "CircleQueue_erase adj_sites (isect 2 (Suc 0)) (isect (Suc 0) 0) [ev013, ev312] = Inr [ev013,
      ev312]"
  using CircleQueue_erase_some[OF adj_deref_2 adj_deref_1 adj_deref_0 adj_solve_210, where b' =
      "Suc 0" and qu = "[ev013, ev312]"] c012_key_lo c012_key_hi c013_key_lo c013_key_hi
      c312_key_lo c312_key_hi
  by (simp add: isect_sel event_key_def ev013_def ev312_def)

lemma adj_insert_k124_41_10:
  "CircleQueue_insert adj_sites (Y (center c124) - radius c124) (isect 4 (Suc 0)) (isect (Suc 0)
      0) [ev013, ev312] = Inr [ev013, ev312]"
  by (rule CircleQueue_insert_behind[OF adj_deref_4 adj_deref_1 adj_deref_0 adj_solve_410]) (use
      c410_key_lo c410_key_hi c124_key_lo c124_key_hi in simp_all)

text \<open>The five site events and the first half of the circle event.\<close>

lemma adj_point_0: "processPoint adj_state0 0 = Inr adj_state1"
  unfolding adj_state0_def adj_state1_def
  by (simp add: processPoint_def beach_emplace_def in_range_def assert_def Let_def isect_sel
      isect_def[symmetric] adj_nth_0 adj_deref_0 adj_deref_1 adj_deref_2 adj_deref_3 adj_deref_4
      BeachCompare_first BeachCompare_last BeachCompare_last_left BeachCompare_first_right
      BeachCompare_first_last BeachCompare_same CircleQueue_insert_pair
      
      cong: ebind_weak_cong)

lemma adj_point_1: "processPoint adj_state1 (Suc 0) = Inr adj_state2"
  unfolding adj_state1_def adj_state2_def
  by (simp add: processPoint_def beach_emplace_def in_range_def assert_def Let_def isect_sel
      isect_def[symmetric] adj_nth_1 adj_deref_0 adj_deref_1 adj_deref_2 adj_deref_3 adj_deref_4
      BeachCompare_first BeachCompare_last BeachCompare_last_left BeachCompare_first_right
      BeachCompare_first_last BeachCompare_same CircleQueue_insert_pair
      adj_cmp_m14_01_10
      cong: ebind_weak_cong)

lemma adj_point_2: "processPoint adj_state2 2 = Inr adj_state3"
  unfolding adj_state2_def adj_state3_def
  by (simp add: processPoint_def beach_emplace_def in_range_def assert_def Let_def isect_sel
      isect_def[symmetric] adj_nth_2 adj_deref_0 adj_deref_1 adj_deref_2 adj_deref_3 adj_deref_4
      BeachCompare_first BeachCompare_last BeachCompare_last_left BeachCompare_first_right
      BeachCompare_first_last BeachCompare_same CircleQueue_insert_pair
      adj_cmp_m16_01_22 adj_cmp_m16_10_22 adj_cmp_m16_01_12 adj_cmp_m16_10_12 adj_cmp_m16_12_10
          adj_cmp_m16_01_21 adj_cmp_m16_12_21 adj_cmp_m16_10_21 adj_cmp_m16_21_10
          adj_insert_m16_01_12 adj_insert_m16_21_10 adj_erase_2_01_10
      cong: ebind_weak_cong)

lemma adj_point_3: "processPoint adj_state3 3 = Inr adj_state4"
  unfolding adj_state3_def adj_state4_def
  by (simp add: processPoint_def beach_emplace_def in_range_def assert_def Let_def isect_sel
      isect_def[symmetric] adj_nth_3 adj_deref_0 adj_deref_1 adj_deref_2 adj_deref_3 adj_deref_4
      BeachCompare_first BeachCompare_last BeachCompare_last_left BeachCompare_first_right
      BeachCompare_first_last BeachCompare_same CircleQueue_insert_pair
      adj_cmp_m18_01_33 adj_cmp_m18_12_33 adj_cmp_m18_01_13 adj_cmp_m18_12_13 adj_cmp_m18_13_12
          adj_cmp_m18_01_31 adj_cmp_m18_13_31 adj_cmp_m18_12_31 adj_cmp_m18_31_12
          adj_insert_m18_01_13 adj_insert_m18_31_12 adj_erase_3_01_12
      cong: ebind_weak_cong)

lemma adj_point_4: "processPoint adj_state4 4 = Inr adj_state5"
  unfolding adj_state4_def adj_state5_def
  by (simp add: processPoint_def beach_emplace_def in_range_def assert_def Let_def isect_sel
      isect_def[symmetric] adj_nth_4 adj_deref_0 adj_deref_1 adj_deref_2 adj_deref_3 adj_deref_4
      BeachCompare_first BeachCompare_last BeachCompare_last_left BeachCompare_first_right
      BeachCompare_first_last BeachCompare_same CircleQueue_insert_pair
      adj_cmp_m19_01_44 adj_cmp_m19_13_44 adj_cmp_m19_31_44 adj_cmp_m19_12_44 adj_cmp_m19_21_44
          adj_cmp_m19_01_24 adj_cmp_m19_13_24 adj_cmp_m19_31_24 adj_cmp_m19_12_24
          adj_cmp_m19_21_24 adj_cmp_m19_24_21 adj_cmp_m19_01_42 adj_cmp_m19_13_42
          adj_cmp_m19_31_42 adj_cmp_m19_12_42 adj_cmp_m19_24_42 adj_cmp_m19_21_42
          adj_cmp_m19_42_21 adj_insert_m19_12_24 adj_insert_m19_42_21 adj_erase_4_12_21
      cong: ebind_weak_cong)

lemma ev421_sel: "left_int ev421 = (isect 4 2)" "right_int ev421 = (isect 2 (Suc 0))" "circle
    ev421 = c124"
  by (simp_all add: ev421_def)

lemma adj_event_beach:
  "processEvent_beach (adj_state5\<lparr>m_events := [ev013, ev312]\<rparr>) ev421 =
     Inr \<lparr>sweep_y = (Y (center c124) - radius c124),
      m_beach = [\<lparr>pt_left = None, pt_right = Some 0\<rparr>, isect 0 1, isect 1 3, isect 3
          1, isect 1 2, isect 2 4, isect 1 0, isect 4 1, \<lparr>pt_left = Some 0, pt_right =
          None\<rparr>],
      m_events = [ev013, ev312],
      m_min_x = Some (- 17), m_max_x = Some 18, m_min_y = Some (- 19), m_max_y = Some 25,
      m_nodes = [], node_heap = [], m_edges = [], m_points = adj_sites\<rparr>"
  unfolding adj_state5_def
  by (simp add: processEvent_beach_def beach_emplace_def beach_find_def in_range_def assert_def
      Let_def
      isect_sel isect_def[symmetric] erase_at_def points_match_def ev421_sel adj_deref_0
          adj_deref_1 adj_deref_2 adj_deref_3 adj_deref_4
      BeachCompare_first BeachCompare_last BeachCompare_last_left BeachCompare_first_right
      BeachCompare_first_last BeachCompare_same CircleQueue_insert_pair
      adj_cmp_m19_01_13 adj_cmp_m19_13_31 adj_cmp_m19_31_12 adj_cmp_m19_12_24 adj_cmp_m19_24_42
          adj_cmp_m19_42_21 adj_cmp_m19_21_10 adj_cmp_m19_01_42 adj_cmp_m19_13_42
          adj_cmp_m19_31_42 adj_cmp_m19_12_42 adj_cmp_k124_01_41 adj_cmp_k124_13_41
          adj_cmp_k124_31_41 adj_cmp_k124_12_41 adj_cmp_k124_24_41 adj_cmp_k124_10_41
          adj_cmp_k124_41_01 adj_cmp_k124_41_13 adj_cmp_k124_41_31 adj_cmp_k124_41_12
          adj_cmp_k124_41_24 adj_cmp_k124_41_10 adj_erase_5_24_42 adj_erase_5_21_10
          adj_insert_k124_41_10
      cong: ebind_weak_cong)

text \<open>Both comparisons of the new breakpoint against the entries of the beach line it is
  emplaced in.\<close>

lemma adj_search_monotone:
  "map (\<lambda>e. BeachCompare adj_sites (Y (center c124) - radius c124) e (isect 4 (Suc 0)))
     [\<lparr>pt_left = None, pt_right = Some 0\<rparr>, (isect 0 (Suc 0)), (isect (Suc 0) 3),
         (isect 3 (Suc 0)), (isect (Suc 0) 2), (isect 2 4), (isect (Suc 0) 0), \<lparr>pt_left =
         Some 0, pt_right = None\<rparr>]
   = [Inr True, Inr True, Inr True, Inr True, Inr True, Inr True, Inr True, Inr False]"
  "map (\<lambda>e. BeachCompare adj_sites (Y (center c124) - radius c124) (isect 4 (Suc 0)) e)
     [\<lparr>pt_left = None, pt_right = Some 0\<rparr>, (isect 0 (Suc 0)), (isect (Suc 0) 3),
         (isect 3 (Suc 0)), (isect (Suc 0) 2), (isect 2 4), (isect (Suc 0) 0), \<lparr>pt_left =
         Some 0, pt_right = None\<rparr>]
   = [Inr False, Inr False, Inr False, Inr False, Inr False, Inr False, Inr False, Inr True]"
  by (simp_all add: BeachCompare_first BeachCompare_last BeachCompare_last_left
      BeachCompare_first_right
      adj_cmp_k124_01_41 adj_cmp_k124_41_01 adj_cmp_k124_13_41 adj_cmp_k124_41_13
          adj_cmp_k124_31_41 adj_cmp_k124_41_31 adj_cmp_k124_12_41 adj_cmp_k124_41_12
          adj_cmp_k124_24_41 adj_cmp_k124_41_24 adj_cmp_k124_10_41 adj_cmp_k124_41_10)

text \<open>The second half of the circle event, and the iterations of the main loop.\<close>

lemma adj_initial:
  "foldl update_bounds (Implementation_init\<lparr>m_points := adj_sites\<rparr>) adj_sites = adj_state0"
  by (simp add: adj_sites_def adj_state0_def Implementation_init_def update_bounds_def
      min_bound_def max_bound_def)

lemma adj_sorted: "sort_sites adj_sites = [0, 1, 2, 3, 4]"
  by (simp add: sort_sites_def adj_sites_def upt_rec)

lemma adj_state_sel:
  "m_events adj_state0 = []" "m_points adj_state0 = adj_sites"
  "m_events adj_state1 = []" "m_points adj_state1 = adj_sites" "m_nodes adj_state1 = []"
  "m_events adj_state2 = []" "m_points adj_state2 = adj_sites" "m_nodes adj_state2 = []"
  "m_events adj_state3 = [ev012]" "m_points adj_state3 = adj_sites" "m_nodes adj_state3 = []"
  "m_events adj_state4 = [ev013, ev312]" "m_points adj_state4 = adj_sites" "m_nodes adj_state4 = []"
  "m_events adj_state5 = [ev013, ev312, ev421]" "m_points adj_state5 = adj_sites"
  "m_nodes adj_state5 = []"
  by (simp_all add: adj_state0_def adj_state1_def adj_state2_def adj_state3_def adj_state4_def
      adj_state5_def)

lemma adj_step_0: "compute_step adj_state0 [0, 1, 2, 3, 4] 0 = Inr (adj_state1, 1)"
  by (simp add: compute_step_def next_choice_def adj_state_sel adj_point_0 assert_nodes_def
      assert_def)

lemma adj_step_1: "compute_step adj_state1 [0, 1, 2, 3, 4] 1 = Inr (adj_state2, 2)"
  by (simp add: compute_step_def next_choice_def adj_state_sel adj_point_1 assert_nodes_def
      assert_def)

lemma adj_step_2: "compute_step adj_state2 [0, 1, 2, 3, 4] 2 = Inr (adj_state3, 3)"
  by (simp add: compute_step_def next_choice_def adj_state_sel adj_point_2 assert_nodes_def
      assert_def)

lemma adj_step_3: "compute_step adj_state3 [0, 1, 2, 3, 4] 3 = Inr (adj_state4, 4)"
  using c012_key_hi
  by (simp add: compute_step_def next_choice_def adj_state_sel adj_point_3 assert_nodes_def
      assert_def event_key_def ev012_def adj_nth_3)

lemma adj_step_4: "compute_step adj_state4 [0, 1, 2, 3, 4] 4 = Inr (adj_state5, 5)"
  using c312_key_hi
  by (simp add: compute_step_def next_choice_def adj_state_sel adj_point_4 assert_nodes_def
      assert_def event_key_def ev312_def adj_nth_4)

lemma adj_event_emit:
  "(case processEvent_emit
          \<lparr>sweep_y = Y (center c124) - radius c124, m_beach = adj_beach6,
           m_events = [ev013, ev312],
           m_min_x = Some (- 17), m_max_x = Some 18, m_min_y = Some (- 19), m_max_y = Some 25,
           m_nodes = [], node_heap = [], m_edges = [], m_points = adj_sites\<rparr> ev421 of
      Inr st \<Rightarrow> m_beach st = adj_beach6 \<and> assert_nodes st = Inr ()
    | Inl e \<Rightarrow> False)"
  by (simp add: processEvent_emit_def connect_event_def ev421_sel isect_sel getNode3_def
      getNode2_def orderPoints_def parent_index_def sizeof_Point_def assert_def assert_nodes_def
      adj_deref_1 adj_deref_2 adj_deref_4 adj_solve_124 c124_center perp_def addTriplet_def
      addEdge_def node_update_def add_node_edge_def add_node_neighbor_def Let_def)

lemma adj_event:
  "\<exists>st. processEvent (adj_state5\<lparr>m_events := [ev013, ev312]\<rparr>) ev421 = Inr st
        \<and> m_beach st = adj_beach6 \<and> assert_nodes st = Inr ()"
proof -
  let ?b = "\<lparr>sweep_y = Y (center c124) - radius c124, m_beach = adj_beach6,
           m_events = [ev013, ev312],
           m_min_x = Some (- 17), m_max_x = Some 18, m_min_y = Some (- 19), m_max_y = Some 25,
           m_nodes = [], node_heap = [], m_edges = [], m_points = adj_sites\<rparr>"
  have b: "processEvent_beach (adj_state5\<lparr>m_events := [ev013, ev312]\<rparr>) ev421 = Inr ?b"
    using adj_event_beach by (simp add: adj_beach6_def)
  obtain st where st: "processEvent_emit ?b ev421 = Inr st" "m_beach st = adj_beach6"
      "assert_nodes st = Inr ()"
    using adj_event_emit by (cases "processEvent_emit ?b ev421") simp_all
  show ?thesis using b st by (simp add: processEvent_def)
qed

lemma compute_loop_step:
  assumes "compute_step st ordered ii = Inr (st', ii')"
    and "m_events st \<noteq> [] \<or> ii < length ordered"
  shows "compute_loop ordered st ii = compute_loop ordered st' ii'"
  using assms by (subst compute_loop.simps) auto

lemma adj_loop:
  "compute_loop [0, 1, 2, 3, 4] adj_state0 0 = compute_loop [0, 1, 2, 3, 4] adj_state5 5"
proof -
  have "compute_loop [0, 1, 2, 3, 4] adj_state0 0 = compute_loop [0, 1, 2, 3, 4] adj_state1 1"
    by (rule compute_loop_step[OF adj_step_0]) simp
  also have "\<dots> = compute_loop [0, 1, 2, 3, 4] adj_state2 2"
    by (rule compute_loop_step[OF adj_step_1]) simp
  also have "\<dots> = compute_loop [0, 1, 2, 3, 4] adj_state3 3"
    by (rule compute_loop_step[OF adj_step_2]) simp
  also have "\<dots> = compute_loop [0, 1, 2, 3, 4] adj_state4 4"
    by (rule compute_loop_step[OF adj_step_3]) simp
  also have "\<dots> = compute_loop [0, 1, 2, 3, 4] adj_state5 5"
    by (rule compute_loop_step[OF adj_step_4]) simp
  finally show ?thesis .
qed

text \<open>
  C7. The claim: after every \<^verbatim>\<open>processPoint\<close> and every \<^verbatim>\<open>processEvent\<close>, for any two adjacent
  entries of the beach line the right site of the first is the left site of the second.

  The run of \<^verbatim>\<open>compute\<close> on the five sites \<open>(-17,25)\<close>, \<open>(5,-14)\<close>, \<open>(9,-16)\<close>, \<open>(1,-18)\<close>,
  \<open>(18,-19)\<close> breaks it in its sixth iteration. At the third site, \<^verbatim>\<open>CircleQueue::insert\<close>
  accepts the event of the breakpoints \<open>(0,1)\<close> and \<open>(1,2)\<close>, which do not converge (the left
  breakpoint is the other root, at \<open>41.8\<close> from the centre; the radius is \<open>43.4\<close> and only
  \<open>d > r\<close> rejects; the right breakpoint is not evaluated, see C1), and then drops the event
  of \<open>(2,1)\<close> and \<open>(1,0)\<close>, which do converge, because it has the same key (it is the same
  circle). The fourth site erases the first event. The arc of
  site 1 between the arcs of the sites 2 and 0 therefore never leaves the beach line. The
  five site events keep the invariant; when the circle event of \<open>(4,2)\<close> and \<open>(2,1)\<close> is
  processed, the new breakpoint \<open>(4,1)\<close> is placed behind \<open>(1,0)\<close>, and \<open>(2,4)\<close> is followed
  by \<open>(1,0)\<close>. By \<open>adj_search_monotone\<close> both comparisons of the new breakpoint against the
  entries are monotone along the beach line, so that a search tree finds the position of
  the scan.
\<close>

theorem beach_adjacency_broken:
  "foldl update_bounds (Implementation_init\<lparr>m_points := adj_sites\<rparr>) adj_sites = adj_state0
   \<and> sort_sites adj_sites = [0, 1, 2, 3, 4]
   \<and> compute_step adj_state0 [0, 1, 2, 3, 4] 0 = Inr (adj_state1, 1)
   \<and> compute_step adj_state1 [0, 1, 2, 3, 4] 1 = Inr (adj_state2, 2)
   \<and> compute_step adj_state2 [0, 1, 2, 3, 4] 2 = Inr (adj_state3, 3)
   \<and> compute_step adj_state3 [0, 1, 2, 3, 4] 3 = Inr (adj_state4, 4)
   \<and> compute_step adj_state4 [0, 1, 2, 3, 4] 4 = Inr (adj_state5, 5)
   \<and> beach_adjacent (m_beach adj_state5)
   \<and> next_choice adj_state5 [0, 1, 2, 3, 4] 5 = CircleEventChoice
   \<and> (\<exists>st. processEvent (adj_state5\<lparr>m_events := butlast (m_events adj_state5)\<rparr>)
               (last (m_events adj_state5)) = Inr st
            \<and> compute_step adj_state5 [0, 1, 2, 3, 4] 5 = Inr (st, 5)
            \<and> compute Implementation_init adj_sites = compute_loop [0, 1, 2, 3, 4] st 5
            \<and> m_beach st = adj_beach6
            \<and> \<not> beach_adjacent (m_beach st))"
proof -
  have adj5: "beach_adjacent (m_beach adj_state5)"
    by (simp add: adj_state5_def isect_sel)
  have ch: "next_choice adj_state5 [0, 1, 2, 3, 4] 5 = CircleEventChoice"
    by (simp add: next_choice_def adj_state_sel)
  obtain st where st: "processEvent (adj_state5\<lparr>m_events := [ev013, ev312]\<rparr>) ev421 = Inr st"
      "m_beach st = adj_beach6" "assert_nodes st = Inr ()"
    using adj_event by blast
  have n6: "\<not> beach_adjacent adj_beach6"
    by (simp add: adj_beach6_def isect_sel)
  have ev: "processEvent (adj_state5\<lparr>m_events := butlast (m_events adj_state5)\<rparr>)
               (last (m_events adj_state5)) = Inr st"
    using st(1) by (simp add: adj_state_sel)
  have cs: "compute_step adj_state5 [0, 1, 2, 3, 4] 5 = Inr (st, 5)"
    using ev st(3) ch by (simp add: compute_step_def)
  have "compute Implementation_init adj_sites = compute_loop [0, 1, 2, 3, 4] adj_state0 0"
    by (simp add: compute_def adj_initial adj_sorted)
  also have "\<dots> = compute_loop [0, 1, 2, 3, 4] adj_state5 5"
    by (rule adj_loop)
  also have "\<dots> = compute_loop [0, 1, 2, 3, 4] st 5"
    by (rule compute_loop_step[OF cs]) (simp add: adj_state_sel)
  finally have run: "compute Implementation_init adj_sites = compute_loop [0, 1, 2, 3, 4] st 5" .
  from adj_initial adj_sorted adj_step_0 adj_step_1 adj_step_2 adj_step_3 adj_step_4 adj5 ch
    ev cs run st(2) n6
  show ?thesis by (intro conjI exI[of _ st]) simp_all
qed

end
